(* ===== verification/Prelude.thy ===== *)
theory Prelude
  imports Complex_Main "HOL-Library.Sublist"
begin

text \<open>
  Shared vocabulary of the development: Python strings as lists of code points, the few
  string methods the program calls, insertion-ordered dictionaries as association lists,
  first-seen de-duplication and the error sum used for raised exceptions.
\<close>

section \<open>Collections of rules\<close>

named_theorems py_str \<open>equations that evaluate string operations\<close>
named_theorems dict_simps \<open>lookup and key equations of the ordered dictionary\<close>

section \<open>Strings\<close>

text \<open>
  A Python string is a sequence of Unicode code points, so lengths and offsets count code
  points. The function \<open>u\<close> turns an ASCII literal into such a sequence; literals outside
  ASCII are written as numbers.
\<close>

type_synonym pystr = "nat list"

definition u :: "string \<Rightarrow> pystr" where
  "u s = map of_char s"

lemma u_Nil [simp, py_str]: "u [] = []"
  by (simp add: u_def)

lemma u_Cons [simp, py_str]: "u (c # cs) = of_char c # u cs"
  by (simp add: u_def)

lemma length_u [simp]: "length (u s) = length s"
  by (simp add: u_def)

lemma u_eq_Nil [simp]: "u s = [] \<longleftrightarrow> s = []"
  by (simp add: u_def)

lemma u_inject [simp]: "u s = u t \<longleftrightarrow> s = t"
  by (auto simp: u_def inj_map_eq_map inj_def)

text \<open>The characters \<open>str.isspace\<close> accepts, as used by \<open>strip\<close> and \<open>split\<close>.\<close>

definition py_isspace :: "nat \<Rightarrow> bool" where
  "py_isspace c \<longleftrightarrow>
     (9 \<le> c \<and> c \<le> 13) \<or> (28 \<le> c \<and> c \<le> 32) \<or> c = 133 \<or> c = 160 \<or> c = 5760 \<or>
     (8192 \<le> c \<and> c \<le> 8202) \<or> c = 8232 \<or> c = 8233 \<or> c = 8239 \<or> c = 8287 \<or> c = 12288"

definition py_strip :: "pystr \<Rightarrow> pystr" where
  "py_strip s = rev (dropWhile py_isspace (rev (dropWhile py_isspace s)))"

text \<open>\<open>str.lower()\<close> on the ASCII letters.\<close>

definition ascii_lower :: "pystr \<Rightarrow> pystr" where
  "ascii_lower s = map (\<lambda>c. if 65 \<le> c \<and> c \<le> 90 then c + 32 else c) s"

text \<open>\<open>str.split()\<close> with no argument: maximal runs of non-space characters.\<close>

fun split_ws_acc :: "pystr \<Rightarrow> pystr \<Rightarrow> pystr list" where
  "split_ws_acc cur [] = (if cur = [] then [] else [rev cur])"
| "split_ws_acc cur (c # cs) =
     (if py_isspace c
      then (if cur = [] then split_ws_acc [] cs else rev cur # split_ws_acc [] cs)
      else split_ws_acc (c # cur) cs)"

definition py_split_ws :: "pystr \<Rightarrow> pystr list" where
  "py_split_ws s = split_ws_acc [] s"

text \<open>\<open>str.split(sep)\<close> for a one-character separator.\<close>

fun py_split_on :: "nat \<Rightarrow> pystr \<Rightarrow> pystr list" where
  "py_split_on d [] = [[]]"
| "py_split_on d (c # cs) =
     (if c = d then [] # py_split_on d cs
      else (case py_split_on d cs of [] \<Rightarrow> [[c]] | w # ws \<Rightarrow> (c # w) # ws))"

text \<open>\<open>sep.join(parts)\<close>.\<close>

fun py_join :: "pystr \<Rightarrow> pystr list \<Rightarrow> pystr" where
  "py_join sep [] = []"
| "py_join sep [w] = w"
| "py_join sep (w # v # ws) = w @ sep @ py_join sep (v # ws)"

text \<open>\<open>s.find(sub, start)\<close>; \<open>None\<close> stands for -1.\<close>

fun find_pos :: "'a list \<Rightarrow> 'a list \<Rightarrow> nat option" where
  "find_pos sub [] = (if sub = [] then Some 0 else None)"
| "find_pos sub (c # cs) =
     (if prefix sub (c # cs) then Some 0 else map_option Suc (find_pos sub cs))"

definition py_find :: "'a list \<Rightarrow> 'a list \<Rightarrow> nat \<Rightarrow> nat option" where
  "py_find s sub start =
     (if start \<le> length s then map_option ((+) start) (find_pos sub (drop start s)) else None)"

text \<open>The \<open>in\<close> operator on strings and \<open>s[a:b]\<close> for \<open>0 \<le> a\<close>.\<close>

definition py_contains :: "'a list \<Rightarrow> 'a list \<Rightarrow> bool" where
  "py_contains sub s \<longleftrightarrow> find_pos sub s \<noteq> None"

definition py_slice :: "'a list \<Rightarrow> nat \<Rightarrow> nat \<Rightarrow> 'a list" where
  "py_slice s a b = take (b - a) (drop a s)"

text \<open>Decimal digits of a natural number, as an f-string prints it.\<close>

fun show_nat :: "nat \<Rightarrow> pystr" where
  "show_nat n = (if n < 10 then [48 + n] else show_nat (n div 10) @ [48 + n mod 10])"

declare show_nat.simps [simp del]

definition show_int :: "int \<Rightarrow> pystr" where
  "show_int i = (if i < 0 then 45 # show_nat (nat (- i)) else show_nat (nat i))"

subsection \<open>Facts about searching\<close>

lemma find_pos_Some:
  "find_pos sub s = Some i \<Longrightarrow> i + length sub \<le> length s \<and> take (length sub) (drop i s) = sub"
proof (induction sub s arbitrary: i rule: find_pos.induct)
  case (1 sub)
  then show ?case by (auto split: if_splits)
next
  case (2 sub c cs)
  show ?case
  proof (cases "prefix sub (c # cs)")
    case True
    then have "length sub \<le> length (c # cs)"
      by (rule prefix_length_le)
    moreover from True have "take (length sub) (c # cs) = sub"
      by (auto simp: prefix_def)
    ultimately show ?thesis using True "2.prems" by simp
  next
    case False
    with 2 show ?thesis by auto
  qed
qed

lemma find_pos_least:
  "take (length sub) (drop j s) = sub \<Longrightarrow> j \<le> length s \<Longrightarrow> \<exists>i \<le> j. find_pos sub s = Some i"
proof (induction s arbitrary: j)
  case Nil
  then show ?case by auto
next
  case (Cons c cs)
  show ?case
  proof (cases j)
    case 0
    with Cons.prems have "prefix sub (c # cs)"
      by (metis drop0 take_is_prefix)
    then show ?thesis by simp
  next
    case (Suc k)
    with Cons.prems obtain i where "i \<le> k" "find_pos sub cs = Some i"
      using Cons.IH [of k] by auto
    then show ?thesis using Suc by auto
  qed
qed

lemma py_find_Some:
  assumes "py_find s sub start = Some i"
  shows "start \<le> i \<and> i + length sub \<le> length s \<and> py_slice s i (i + length sub) = sub"
  using assms
  by (auto simp: py_find_def py_slice_def add.commute dest!: find_pos_Some split: if_splits)

lemma py_find_least:
  assumes "py_slice s j (j + length sub) = sub" "start \<le> j" "j \<le> length s"
  shows "\<exists>i \<le> j. py_find s sub start = Some i"
proof -
  have "take (length sub) (drop (j - start) (drop start s)) = sub"
    using assms by (simp add: py_slice_def)
  moreover have "j - start \<le> length (drop start s)"
    using assms by simp
  ultimately obtain i where "i \<le> j - start" "find_pos sub (drop start s) = Some i"
    using find_pos_least by blast
  then show ?thesis
    using assms by (auto simp: py_find_def)
qed

subsection \<open>Facts about splitting and joining\<close>

lemma py_split_on_nonempty: "py_split_on d s \<noteq> []"
  by (induction s) (auto split: list.splits)

lemma py_split_on_join:
  assumes "ws \<noteq> []" "\<forall>w\<in>set ws. d \<notin> set w"
  shows "py_split_on d (py_join [d] ws) = ws"
proof -
  have single: "d \<notin> set w \<Longrightarrow> py_split_on d w = [w]" for w
    by (induction w) auto
  have app: "d \<notin> set w \<Longrightarrow> py_split_on d (w @ d # r) = w # py_split_on d r" for w r
    by (induction w) auto
  from assms show ?thesis
    by (induction "[d]" ws rule: py_join.induct) (auto simp: single app)
qed

lemma py_contains_middle: "py_contains sub (a @ sub @ b)"
  using find_pos_least [of sub "length a" "a @ sub @ b"] by (auto simp: py_contains_def)

lemma split_on_part: "w \<in> set (py_split_on d s) \<Longrightarrow> d \<notin> set w \<and> (\<exists>a b. s = a @ w @ b)"
proof (induction d s arbitrary: w rule: py_split_on.induct)
  case (2 d c cs)
  show ?case
  proof (cases "c = d")
    case True
    with "2.prems" consider "w = []" | "w \<in> set (py_split_on d cs)" by auto
    then show ?thesis
    proof cases
      case 1
      then show ?thesis by (intro conjI exI [of _ "[]"] exI [of _ "c # cs"]) simp_all
    next
      case 2
      from "2.IH"(1) [OF True 2] obtain x y where "d \<notin> set w" "cs = x @ w @ y" by blast
      then have "c # cs = (c # x) @ w @ y" by simp
      with \<open>d \<notin> set w\<close> show ?thesis by blast
    qed
  next
    case False
    obtain v ws where split: "py_split_on d cs = v # ws" using py_split_on_nonempty [of d cs] by (cases "py_split_on d cs") auto
    have "v = takeWhile (\<lambda>x. x \<noteq> d) cs"
      using split
    proof (induction cs arbitrary: v ws)
      case (Cons x xs)
      then show ?case using py_split_on_nonempty [of d xs] by (cases "x = d") (auto split: list.splits)
    qed simp
    then obtain b where b: "cs = v @ b" by (metis takeWhile_dropWhile_id)
    from "2.prems" False split consider "w = c # v" | "w \<in> set ws" by auto
    then show ?thesis
    proof cases
      case 1
      have "d \<notin> set v" using "2.IH"(2) [OF False, of v] split by simp
      moreover have "c # cs = [] @ w @ b" using 1 b by simp
      ultimately show ?thesis using 1 False by auto
    next
      case 2
      from "2.IH"(2) [OF False, of w] 2 split obtain x y where "d \<notin> set w" "cs = x @ w @ y" by auto
      then have "c # cs = (c # x) @ w @ y" by simp
      with \<open>d \<notin> set w\<close> show ?thesis by blast
    qed
  qed
qed simp

section \<open>Errors\<close>

text \<open>A computation that may raise: \<open>Inl\<close> holds the exception.\<close>

definition bind_res :: "'e + 'a \<Rightarrow> ('a \<Rightarrow> 'e + 'b) \<Rightarrow> 'e + 'b" where
  "bind_res r f = (case r of Inl e \<Rightarrow> Inl e | Inr x \<Rightarrow> f x)"

lemma bind_res_simps [simp]:
  "bind_res (Inl e) f = Inl e"
  "bind_res (Inr x) f = f x"
  by (simp_all add: bind_res_def)

lemma bind_res_Inr: "bind_res r f = Inr y \<longleftrightarrow> (\<exists>x. r = Inr x \<and> f x = Inr y)"
  by (cases r) auto

fun map_res :: "('a \<Rightarrow> 'e + 'b) \<Rightarrow> 'a list \<Rightarrow> 'e + 'b list" where
  "map_res f [] = Inr []"
| "map_res f (x # xs) = bind_res (f x) (\<lambda>y. bind_res (map_res f xs) (\<lambda>ys. Inr (y # ys)))"

lemma bind_res_Inl: "bind_res r f = Inl e \<longleftrightarrow> r = Inl e \<or> (\<exists>x. r = Inr x \<and> f x = Inl e)"
  by (cases r) auto

lemma map_res_InlD: "map_res f xs = Inl e \<Longrightarrow> \<exists>x\<in>set xs. f x = Inl e"
  by (induction xs) (auto simp: bind_res_Inl)

lemma map_res_InrD: "map_res f xs = Inr ys \<Longrightarrow> list_all2 (\<lambda>x y. f x = Inr y) xs ys"
  by (induction xs arbitrary: ys) (auto simp: bind_res_Inr)

lemma map_res_Inr: "(\<And>x. x \<in> set xs \<Longrightarrow> f x = Inr (g x)) \<Longrightarrow> map_res f xs = Inr (map g xs)"
  by (induction xs) auto

section \<open>First-seen de-duplication\<close>

text \<open>
  The loop \<open>if x not in seen: seen.add(x); unique.append(x)\<close>; also \<open>list(dict.fromkeys(xs))\<close>.
\<close>

fun uniq_acc :: "'a list \<Rightarrow> 'a list \<Rightarrow> 'a list" where
  "uniq_acc acc [] = acc"
| "uniq_acc acc (x # xs) = (if x \<in> set acc then uniq_acc acc xs else uniq_acc (acc @ [x]) xs)"

definition uniq :: "'a list \<Rightarrow> 'a list" where
  "uniq xs = uniq_acc [] xs"

lemma set_uniq_acc: "set (uniq_acc acc xs) = set acc \<union> set xs"
  by (induction acc xs rule: uniq_acc.induct) auto

lemma distinct_uniq_acc: "distinct acc \<Longrightarrow> distinct (uniq_acc acc xs)"
  by (induction acc xs rule: uniq_acc.induct) auto

lemma set_uniq [simp]: "set (uniq xs) = set xs"
  by (simp add: uniq_def set_uniq_acc)

lemma distinct_uniq [simp]: "distinct (uniq xs)"
  by (simp add: uniq_def distinct_uniq_acc)

lemma uniq_Nil_iff [simp]: "uniq xs = [] \<longleftrightarrow> xs = []"
  by (metis set_uniq set_empty)

lemma uniq_acc_distinct: "distinct (acc @ xs) \<Longrightarrow> uniq_acc acc xs = acc @ xs"
  by (induction acc xs rule: uniq_acc.induct) auto

lemma uniq_distinct: "distinct xs \<Longrightarrow> uniq xs = xs"
  by (simp add: uniq_def uniq_acc_distinct)

section \<open>Insertion-ordered dictionaries\<close>

text \<open>
  A Python \<open>dict\<close> whose iteration order matters: \<open>d[k] = v\<close> overwrites in place or appends.
\<close>

fun dict_set :: "'k \<Rightarrow> 'v \<Rightarrow> ('k \<times> 'v) list \<Rightarrow> ('k \<times> 'v) list" where
  "dict_set k v [] = [(k, v)]"
| "dict_set k v ((k', v') # d) = (if k = k' then (k, v) # d else (k', v') # dict_set k v d)"

text \<open>The interface its clients rely on.\<close>

locale ordered_dict =
  fixes empty :: "'d"
    and upd :: "'k \<Rightarrow> 'v \<Rightarrow> 'd \<Rightarrow> 'd"
    and look :: "'d \<Rightarrow> 'k \<Rightarrow> 'v option"
    and ks :: "'d \<Rightarrow> 'k list"
  assumes look_empty: "look empty k = None"
    and look_upd: "look (upd k v d) k' = (if k' = k then Some v else look d k')"
    and ks_empty: "ks empty = []"
    and ks_upd: "ks (upd k v d) = (if k \<in> set (ks d) then ks d else ks d @ [k])"
    and ks_look: "k \<in> set (ks d) \<longleftrightarrow> look d k \<noteq> None"
begin

text \<open>A fold of updates over a list of keys: what counters and indexes of the code do.\<close>

definition fold_upd :: "('x \<Rightarrow> 'k) \<Rightarrow> ('x \<Rightarrow> 'v option \<Rightarrow> 'v) \<Rightarrow> 'x list \<Rightarrow> 'd \<Rightarrow> 'd" where
  "fold_upd key new xs d = foldl (\<lambda>d x. upd (key x) (new x (look d (key x))) d) d xs"

lemma ks_fold_upd:
  "set (ks (fold_upd key new xs d)) = set (ks d) \<union> key ` set xs"
  by (induction xs arbitrary: d) (auto simp: fold_upd_def ks_upd)

lemma distinct_ks_fold_upd:
  "distinct (ks d) \<Longrightarrow> distinct (ks (fold_upd key new xs d))"
  by (induction xs arbitrary: d) (auto simp: fold_upd_def ks_upd)

lemma look_fold_upd:
  "look (fold_upd key new xs d) k =
     fold (\<lambda>x r. if key x = k then Some (new x r) else r) xs (look d k)"
  by (induction xs arbitrary: d) (auto simp: fold_upd_def look_upd)

lemma fold_upd_Nil [simp]: "fold_upd key new [] d = d"
  by (simp add: fold_upd_def)

lemma fold_upd_Cons [simp]:
  "fold_upd key new (x # xs) d = fold_upd key new xs (upd (key x) (new x (look d (key x))) d)"
  by (simp add: fold_upd_def)

end

lemma map_of_dict_set [simp, dict_simps]:
  "map_of (dict_set k v d) k' = (if k' = k then Some v else map_of d k')"
  by (induction k v d rule: dict_set.induct) auto

lemma keys_dict_set [simp, dict_simps]:
  "map fst (dict_set k v d) = (if k \<in> fst ` set d then map fst d else map fst d @ [k])"
  by (induction k v d rule: dict_set.induct) auto

interpretation pydict: ordered_dict "[]" dict_set map_of "map fst"
  by unfold_locales (auto simp: map_of_eq_None_iff)

lemma map_of_in_set_distinct:
  "distinct (map fst d) \<Longrightarrow> (k, v) \<in> set d \<longleftrightarrow> map_of d k = Some v"
  by (metis map_of_is_SomeI map_of_SomeD)

section \<open>Small facts used by several components\<close>

lemma find_SomeD: "find P xs = Some x \<Longrightarrow> P x \<and> x \<in> set xs"
  by (auto simp: find_Some_iff)

lemma find_NoneD: "find P xs = None \<Longrightarrow> y \<in> set xs \<Longrightarrow> \<not> P y"
  by (auto simp: find_None_iff)

lemma find_append_None: "find P xs = None \<Longrightarrow> find P (xs @ [x]) = (if P x then Some x else None)"
  by (induction xs) (auto split: if_splits)

end
