(* ===== verification/PyTime.thy ===== *)
theory PyTime
  imports Prelude
begin

text \<open>
  The parts of \<open>datetime\<close> the program uses: calendar fields with an optional UTC offset,
  comparison by instant, truncation to the minute and \<open>isoformat\<close>.  The offset is kept in
  microseconds; \<open>None\<close> is a naive value.
\<close>

record datetime =
  dt_year :: int
  dt_month :: int
  dt_day :: int
  dt_hour :: int
  dt_minute :: int
  dt_second :: int
  dt_micro :: int
  dt_offset :: "int option"

section \<open>The proleptic Gregorian calendar\<close>

definition is_leap :: "int \<Rightarrow> bool" where
  "is_leap y \<longleftrightarrow> y mod 4 = 0 \<and> (y mod 100 \<noteq> 0 \<or> y mod 400 = 0)"

definition days_before_year :: "int \<Rightarrow> int" where
  "days_before_year y = (y - 1) * 365 + (y - 1) div 4 - (y - 1) div 100 + (y - 1) div 400"

definition days_in_month :: "int \<Rightarrow> int \<Rightarrow> int" where
  "days_in_month y m =
     (if m = 2 then (if is_leap y then 29 else 28)
      else if m = 4 \<or> m = 6 \<or> m = 9 \<or> m = 11 then 30 else 31)"

definition days_before_month :: "int \<Rightarrow> int \<Rightarrow> int" where
  "days_before_month y m =
     (if m \<le> 1 then 0 else if m = 2 then 31
      else (if m = 3 then 59 else if m = 4 then 90 else if m = 5 then 120 else if m = 6 then 151
            else if m = 7 then 181 else if m = 8 then 212 else if m = 9 then 243
            else if m = 10 then 273 else if m = 11 then 304 else 334)
           + (if is_leap y then 1 else 0))"

definition ymd2ord :: "int \<Rightarrow> int \<Rightarrow> int \<Rightarrow> int" where
  "ymd2ord y m d = days_before_year y + days_before_month y m + d"

definition valid_datetime :: "datetime \<Rightarrow> bool" where
  "valid_datetime t \<longleftrightarrow>
     1 \<le> dt_year t \<and> dt_year t \<le> 9999 \<and> 1 \<le> dt_month t \<and> dt_month t \<le> 12 \<and>
     1 \<le> dt_day t \<and> dt_day t \<le> days_in_month (dt_year t) (dt_month t) \<and>
     0 \<le> dt_hour t \<and> dt_hour t \<le> 23 \<and> 0 \<le> dt_minute t \<and> dt_minute t \<le> 59 \<and>
     0 \<le> dt_second t \<and> dt_second t \<le> 59 \<and> 0 \<le> dt_micro t \<and> dt_micro t \<le> 999999"

text \<open>Whole minutes, and microseconds, since the calendar's epoch in the value's own zone.\<close>

definition local_minutes :: "datetime \<Rightarrow> int" where
  "local_minutes t =
     (ymd2ord (dt_year t) (dt_month t) (dt_day t) * 24 + dt_hour t) * 60 + dt_minute t"

definition local_micros :: "datetime \<Rightarrow> int" where
  "local_micros t = (local_minutes t * 60 + dt_second t) * 1000000 + dt_micro t"

definition dt_aware :: "datetime \<Rightarrow> bool" where
  "dt_aware t \<longleftrightarrow> dt_offset t \<noteq> None"

definition instant :: "datetime \<Rightarrow> int" where
  "instant t = local_micros t - (case dt_offset t of None \<Rightarrow> 0 | Some off \<Rightarrow> off)"

text \<open>
  \<open>==\<close> compares instants, and is false between a naive and an aware value; the order raises
  \<open>TypeError\<close> there.
\<close>

definition dt_eq :: "datetime \<Rightarrow> datetime \<Rightarrow> bool" where
  "dt_eq a b \<longleftrightarrow> dt_aware a = dt_aware b \<and> instant a = instant b"

definition opt_dt_eq :: "datetime option \<Rightarrow> datetime option \<Rightarrow> bool" where
  "opt_dt_eq a b =
     (case (a, b) of (None, None) \<Rightarrow> True | (Some x, Some y) \<Rightarrow> dt_eq x y | _ \<Rightarrow> False)"

datatype type_error = TypeError

definition dt_le :: "datetime \<Rightarrow> datetime \<Rightarrow> type_error + bool" where
  "dt_le a b = (if dt_aware a = dt_aware b then Inr (instant a \<le> instant b) else Inl TypeError)"

text \<open>\<open>t.replace(tzinfo=UTC)\<close> and \<open>t.replace(second=0, microsecond=0)\<close>.\<close>

definition replace_utc :: "datetime \<Rightarrow> datetime" where
  "replace_utc t = t\<lparr>dt_offset := Some 0\<rparr>"

definition floor_minute :: "datetime \<Rightarrow> datetime" where
  "floor_minute t = t\<lparr>dt_second := 0, dt_micro := 0\<rparr>"

section \<open>Printing\<close>

fun digits_acc :: "nat \<Rightarrow> nat \<Rightarrow> pystr \<Rightarrow> pystr" where
  "digits_acc 0 n acc = acc"
| "digits_acc (Suc w) n acc = digits_acc w (n div 10) ((48 + n mod 10) # acc)"

text \<open>\<open>'%0wd' % n\<close> for a number that fits \<open>w\<close> digits.\<close>

definition pad :: "nat \<Rightarrow> int \<Rightarrow> pystr" where
  "pad w n = digits_acc w (nat n) []"

definition iso_offset :: "int \<Rightarrow> pystr" where
  "iso_offset off =
     (let a = \<bar>off\<bar>; s = a div 1000000; us = a mod 1000000
      in (if off < 0 then u ''-'' else u ''+'') @ pad 2 (s div 3600) @ u '':'' @
         pad 2 (s div 60 mod 60) @
         (if s mod 60 \<noteq> 0 \<or> us \<noteq> 0 then u '':'' @ pad 2 (s mod 60) else []) @
         (if us \<noteq> 0 then u ''.'' @ pad 6 us else []))"

definition isoformat :: "datetime \<Rightarrow> pystr" where
  "isoformat t =
     pad 4 (dt_year t) @ u ''-'' @ pad 2 (dt_month t) @ u ''-'' @ pad 2 (dt_day t) @ u ''T'' @
     pad 2 (dt_hour t) @ u '':'' @ pad 2 (dt_minute t) @ u '':'' @ pad 2 (dt_second t) @
     (if dt_micro t \<noteq> 0 then u ''.'' @ pad 6 (dt_micro t) else []) @
     (case dt_offset t of None \<Rightarrow> [] | Some off \<Rightarrow> iso_offset off)"

section \<open>Facts\<close>

lemma days_before_year_Suc:
  "days_before_year (y + 1) = days_before_year y + (if is_leap y then 366 else 365)"
proof -
  have d: "y div k = (y - 1) div k + (if y mod k = 0 then 1 else 0)" if "k > 0" for k :: int
  proof (cases "y mod k = 0")
    case True
    then obtain q where q: "y = k * q" by (auto simp: mod_eq_0_iff_dvd)
    have "(k * q - 1) div k = q - 1"
      using that by (intro int_div_pos_eq [where r = "k - 1"]) (auto simp: algebra_simps)
    with q that True show ?thesis by simp
  next
    case False
    have "y = k * (y div k) + y mod k" by simp
    moreover have "0 < y mod k" "y mod k < k" using False that
      by (auto simp: order.not_eq_order_implies_strict)
    ultimately have "(y - 1) div k = y div k"
      by (intro int_div_pos_eq [where r = "y mod k - 1"]) auto
    with False show ?thesis by simp
  qed
  have count: "y * 365 + q - r + s = ((y - 1) * 365 + q' - r' + s') + (if a \<and> (\<not> b \<or> c) then 366 else 365)"
    if "q = q' + (if a then 1 else 0)" "r = r' + (if b then 1 else 0)" "s = s' + (if c then 1 else 0)"
      "c \<Longrightarrow> b" "b \<Longrightarrow> a" for q q' r r' s s' :: int and a b c
    using that by (cases a; cases b; cases c) simp_all
  have h: "y mod 100 = 0" if "y mod 400 = 0"
  proof -
    from that have "400 dvd y" by (simp add: dvd_eq_mod_eq_0)
    then have "100 dvd y" by (rule dvd_trans [rotated]) simp
    then show ?thesis by (simp add: dvd_eq_mod_eq_0)
  qed
  have f: "y mod 4 = 0" if "y mod 100 = 0"
  proof -
    from that have "100 dvd y" by (simp add: dvd_eq_mod_eq_0)
    then have "4 dvd y" by (rule dvd_trans [rotated]) simp
    then show ?thesis by (simp add: dvd_eq_mod_eq_0)
  qed
  from count [OF d [of 4] d [of 100] d [of 400] h f] show ?thesis
    unfolding days_before_year_def is_leap_def by (simp only: add_diff_cancel_right')
qed

lemma days_before_year_mono: "y \<le> z \<Longrightarrow> days_before_year y \<le> days_before_year z"
proof (induction "nat (z - y)" arbitrary: z)
  case 0
  then show ?case by simp
next
  case (Suc n)
  then have "days_before_year y \<le> days_before_year (z - 1)"
    by simp
  moreover have "days_before_year z = days_before_year (z - 1) + (if is_leap (z - 1) then 366 else 365)"
    using days_before_year_Suc [of "z - 1"] by simp
  ultimately show ?case by (simp split: if_splits)
qed

lemma day_of_year_bounds:
  assumes "1 \<le> m" "m \<le> 12" "1 \<le> d" "d \<le> days_in_month y m"
  shows "1 \<le> days_before_month y m + d"
    and "days_before_month y m + d \<le> (if is_leap y then 366 else 365)"
  using assms by (auto simp: days_before_month_def days_in_month_def split: if_splits)

lemma month_day_inject:
  assumes "1 \<le> m" "m \<le> 12" "1 \<le> d" "d \<le> days_in_month y m"
    and "1 \<le> m'" "m' \<le> 12" "1 \<le> d'" "d' \<le> days_in_month y m'"
    and eq: "days_before_month y m + d = days_before_month y m' + d'"
  shows "m = m' \<and> d = d'"
proof -
  have step: "days_before_month y a + e \<le> days_before_month y b"
    if "a < b" "1 \<le> a" "b \<le> 12" "e \<le> days_in_month y a" for a b e
  proof -
    have "a = 1 \<or> a = 2 \<or> a = 3 \<or> a = 4 \<or> a = 5 \<or> a = 6 \<or> a = 7 \<or> a = 8 \<or> a = 9 \<or> a = 10 \<or> a = 11"
      "b = 2 \<or> b = 3 \<or> b = 4 \<or> b = 5 \<or> b = 6 \<or> b = 7 \<or> b = 8 \<or> b = 9 \<or> b = 10 \<or> b = 11 \<or> b = 12"
      using that(1-3) by presburger+
    then show ?thesis
      using that(1,4)
      by (elim disjE) (simp_all add: days_before_month_def days_in_month_def split: if_splits)
  qed
  have "\<not> m < m'" using step [of m m' d] assms by auto
  moreover have "\<not> m' < m" using step [of m' m d'] assms by auto
  ultimately show ?thesis using eq by auto
qed

lemma ymd2ord_inject:
  assumes "1 \<le> m" "m \<le> 12" "1 \<le> d" "d \<le> days_in_month y m"
    and "1 \<le> m'" "m' \<le> 12" "1 \<le> d'" "d' \<le> days_in_month y' m'"
    and eq: "ymd2ord y m d = ymd2ord y' m' d'"
  shows "y = y' \<and> m = m' \<and> d = d'"
proof -
  have lt: "days_before_year a + days_before_month a k + e < days_before_year b + days_before_month b l + f"
    if "a < b" "1 \<le> k" "k \<le> 12" "1 \<le> e" "e \<le> days_in_month a k"
      "1 \<le> l" "l \<le> 12" "1 \<le> f" "f \<le> days_in_month b l" for a b k l e f
    using day_of_year_bounds(2) [of k e a] day_of_year_bounds(1) [of l f b]
      days_before_year_mono [of "a + 1" b] days_before_year_Suc [of a] that by simp
  have "y = y'"
    using lt [of y y' m d m' d'] lt [of y' y m' d' m d] assms
    by (cases y y' rule: linorder_cases) (auto simp: ymd2ord_def)
  then show ?thesis
    using month_day_inject [of m d y m' d'] assms by (auto simp: ymd2ord_def)
qed

lemma radix_inject:
  fixes a a' r r' b :: int
  assumes "a * b + r = a' * b + r'" "0 \<le> r" "r < b" "0 \<le> r'" "r' < b"
  shows "a = a' \<and> r = r'"
proof -
  have "(a * b + r) div b = a" "(a' * b + r') div b = a'"
    using assms(2-5) by (auto intro!: int_div_pos_eq simp: mult.commute)
  with assms(1) have "a = a'" by simp
  with assms(1) show ?thesis by simp
qed

lemma local_minutes_inject:
  assumes "valid_datetime s" "valid_datetime t" "local_minutes s = local_minutes t"
  shows "dt_year s = dt_year t \<and> dt_month s = dt_month t \<and> dt_day s = dt_day t \<and>
    dt_hour s = dt_hour t \<and> dt_minute s = dt_minute t"
proof -
  let ?o = "\<lambda>t. ymd2ord (dt_year t) (dt_month t) (dt_day t)"
  have ranges: "0 \<le> dt_minute s" "dt_minute s < 60" "0 \<le> dt_minute t" "dt_minute t < 60"
    "0 \<le> dt_hour s" "dt_hour s < 24" "0 \<le> dt_hour t" "dt_hour t < 24"
    using assms by (auto simp: valid_datetime_def)
  have "(?o s * 24 + dt_hour s = ?o t * 24 + dt_hour t) \<and> dt_minute s = dt_minute t"
    using assms(3) ranges by (intro radix_inject [of _ 60]) (auto simp: local_minutes_def)
  moreover from this ranges have "?o s = ?o t \<and> dt_hour s = dt_hour t"
    by (intro radix_inject [of _ 24]) auto
  ultimately have "?o s = ?o t \<and> dt_hour s = dt_hour t \<and> dt_minute s = dt_minute t"
    by simp
  then show ?thesis
    using ymd2ord_inject [of "dt_month s" "dt_day s" "dt_year s" "dt_month t" "dt_day t" "dt_year t"]
      assms by (auto simp: valid_datetime_def)
qed

lemma length_digits_acc [simp]: "length (digits_acc w n acc) = w + length acc"
  by (induction w n acc rule: digits_acc.induct) auto

lemma length_pad [simp]: "length (pad w n) = w"
  by (simp add: pad_def)

lemma digits_acc_inject:
  "digits_acc w m acc = digits_acc w n acc' \<Longrightarrow> length acc = length acc' \<Longrightarrow>
     m < 10 ^ w \<Longrightarrow> n < 10 ^ w \<Longrightarrow> m = n \<and> acc = acc'"
proof (induction w m acc arbitrary: n acc' rule: digits_acc.induct)
  case (1 n acc)
  then show ?case by simp
next
  case (2 w m acc)
  have "m div 10 < 10 ^ w" "n div 10 < 10 ^ w"
    using 2 by (auto simp: div_less_iff_less_mult algebra_simps)
  with 2 have "m div 10 = n div 10 \<and> (48 + m mod 10) # acc = (48 + n mod 10) # acc'"
    by (intro "2.IH") auto
  then show ?case by (metis add_left_cancel list.inject div_mult_mod_eq)
qed

lemma pad_inject:
  "pad w m = pad w n \<Longrightarrow> 0 \<le> m \<Longrightarrow> 0 \<le> n \<Longrightarrow> m < 10 ^ w \<Longrightarrow> n < 10 ^ w \<Longrightarrow> m = n"
proof -
  assume a: "pad w m = pad w n" "0 \<le> m" "0 \<le> n" "m < 10 ^ w" "n < 10 ^ w"
  then have "nat m < 10 ^ w" "nat n < 10 ^ w"
    by (auto simp: nat_less_iff)
  with a have "nat m = nat n"
    by (auto simp: pad_def dest: digits_acc_inject)
  with a show "m = n" by simp
qed

text \<open>Two UTC values print the same minute bucket exactly when they lie in the same minute.\<close>

lemma isoformat_floor_inject:
  assumes "valid_datetime s" "valid_datetime t" "dt_offset s = Some 0" "dt_offset t = Some 0"
  shows "isoformat (floor_minute s) = isoformat (floor_minute t) \<longleftrightarrow> local_minutes s = local_minutes t"
proof
  assume "isoformat (floor_minute s) = isoformat (floor_minute t)"
  with assms(3,4) have "pad 4 (dt_year s) = pad 4 (dt_year t)" "pad 2 (dt_month s) = pad 2 (dt_month t)"
    "pad 2 (dt_day s) = pad 2 (dt_day t)" "pad 2 (dt_hour s) = pad 2 (dt_hour t)"
    "pad 2 (dt_minute s) = pad 2 (dt_minute t)"
    by (simp_all add: isoformat_def floor_minute_def)
  moreover have "0 \<le> dt_year x \<and> dt_year x < 10 ^ 4 \<and> 0 \<le> dt_month x \<and> dt_month x < 10 ^ 2 \<and>
    0 \<le> dt_day x \<and> dt_day x < 10 ^ 2 \<and> 0 \<le> dt_hour x \<and> dt_hour x < 10 ^ 2 \<and>
    0 \<le> dt_minute x \<and> dt_minute x < 10 ^ 2" if "valid_datetime x" for x
    using that by (auto simp: valid_datetime_def days_in_month_def split: if_splits)
  ultimately have "dt_year s = dt_year t" "dt_month s = dt_month t" "dt_day s = dt_day t"
    "dt_hour s = dt_hour t" "dt_minute s = dt_minute t"
    using assms(1,2) by (meson pad_inject)+
  then show "local_minutes s = local_minutes t"
    by (simp add: local_minutes_def)
next
  assume "local_minutes s = local_minutes t"
  with assms local_minutes_inject [of s t]
  show "isoformat (floor_minute s) = isoformat (floor_minute t)"
    by (simp add: isoformat_def floor_minute_def)
qed

lemma instant_minutes:
  assumes "valid_datetime t" "dt_offset t = Some 0"
  shows "instant t div 60000000 = local_minutes t"
proof -
  have "0 \<le> dt_second t * 1000000 + dt_micro t" "dt_second t * 1000000 + dt_micro t < 60000000"
    using assms by (auto simp: valid_datetime_def)
  moreover have "instant t = 60000000 * local_minutes t + (dt_second t * 1000000 + dt_micro t)"
    using assms by (simp add: instant_def local_micros_def)
  ultimately show ?thesis
    by (intro int_div_pos_eq) auto
qed

lemma opt_dt_eq_refl [simp]: "opt_dt_eq t t"
  by (auto simp: opt_dt_eq_def dt_eq_def split: option.splits)

lemma opt_dt_eq_sym: "opt_dt_eq s t = opt_dt_eq t s"
  by (auto simp: opt_dt_eq_def dt_eq_def split: option.splits)

section \<open>Parsing ISO 8601 text\<close>

text \<open>\<open>datetime.fromisoformat\<close> on the extended format that \<open>isoformat\<close> prints.\<close>

definition digit_of :: "nat \<Rightarrow> nat option" where
  "digit_of c = (if 48 \<le> c \<and> c \<le> 57 then Some (c - 48) else None)"

fun read_digits :: "nat \<Rightarrow> nat \<Rightarrow> pystr \<Rightarrow> (nat \<times> pystr) option" where
  "read_digits 0 acc s = Some (acc, s)"
| "read_digits (Suc w) acc [] = None"
| "read_digits (Suc w) acc (c # s) =
     (case digit_of c of None \<Rightarrow> None | Some d \<Rightarrow> read_digits w (10 * acc + d) s)"

text \<open>A fixed-width number, then the given separator.\<close>

definition read_field :: "nat \<Rightarrow> nat \<Rightarrow> pystr \<Rightarrow> (int \<times> pystr) option" where
  "read_field w sep s =
     (case read_digits w 0 s of
        Some (n, c # r) \<Rightarrow> if c = sep then Some (int n, r) else None
      | _ \<Rightarrow> None)"

definition read_last :: "nat \<Rightarrow> pystr \<Rightarrow> (int \<times> pystr) option" where
  "read_last w s = map_option (\<lambda>(n, r). (int n, r)) (read_digits w 0 s)"

text \<open>Seconds, with a fraction when a dot follows.\<close>

definition read_fraction :: "pystr \<Rightarrow> (int \<times> pystr) option" where
  "read_fraction s =
     (case s of
        c # r \<Rightarrow> if c = 46 then read_last 6 r else Some (0, s)
      | [] \<Rightarrow> Some (0, []))"

definition read_offset :: "pystr \<Rightarrow> int option option" where
  "read_offset s =
     (case s of
        [] \<Rightarrow> Some None
      | c # r \<Rightarrow>
          if c \<noteq> 43 \<and> c \<noteq> 45 then None else
          Option.bind (read_field 2 58 r) (\<lambda>(h, r).
          Option.bind (read_last 2 r) (\<lambda>(m, r).
          Option.bind (case r of
              [] \<Rightarrow> Some (0, [])
            | d # r' \<Rightarrow> if d = 58 then read_last 2 r' else None) (\<lambda>(sec, r).
          Option.bind (read_fraction r) (\<lambda>(us, r).
            if r \<noteq> [] then None
            else (let v = ((h * 60 + m) * 60 + sec) * 1000000 + us
                  in Some (Some (if c = 45 then - v else v))))))))"

definition fromisoformat :: "pystr \<Rightarrow> datetime option" where
  "fromisoformat s =
     Option.bind (read_field 4 45 s) (\<lambda>(y, s).
     Option.bind (read_field 2 45 s) (\<lambda>(mo, s).
     Option.bind (read_field 2 84 s) (\<lambda>(d, s).
     Option.bind (read_field 2 58 s) (\<lambda>(h, s).
     Option.bind (read_field 2 58 s) (\<lambda>(mi, s).
     Option.bind (read_last 2 s) (\<lambda>(sec, s).
     Option.bind (read_fraction s) (\<lambda>(us, s).
     Option.bind (read_offset s) (\<lambda>off.
       (let t = \<lparr>dt_year = y, dt_month = mo, dt_day = d, dt_hour = h, dt_minute = mi,
                 dt_second = sec, dt_micro = us, dt_offset = off\<rparr>
        in if valid_datetime t then Some t else None)))))))))"

lemma read_digits_acc:
  "n < 10 ^ w \<Longrightarrow> read_digits w a (digits_acc w n r) = Some (a * 10 ^ w + n, r)"
proof (induction w n r arbitrary: a rule: digits_acc.induct)
  case (1 n acc)
  then show ?case by simp
next
  case (2 w n acc)
  have step: "read_digits (Suc w) a s = (case read_digits w a s of
      Some (v, c # t) \<Rightarrow> map_option (\<lambda>d. (10 * v + d, t)) (digit_of c) | _ \<Rightarrow> None)" for a s
    by (induction w a s rule: read_digits.induct) (auto split: option.splits list.splits)
  have "n div 10 < 10 ^ w" using "2.prems" by (simp add: div_less_iff_less_mult algebra_simps)
  from "2.IH" [OF this, of a] show ?case
    by (simp add: step digit_of_def algebra_simps del: read_digits.simps)
qed

lemma read_pad: "0 \<le> n \<Longrightarrow> n < 10 ^ w \<Longrightarrow> read_digits w 0 (pad w n @ r) = Some (nat n, r)"
proof -
  assume "0 \<le> n" "n < 10 ^ w"
  moreover have "digits_acc w m acc @ r = digits_acc w m (acc @ r)" for m acc
    by (induction w m acc rule: digits_acc.induct) auto
  ultimately show ?thesis
    using read_digits_acc [of "nat n" w 0 r] by (simp add: pad_def nat_less_iff)
qed

lemma read_field_pad [simp]:
  "0 \<le> n \<Longrightarrow> n < 10 ^ w \<Longrightarrow> read_field w c (pad w n @ c # r) = Some (n, r)"
  by (simp add: read_field_def read_pad)

lemma read_last_pad [simp]: "0 \<le> n \<Longrightarrow> n < 10 ^ w \<Longrightarrow> read_last w (pad w n @ r) = Some (n, r)"
  by (simp add: read_last_def read_pad)

lemma minutes_seconds: "(s div 3600 * 60 + s div 60 mod 60) * 60 + s mod 60 = (s :: int)"
proof -
  have "s div 3600 = s div 60 div 60" by (simp add: zdiv_zmult2_eq [symmetric])
  then show ?thesis by (simp add: algebra_simps) 
qed

lemma read_offset_iso:
  assumes "- 86400000000 < off" "off < 86400000000"
  shows "read_offset (iso_offset off) = Some (Some off)"
proof -
  define a where "a = \<bar>off\<bar>"
  define s where "s = a div 1000000"
  define us where "us = a mod 1000000"
  have us: "0 \<le> us" "us < 10 ^ 6" by (simp_all add: us_def)
  have s: "0 \<le> s" "s < 86400" using assms by (auto simp: s_def a_def)
  define h where "h = s div 3600"
  define m where "m = s div 60 mod 60"
  define c where "c = s mod 60"
  have h: "0 \<le> h" "h < 10 ^ 2" using s by (auto simp: h_def)
  have m: "0 \<le> m" "m < 10 ^ 2" by (auto simp: m_def intro: less_trans [OF pos_mod_bound])
  have c: "0 \<le> c" "c < 10 ^ 2" by (auto simp: c_def intro: less_trans [OF pos_mod_bound])
  have total: "((h * 60 + m) * 60 + c) * 1000000 + us = a"
    unfolding h_def m_def c_def minutes_seconds s_def us_def by simp
  have shape: "iso_offset off = (if off < 0 then 45 else 43) # pad 2 h @ 58 # pad 2 m @
      (if c \<noteq> 0 \<or> us \<noteq> 0 then 58 # pad 2 c @ (if us \<noteq> 0 then 46 # pad 6 us else []) else [])"
    by (simp add: iso_offset_def Let_def flip: a_def s_def us_def h_def m_def c_def)
  have last: "read_last w (pad w n) = Some (n, [])" if "0 \<le> n" "n < 10 ^ w" for w n
    using read_last_pad [OF that, of "[]"] by simp
  have "Some (Some (if off < 0 then - a else a)) = Some (Some off)"
    by (simp add: a_def)
  then show ?thesis
    unfolding shape read_offset_def
    using h m c us total
    by (auto simp: last read_fraction_def Let_def)
qed

text \<open>Printing and parsing a datetime.\<close>

lemma fromisoformat_isoformat:
  assumes "valid_datetime t"
    and "case dt_offset t of None \<Rightarrow> True | Some off \<Rightarrow> - 86400000000 < off \<and> off < 86400000000"
  shows "fromisoformat (isoformat t) = Some t"
proof -
  have b: "0 \<le> dt_year t" "dt_year t < 10 ^ 4" "0 \<le> dt_month t" "dt_month t < 10 ^ 2"
    "0 \<le> dt_day t" "dt_day t < 10 ^ 2" "0 \<le> dt_hour t" "dt_hour t < 10 ^ 2"
    "0 \<le> dt_minute t" "dt_minute t < 10 ^ 2" "0 \<le> dt_second t" "dt_second t < 10 ^ 2"
    "0 \<le> dt_micro t" "dt_micro t < 10 ^ 6"
    using assms(1) by (auto simp: valid_datetime_def days_in_month_def split: if_splits)
  define off where "off = (case dt_offset t of None \<Rightarrow> [] | Some off \<Rightarrow> iso_offset off)"
  have off: "read_offset off = Some (dt_offset t)"
    using assms(2) by (cases "dt_offset t") (simp_all add: off_def read_offset_iso read_offset_def [of "[]"])
  have head: "off = [] \<or> (\<exists>c r. off = c # r \<and> c \<noteq> 46)"
    by (auto simp: off_def iso_offset_def Let_def split: option.splits)
  have shape: "isoformat t = pad 4 (dt_year t) @ 45 # pad 2 (dt_month t) @ 45 # pad 2 (dt_day t) @ 84 #
      pad 2 (dt_hour t) @ 58 # pad 2 (dt_minute t) @ 58 # pad 2 (dt_second t) @
      (if dt_micro t \<noteq> 0 then 46 # pad 6 (dt_micro t) else []) @ off"
    by (simp add: isoformat_def off_def)
  have frac: "read_fraction ((if dt_micro t \<noteq> 0 then 46 # pad 6 (dt_micro t) else []) @ off) =
      Some (dt_micro t, off)"
    using head b by (auto simp: read_fraction_def)
  have whole: "\<lparr>dt_year = dt_year t, dt_month = dt_month t, dt_day = dt_day t, dt_hour = dt_hour t,
      dt_minute = dt_minute t, dt_second = dt_second t, dt_micro = dt_micro t, dt_offset = dt_offset t\<rparr> = t"
    by simp
  show ?thesis
    unfolding fromisoformat_def shape using b assms(1) by (simp add: frac off Let_def whole)
qed

end
