(* ===== verification/Domain.thy ===== *)
theory Domain
  imports PyTime
begin

text \<open>
  The frozen domain contracts of \<open>bidscope/domain\<close>: enumerations, error codes, money,
  search intents, notices, evidence, reports, run events and the provenance rule.  A model
  validator of the source is a function into an error sum; the error's constructor stands
  for the message text.
\<close>

section \<open>Enumerations (enums.py, types.py)\<close>

datatype SourceName = CCGP | GGZY | SYNTHETIC_DEMO

datatype CaptureKind = RAW_RESPONSE | CURATED_PUBLIC_EXCERPT | SYNTHETIC_DEMO

datatype RunStatus =
    PENDING | PARSE_INTENT | VALIDATE_INTENT | AWAITING_CONFIRMATION | CONFIRM_INTENT
  | BUILD_RETRIEVAL_PLAN | RETRIEVE_CANDIDATES | CANDIDATES_RESOLVED | RESOLVE_DUPLICATES
  | VERIFY_EVIDENCE | SYNTHESIZE_REPORT | VALIDATE_REPORT | PERSIST_AND_DELIVER | COMPLETED
  | FAILED | RETRYABLE | EVIDENCE_INSUFFICIENT

datatype InboxEventType = NEW_NOTICE | MATERIAL_CHANGE | SOURCE_COMPLETENESS_WARNING | RUN_FAILURE

datatype ClaimSupportStatus = SUPPORTED | UNSUPPORTED | UNCERTAIN

datatype BidScopeErrorCode =
    SNAPSHOT_INTEGRITY_ERROR | SNAPSHOT_STALE | PARSE_DRIFT | INTENT_INVALID | RETRIEVAL_EMPTY
  | EVIDENCE_INSUFFICIENT_ERROR | MODEL_TRANSIENT_ERROR | DELIVERY_ERROR | SNAPSHOT_IMPORT_ERROR
  | GRAPH_NODE_ERROR

section \<open>Records (notices.py, intents.py, reports.py, runs.py)\<close>

record Money =
  minor_units :: int
  currency :: pystr
  raw_text :: "pystr option"

record RunSchedule =
  cron_expression :: pystr
  sched_timezone :: pystr

record SearchIntent =
  topics :: "pystr list"
  expanded_terms :: "pystr list"
  regions :: "pystr list"
  published_from :: "datetime option"
  published_to :: "datetime option"
  min_budget :: "Money option"
  max_budget :: "Money option"
  schedule :: "RunSchedule option"
  confidence :: rat
  assumptions :: "pystr list"

text \<open>Decoded JSON, as \<open>json.loads\<close> returns it; an object is its dictionary in insertion order.\<close>

datatype jvalue =
    JNull | JBool bool | JInt int | JFloat rat | JString pystr | JArray "jvalue list"
  | JObject "(pystr \<times> jvalue) list"

type_synonym jobject = "(pystr \<times> jvalue) list"

text \<open>A parsed \<open>HttpUrl\<close>: its normalised text and the parts the validators look at.\<close>

record HttpUrl =
  hu_text :: pystr
  hu_scheme :: pystr
  hu_host :: "pystr option"
  hu_port :: "int option"
  hu_username :: "pystr option"
  hu_password :: "pystr option"
  hu_query :: "pystr option"
  hu_fragment :: "pystr option"

record NormalizedNotice =
  nn_source :: SourceName
  nn_external_id :: pystr
  nn_source_url :: HttpUrl
  nn_capture_kind :: CaptureKind
  nn_title :: "pystr option"
  nn_purchaser :: "pystr option"
  nn_region :: "pystr option"
  nn_publish_time :: "datetime option"
  nn_deadline :: "datetime option"
  nn_budget :: "Money option"
  nn_summary :: "pystr option"
  nn_cancellation :: bool
  nn_parser_version :: pystr
  nn_raw_fields :: jobject

record NoticeEvidence =
  notice_version_id :: pystr
  ev_text :: pystr
  ev_start :: int
  ev_end :: int
  span_hash :: pystr

record ReportCitation =
  cit_evidence_id :: pystr
  cit_label :: "pystr option"

record ReportClaim =
  claim_text :: pystr
  citation_ids :: "pystr list"
  support_status :: "ClaimSupportStatus option"

record ReportItem =
  item_notice_id :: pystr
  item_title :: pystr
  known_fields :: "(pystr \<times> pystr) list"
  unknown_fields :: "pystr list"
  relevance_reason :: "pystr option"
  risk_note :: "pystr option"
  item_citations :: "ReportCitation list"
  item_claims :: "ReportClaim list"

record Report =
  rep_run_id :: pystr
  generated_at :: datetime
  query_conditions :: "(pystr \<times> pystr) list"
  freshness_window :: "pystr option"
  source_availability :: "pystr list"
  completeness_warning :: "pystr option"
  rep_items :: "ReportItem list"

text \<open>
  Event and error details are small flat dictionaries; their values are kept as strings.  Node,
  event and status names come from a closed ASCII vocabulary.
\<close>

record RunEvent =
  re_node :: string
  re_event :: string
  re_status :: string
  re_timestamp :: datetime
  re_message :: "pystr option"
  re_details :: "(string \<times> pystr) list"

record SerializableError =
  err_code :: BidScopeErrorCode
  err_message :: pystr
  err_details :: "(string \<times> pystr) list"

section \<open>Construction checks\<close>

datatype validation_error =
    Naive_published_from | Naive_published_to | Inverted_dates | Inverted_budget
  | Confidence_out_of_range | Claim_without_citation | Duplicate_citation_ids
  | Negative_offset | Naive_datetime

text \<open>\<open>_require_tz_aware\<close>.\<close>

definition require_tz_aware :: "datetime \<Rightarrow> validation_error + datetime" where
  "require_tz_aware t = (if dt_aware t then Inr t else Inl Naive_datetime)"

text \<open>
  The field bound and the three \<open>model_validator\<close>s of \<open>SearchIntent\<close>, in declaration order.
  The awareness check comes first, so the later date comparison cannot raise.
\<close>

definition require_timezone_aware_timestamps :: "SearchIntent \<Rightarrow> validation_error + SearchIntent" where
  "require_timezone_aware_timestamps i =
     (case published_from i of
        Some f \<Rightarrow> if \<not> dt_aware f then Inl Naive_published_from else
          (case published_to i of
             Some t \<Rightarrow> if \<not> dt_aware t then Inl Naive_published_to else Inr i
           | None \<Rightarrow> Inr i)
      | None \<Rightarrow>
          (case published_to i of
             Some t \<Rightarrow> if \<not> dt_aware t then Inl Naive_published_to else Inr i
           | None \<Rightarrow> Inr i))"

definition dates_inverted :: "SearchIntent \<Rightarrow> bool" where
  "dates_inverted i =
     (case (published_from i, published_to i) of
        (Some f, Some t) \<Rightarrow> instant t < instant f
      | _ \<Rightarrow> False)"

definition validate_date_range :: "SearchIntent \<Rightarrow> validation_error + SearchIntent" where
  "validate_date_range i = (if dates_inverted i then Inl Inverted_dates else Inr i)"

definition budget_inverted :: "SearchIntent \<Rightarrow> bool" where
  "budget_inverted i =
     (case (min_budget i, max_budget i) of
        (Some a, Some b) \<Rightarrow> minor_units b < minor_units a
      | _ \<Rightarrow> False)"

definition validate_budget_range :: "SearchIntent \<Rightarrow> validation_error + SearchIntent" where
  "validate_budget_range i = (if budget_inverted i then Inl Inverted_budget else Inr i)"

definition make_search_intent :: "SearchIntent \<Rightarrow> validation_error + SearchIntent" where
  "make_search_intent i =
     (if confidence i < 0 \<or> 1 < confidence i then Inl Confidence_out_of_range
      else bind_res (require_timezone_aware_timestamps i)
             (\<lambda>i. bind_res (validate_date_range i) validate_budget_range))"

text \<open>\<open>ReportClaim._require_citations\<close>; \<open>NoticeEvidence\<close>'s field bounds.\<close>

definition require_citations :: "ReportClaim \<Rightarrow> validation_error + ReportClaim" where
  "require_citations c =
     (if citation_ids c = [] then Inl Claim_without_citation
      else if \<not> distinct (citation_ids c) then Inl Duplicate_citation_ids
      else Inr c)"

definition make_notice_evidence :: "NoticeEvidence \<Rightarrow> validation_error + NoticeEvidence" where
  "make_notice_evidence e =
     (if ev_start e < 0 \<or> ev_end e < 0 then Inl Negative_offset else Inr e)"

section \<open>Provenance (provenance.py)\<close>

definition OFFICIAL_HOSTS_BY_SOURCE :: "SourceName \<Rightarrow> pystr list option" where
  "OFFICIAL_HOSTS_BY_SOURCE s =
     (case s of
        CCGP \<Rightarrow> Some [u ''www.ccgp.gov.cn'', u ''search.ccgp.gov.cn'']
      | GGZY \<Rightarrow> Some [u ''www.ggzy.gov.cn'']
      | SourceName.SYNTHETIC_DEMO \<Rightarrow> None)"

definition SYNTHETIC_HOST :: pystr where
  "SYNTHETIC_HOST = u ''example.invalid''"

definition synthetic_id_prefix :: pystr where
  "synthetic_id_prefix = u ''demo-''"

datatype provenance_error =
    No_host
  | Synthetic_needs_synthetic_source
  | Synthetic_needs_synthetic_host pystr
  | Synthetic_needs_demo_prefix pystr
  | Official_not_synthetic_source
  | Official_not_synthetic_host pystr
  | Official_needs_official_source SourceName
  | Host_not_of_source SourceName pystr
  | Official_not_demo_prefix pystr

record ProvenanceValidation =
  pv_valid :: bool
  pv_errors :: "provenance_error list"

text \<open>\<open>raise_invalid\<close>: the joined messages are the error list itself.\<close>

definition raise_invalid :: "ProvenanceValidation \<Rightarrow> provenance_error list + unit" where
  "raise_invalid v = (if \<not> pv_valid v then Inl (pv_errors v) else Inr ())"

definition provenance_errors_synthetic :: "SourceName \<Rightarrow> pystr \<Rightarrow> pystr \<Rightarrow> provenance_error list" where
  "provenance_errors_synthetic source host external_id =
     (if source \<noteq> SourceName.SYNTHETIC_DEMO then [Synthetic_needs_synthetic_source] else []) @
     (if host \<noteq> SYNTHETIC_HOST then [Synthetic_needs_synthetic_host host] else []) @
     (if \<not> prefix synthetic_id_prefix external_id then [Synthetic_needs_demo_prefix external_id] else [])"

definition provenance_errors_official :: "SourceName \<Rightarrow> pystr \<Rightarrow> pystr \<Rightarrow> provenance_error list" where
  "provenance_errors_official source host external_id =
     (if source = SourceName.SYNTHETIC_DEMO then [Official_not_synthetic_source] else []) @
     (if host = SYNTHETIC_HOST then [Official_not_synthetic_host host] else []) @
     (case OFFICIAL_HOSTS_BY_SOURCE source of
        None \<Rightarrow> [Official_needs_official_source source]
      | Some allowed \<Rightarrow> if host \<notin> set allowed then [Host_not_of_source source host] else []) @
     (if prefix synthetic_id_prefix external_id then [Official_not_demo_prefix external_id] else [])"

definition validate_provenance ::
  "SourceName \<Rightarrow> CaptureKind \<Rightarrow> pystr option \<Rightarrow> pystr \<Rightarrow> ProvenanceValidation" where
  "validate_provenance source capture_kind host external_id =
     (case host of
        None \<Rightarrow> \<lparr>pv_valid = False, pv_errors = [No_host]\<rparr>
      | Some h \<Rightarrow>
          (let errors =
             (if capture_kind = CaptureKind.SYNTHETIC_DEMO
              then provenance_errors_synthetic source h external_id
              else provenance_errors_official source h external_id)
           in \<lparr>pv_valid = (errors = []), pv_errors = errors\<rparr>))"

text \<open>
  \<open>NormalizedNotice\<close>: its times must be aware, then the provenance validator runs.
\<close>

datatype notice_error = Naive_time | Bad_provenance "provenance_error list"

definition naive :: "datetime option \<Rightarrow> bool" where
  "naive t \<longleftrightarrow> (case t of None \<Rightarrow> False | Some t \<Rightarrow> \<not> dt_aware t)"

definition make_notice :: "NormalizedNotice \<Rightarrow> notice_error + NormalizedNotice" where
  "make_notice n =
     (if naive (nn_publish_time n) \<or> naive (nn_deadline n) then Inl Naive_time
      else (case raise_invalid (validate_provenance (nn_source n) (nn_capture_kind n) (hu_host (nn_source_url n))
              (nn_external_id n)) of
              Inl es \<Rightarrow> Inl (Bad_provenance es)
            | Inr _ \<Rightarrow> Inr n))"

definition allowed_hosts_for :: "SourceName \<Rightarrow> CaptureKind \<Rightarrow> pystr list" where
  "allowed_hosts_for source capture_kind =
     (if capture_kind = CaptureKind.SYNTHETIC_DEMO then [SYNTHETIC_HOST]
      else (case OFFICIAL_HOSTS_BY_SOURCE source of None \<Rightarrow> [] | Some hs \<Rightarrow> hs))"

definition expected_id_prefixes :: "CaptureKind \<Rightarrow> pystr list" where
  "expected_id_prefixes capture_kind =
     (if capture_kind = CaptureKind.SYNTHETIC_DEMO then [synthetic_id_prefix] else [])"

section \<open>Facts\<close>

lemma OFFICIAL_HOSTS_cases:
  "OFFICIAL_HOSTS_BY_SOURCE s = Some hs \<Longrightarrow> h \<in> set hs \<Longrightarrow>
     (s = CCGP \<and> (h = u ''www.ccgp.gov.cn'' \<or> h = u ''search.ccgp.gov.cn'')) \<or>
     (s = GGZY \<and> h = u ''www.ggzy.gov.cn'')"
  by (cases s) (auto simp: OFFICIAL_HOSTS_BY_SOURCE_def simp del: u_Cons)

lemma synthetic_host_not_official:
  "OFFICIAL_HOSTS_BY_SOURCE s = Some hs \<Longrightarrow> SYNTHETIC_HOST \<notin> set hs"
  by (auto dest!: OFFICIAL_HOSTS_cases simp: SYNTHETIC_HOST_def simp del: u_Cons)

text \<open>The provenance rule accepts a notice exactly when it has a host on the allowlist of
  its own source and capture kind, the source kind matches the capture kind, and the external
  id carries the demo prefix precisely for synthetic data.\<close>

theorem validate_provenance_iff:
  "pv_valid (validate_provenance s k host i) \<longleftrightarrow>
     (\<exists>h. host = Some h \<and> h \<in> set (allowed_hosts_for s k) \<and>
        (k = CaptureKind.SYNTHETIC_DEMO \<longleftrightarrow> s = SourceName.SYNTHETIC_DEMO) \<and>
        (k = CaptureKind.SYNTHETIC_DEMO \<longleftrightarrow> prefix synthetic_id_prefix i))"
proof (cases host)
  case None
  then show ?thesis by (simp add: validate_provenance_def)
next
  case (Some h)
  show ?thesis
  proof (cases "k = CaptureKind.SYNTHETIC_DEMO")
    case True
    with Some show ?thesis
      by (auto simp: validate_provenance_def provenance_errors_synthetic_def allowed_hosts_for_def)
  next
    case False
    with Some show ?thesis
      using synthetic_host_not_official [of s]
      by (cases s) (auto simp: validate_provenance_def provenance_errors_official_def
        allowed_hosts_for_def OFFICIAL_HOSTS_BY_SOURCE_def simp del: u_Cons)
  qed
qed

end
