(* ===== verification/Digest.thy ===== *)
theory Digest
  imports Prelude "HOL-Library.Word"
begin

text \<open>
  SHA-256 over UTF-8, as \<open>hashlib\<close> and \<open>str.encode\<close> compute it: evidence-span hashes and the
  advisory-lock keys are defined by it.  Lone surrogates, which \<open>encode\<close> rejects, do not
  occur in the strings of the model.
\<close>

unbundle bit_operations_syntax

type_synonym byte = "8 word"
type_synonym u32 = "32 word"

definition utf8_char :: "nat \<Rightarrow> nat list" where
  "utf8_char c =
     (if c < 128 then [c]
      else if c < 2048 then [192 + c div 64, 128 + c mod 64]
      else if c < 65536 then [224 + c div 4096, 128 + c div 64 mod 64, 128 + c mod 64]
      else [240 + c div 262144, 128 + c div 4096 mod 64, 128 + c div 64 mod 64, 128 + c mod 64])"

definition utf8_encode :: "pystr \<Rightarrow> byte list" where
  "utf8_encode s = map of_nat (concat (map utf8_char s))"

definition sha_K :: "u32 list" where
  "sha_K = [
    1116352408, 1899447441, 3049323471, 3921009573, 961987163, 1508970993, 2453635748,
    2870763221, 3624381080, 310598401, 607225278, 1426881987, 1925078388, 2162078206, 2614888103,
    3248222580, 3835390401, 4022224774, 264347078, 604807628, 770255983, 1249150122, 1555081692,
    1996064986, 2554220882, 2821834349, 2952996808, 3210313671, 3336571891, 3584528711,
    113926993, 338241895, 666307205, 773529912, 1294757372, 1396182291, 1695183700, 1986661051,
    2177026350, 2456956037, 2730485921, 2820302411, 3259730800, 3345764771, 3516065817,
    3600352804, 4094571909, 275423344, 430227734, 506948616, 659060556, 883997877, 958139571,
    1322822218, 1537002063, 1747873779, 1955562222, 2024104815, 2227730452, 2361852424,
    2428436474, 2756734187, 3204031479, 3329325298]"

definition sha_H0 :: "u32 list" where
  "sha_H0 = [
    1779033703, 3144134277, 1013904242, 2773480762, 1359893119, 2600822924, 528734635, 1541459225]"

definition sha_sigma :: "nat \<Rightarrow> nat \<Rightarrow> nat \<Rightarrow> u32 \<Rightarrow> u32" where
  "sha_sigma a b c x = word_rotr a x XOR word_rotr b x XOR word_rotr c x"

definition sha_gamma :: "nat \<Rightarrow> nat \<Rightarrow> nat \<Rightarrow> u32 \<Rightarrow> u32" where
  "sha_gamma a b c x = word_rotr a x XOR word_rotr b x XOR drop_bit c x"

text \<open>The message schedule, produced from a sliding window of sixteen words.\<close>

fun sha_schedule :: "nat \<Rightarrow> u32 list \<Rightarrow> u32 list" where
  "sha_schedule 0 w = []"
| "sha_schedule (Suc n) w =
     w ! 0 # sha_schedule n
       (tl w @ [sha_gamma 17 19 10 (w ! 14) + w ! 9 + sha_gamma 7 18 3 (w ! 1) + w ! 0])"

fun sha_round :: "u32 list \<Rightarrow> u32 \<times> u32 \<Rightarrow> u32 list" where
  "sha_round [a, b, c, d, e, f, g, h] (k, w) =
     (let t1 = h + sha_sigma 6 11 25 e + ((e AND f) XOR (NOT e AND g)) + k + w;
          t2 = sha_sigma 2 13 22 a + ((a AND b) XOR (a AND c) XOR (b AND c))
      in [t1 + t2, a, b, c, d + t1, e, f, g])"
| "sha_round s _ = s"

fun be_word :: "byte list \<Rightarrow> u32" where
  "be_word bs = foldl (\<lambda>acc b. push_bit 8 acc + ucast b) 0 bs"

fun chunks :: "nat \<Rightarrow> nat \<Rightarrow> 'a list \<Rightarrow> 'a list list" where
  "chunks 0 k xs = []"
| "chunks (Suc n) k xs = take k xs # chunks n k (drop k xs)"

definition sha_block :: "u32 list \<Rightarrow> byte list \<Rightarrow> u32 list" where
  "sha_block h bs =
     map2 (+) h (foldl sha_round h (zip sha_K (sha_schedule 64 (map be_word (chunks 16 4 bs)))))"

definition sha_pad :: "byte list \<Rightarrow> byte list" where
  "sha_pad bs =
     (let n = length bs
      in bs @ [0x80] @ replicate ((119 - n mod 64) mod 64) 0 @
         map (\<lambda>i. of_nat (8 * n div 256 ^ i)) [7, 6, 5, 4, 3, 2, 1, 0])"

text \<open>Big-endian bytes of a word.\<close>

definition word_bytes :: "u32 \<Rightarrow> byte list" where
  "word_bytes w = map (\<lambda>i. ucast (drop_bit i w)) [24, 16, 8, 0]"

definition sha256 :: "byte list \<Rightarrow> byte list" where
  "sha256 bs =
     (let p = sha_pad bs
      in concat (map word_bytes (foldl sha_block sha_H0 (chunks (length p div 64) 64 p))))"

definition hex_digit :: "nat \<Rightarrow> nat" where
  "hex_digit n = (if n < 10 then 48 + n else 87 + n)"

definition hexdigest :: "byte list \<Rightarrow> pystr" where
  "hexdigest bs = concat (map (\<lambda>b. [hex_digit (unat b div 16), hex_digit (unat b mod 16)]) bs)"

definition sha256_hex :: "pystr \<Rightarrow> pystr" where
  "sha256_hex s = hexdigest (sha256 (utf8_encode s))"

text \<open>\<open>int.from_bytes(digest[:8], 'big', signed=True)\<close>.\<close>

definition be_nat :: "byte list \<Rightarrow> nat" where
  "be_nat bs = foldl (\<lambda>acc b. acc * 256 + unat b) 0 bs"

definition from_bytes_signed :: "byte list \<Rightarrow> int" where
  "from_bytes_signed bs =
     (let n = int (be_nat bs); w = 2 ^ (8 * length bs)
      in if 2 * n < w then n else n - w)"

section \<open>Facts\<close>

lemma be_nat_bound: "be_nat bs < 256 ^ length bs"
proof (induction bs rule: rev_induct)
  case Nil
  then show ?case by (simp add: be_nat_def)
next
  case (snoc b bs)
  have "unat b < 256" using unsigned_less [of b] by simp
  with snoc have "be_nat bs * 256 + unat b < 256 ^ length bs * 256"
    by simp
  then show ?case by (simp add: be_nat_def mult.commute)
qed

lemma from_bytes_signed_bound:
  assumes "length bs = 8"
  shows "- (2 ^ 63) \<le> from_bytes_signed bs" "from_bytes_signed bs < 2 ^ 63"
proof -
  have "int (be_nat bs) < 2 ^ 64"
    using be_nat_bound [of bs] assms by simp
  with assms show "- (2 ^ 63) \<le> from_bytes_signed bs" "from_bytes_signed bs < 2 ^ 63"
    by (auto simp: from_bytes_signed_def Let_def)
qed

lemma length_sha_round: "length (sha_round s kw) = length s"
  by (induction s kw rule: sha_round.induct) (auto simp: Let_def)

lemma length_sha_block: "length (sha_block h bs) = length h"
proof -
  have "length (foldl sha_round s kws) = length s" for s kws
    by (induction kws arbitrary: s) (auto simp: length_sha_round)
  then show ?thesis by (simp add: sha_block_def)
qed

lemma length_sha256 [simp]: "length (sha256 bs) = 32"
proof -
  have "length (foldl sha_block s bss) = length s" for s bss
    by (induction bss arbitrary: s) (auto simp: length_sha_block)
  then have "length (foldl sha_block sha_H0 bss) = 8" for bss
    by (simp add: sha_H0_def)
  moreover have "length (concat (map word_bytes ws)) = 4 * length ws" for ws
    by (induction ws) (auto simp: word_bytes_def)
  ultimately show ?thesis by (simp add: sha256_def Let_def)
qed

text \<open>The hex digest of raw bytes, \<open>sha256(data).hexdigest()\<close>.\<close>

definition hash_bytes :: "nat list \<Rightarrow> pystr" where
  "hash_bytes bs = hexdigest (sha256 (map of_nat bs))"

lemma length_sha256_hex [simp]: "length (sha256_hex s) = 64"
proof -
  have "length (hexdigest bs) = 2 * length bs" for bs
    by (induction bs) (auto simp: hexdigest_def)
  then show ?thesis by (simp add: sha256_hex_def)
qed

end
