(* ===== verification/Evidence.thy ===== *)
theory Evidence
  imports Domain Digest
begin

text \<open>
  Evidence extraction and deterministic validation: \<open>bidscope/evidence/extractor.py\<close> and
  \<open>bidscope/evidence/validator.py\<close>.
\<close>

section \<open>Bindings from citation ids to spans\<close>

text \<open>
  The values of the evidence mapping: one span, or a list or tuple of spans that share
  a hash.
\<close>

datatype EvidenceBinding =
    OneSpan NoticeEvidence
  | SpanList "NoticeEvidence list"
  | SpanTuple "NoticeEvidence list"

fun candidates :: "EvidenceBinding \<Rightarrow> NoticeEvidence list" where
  "candidates (OneSpan e) = [e]"
| "candidates (SpanList es) = es"
| "candidates (SpanTuple es) = es"

type_synonym evidence_index = "(pystr \<times> EvidenceBinding) list"

text \<open>\<open>next((c for c in candidates if c.notice_version_id == v), None)\<close>.\<close>

definition span_of_version :: "pystr \<Rightarrow> EvidenceBinding \<Rightarrow> NoticeEvidence option" where
  "span_of_version v b = find (\<lambda>e. notice_version_id e = v) (candidates b)"

section \<open>Span hashes\<close>

definition hash_span :: "pystr \<Rightarrow> pystr" where
  "hash_span text = sha256_hex text"

section \<open>Validation (validator.py)\<close>

datatype claim_error =
    Claim_without_citation_id | Missing_evidence | Citation_version_mismatch
  | Invalid_offset | Span_hash_mismatch

record ClaimValidationResult =
  cv_valid :: bool
  cv_errors :: "claim_error list"

record ReportValidationResult =
  rv_valid :: bool
  rv_errors :: "claim_error list"

definition span_errors :: "NoticeEvidence \<Rightarrow> claim_error list" where
  "span_errors e =
     (if ev_start e < 0 \<or> ev_end e < ev_start e then [Invalid_offset] else []) @
     (if ev_end e - ev_start e \<noteq> int (length (ev_text e)) then [Invalid_offset] else []) @
     (if span_hash e \<noteq> hash_span (ev_text e) then [Span_hash_mismatch] else [])"

text \<open>One round of the loop over \<open>claim.citation_ids\<close>.\<close>

definition citation_errors :: "pystr \<Rightarrow> evidence_index \<Rightarrow> pystr \<Rightarrow> claim_error list" where
  "citation_errors item_version_id evidence_by_id citation_id =
     (case map_of evidence_by_id citation_id of
        None \<Rightarrow> [Missing_evidence]
      | Some binding \<Rightarrow>
          (case span_of_version item_version_id binding of
             None \<Rightarrow> [Citation_version_mismatch]
           | Some evidence \<Rightarrow> span_errors evidence))"

definition validate_claim :: "ReportClaim \<Rightarrow> pystr \<Rightarrow> evidence_index \<Rightarrow> ClaimValidationResult" where
  "validate_claim claim item_version_id evidence_by_id =
     (if citation_ids claim = []
      then \<lparr>cv_valid = False, cv_errors = [Claim_without_citation_id]\<rparr>
      else (let errors = concat (map (citation_errors item_version_id evidence_by_id) (citation_ids claim))
            in \<lparr>cv_valid = (errors = []), cv_errors = errors\<rparr>))"

text \<open>What one claim adds to the report's error list.\<close>

definition reported_errors :: "evidence_index \<Rightarrow> pystr \<Rightarrow> ReportClaim \<Rightarrow> claim_error list" where
  "reported_errors evidence_by_id notice_id claim =
     (let result = validate_claim claim notice_id evidence_by_id
      in if \<not> cv_valid result then cv_errors result else [])"

definition report_errors :: "ReportItem list \<Rightarrow> evidence_index \<Rightarrow> claim_error list" where
  "report_errors items evidence_by_id =
     concat (map (\<lambda>item.
       concat (map (reported_errors evidence_by_id (item_notice_id item)) (item_claims item))) items)"

definition validate_report :: "ReportItem list \<Rightarrow> evidence_index \<Rightarrow> ReportValidationResult" where
  "validate_report items evidence_by_id =
     (let unique = uniq (report_errors items evidence_by_id)
      in \<lparr>rv_valid = (unique = []), rv_errors = unique\<rparr>)"

section \<open>Extraction (extractor.py)\<close>

datatype extraction_error = Empty_snippet pystr nat | Snippet_not_found pystr pystr nat

fun extract_from ::
  "pystr \<Rightarrow> pystr \<Rightarrow> nat \<Rightarrow> nat \<Rightarrow> pystr list \<Rightarrow> extraction_error + NoticeEvidence list" where
  "extract_from vid source cursor index [] = Inr []"
| "extract_from vid source cursor index (snippet # rest) =
     (if snippet = [] then Inl (Empty_snippet vid index)
      else (case py_find source snippet cursor of
              None \<Rightarrow> Inl (Snippet_not_found snippet source cursor)
            | Some start \<Rightarrow>
                (let end = start + length snippet
                 in bind_res (extract_from vid source end (Suc index) rest)
                      (\<lambda>spans. Inr (\<lparr>notice_version_id = vid, ev_text = snippet,
                         ev_start = int start, ev_end = int end,
                         span_hash = hash_span snippet\<rparr> # spans)))))"

definition extract_evidence ::
  "pystr \<Rightarrow> pystr \<Rightarrow> pystr list \<Rightarrow> extraction_error + NoticeEvidence list" where
  "extract_evidence vid source_text snippets = extract_from vid source_text 0 0 snippets"

section \<open>What an intact span is\<close>

definition intact :: "NoticeEvidence \<Rightarrow> bool" where
  "intact e \<longleftrightarrow>
     0 \<le> ev_start e \<and> ev_start e \<le> ev_end e \<and>
     ev_end e - ev_start e = int (length (ev_text e)) \<and> span_hash e = hash_span (ev_text e)"

text \<open>A citation is backed when it resolves to an intact span of the item's own version.\<close>

definition backed :: "pystr \<Rightarrow> evidence_index \<Rightarrow> pystr \<Rightarrow> bool" where
  "backed v idx c \<longleftrightarrow>
     (case map_of idx c of
        None \<Rightarrow> False
      | Some b \<Rightarrow> (case span_of_version v b of None \<Rightarrow> False | Some e \<Rightarrow> intact e))"

definition claim_backed :: "evidence_index \<Rightarrow> pystr \<Rightarrow> ReportClaim \<Rightarrow> bool" where
  "claim_backed idx v claim \<longleftrightarrow> citation_ids claim \<noteq> [] \<and> list_all (backed v idx) (citation_ids claim)"

definition report_backed :: "evidence_index \<Rightarrow> ReportItem list \<Rightarrow> bool" where
  "report_backed idx items \<longleftrightarrow>
     list_all (\<lambda>item. list_all (claim_backed idx (item_notice_id item)) (item_claims item)) items"

section \<open>Facts about validation\<close>

lemma span_errors_Nil [simp]: "span_errors e = [] \<longleftrightarrow> intact e"
  by (auto simp: span_errors_def intact_def)

lemma citation_errors_Nil [simp]: "citation_errors v idx c = [] \<longleftrightarrow> backed v idx c"
  by (simp add: citation_errors_def backed_def split: option.splits)

lemma validate_claim_valid [simp]: "cv_valid (validate_claim c v idx) \<longleftrightarrow> claim_backed idx v c"
  by (auto simp: validate_claim_def claim_backed_def Let_def list_all_iff)

lemma validate_claim_errors_Nil: "cv_errors (validate_claim c v idx) = [] \<longleftrightarrow> cv_valid (validate_claim c v idx)"
  by (auto simp: validate_claim_def Let_def)

lemma reported_errors_Nil [simp]: "reported_errors idx v c = [] \<longleftrightarrow> claim_backed idx v c"
  using validate_claim_errors_Nil [of c v idx] by (simp add: reported_errors_def Let_def)

lemma validate_report_valid [simp]: "rv_valid (validate_report items idx) \<longleftrightarrow> report_backed idx items"
  by (simp add: validate_report_def report_errors_def report_backed_def list_all_iff Let_def)

lemma span_of_version_SomeD:
  "span_of_version v b = Some e \<Longrightarrow> e \<in> set (candidates b) \<and> notice_version_id e = v"
  by (auto simp: span_of_version_def dest: find_SomeD)

lemma span_of_version_complete:
  "e \<in> set (candidates b) \<Longrightarrow> notice_version_id e = v \<Longrightarrow> \<exists>e'. span_of_version v b = Some e'"
  by (cases "span_of_version v b") (auto simp: span_of_version_def dest: find_NoneD)

section \<open>Facts about extraction\<close>

lemma extract_from_sound:
  "extract_from vid s cur i snips = Inr spans \<Longrightarrow>
     map ev_text spans = snips \<and> list_all (\<lambda>e. notice_version_id e = vid \<and> intact e \<and>
       int cur \<le> ev_start e \<and> nat (ev_end e) \<le> length s \<and>
       py_slice s (nat (ev_start e)) (nat (ev_end e)) = ev_text e) spans \<and>
     sorted_wrt (\<lambda>a b. ev_end a \<le> ev_start b) spans"
proof (induction vid s cur i snips arbitrary: spans rule: extract_from.induct)
  case (1 vid s cur i)
  then show ?case by simp
next
  case (2 vid s cur i snip rest)
  then obtain start rest_spans where st: "snip \<noteq> []" "py_find s snip cur = Some start"
    and rest: "extract_from vid s (start + length snip) (Suc i) rest = Inr rest_spans"
    and spans: "spans = \<lparr>notice_version_id = vid, ev_text = snip, ev_start = int start,
      ev_end = int (start + length snip), span_hash = hash_span snip\<rparr> # rest_spans"
    by (auto simp: bind_res_Inr Let_def split: if_splits option.splits)
  note IH = "2.IH" [OF st(1) st(2) refl rest]
  from py_find_Some [OF st(2)] IH show ?case
    unfolding spans by (auto simp: list_all_iff intact_def nat_int_add)
qed

lemma extract_from_joined:
  "list_all (\<lambda>t. t \<noteq> []) texts \<Longrightarrow> cur \<le> length pre \<Longrightarrow>
     \<exists>spans. extract_from vid (pre @ py_join sep texts) cur i texts = Inr spans"
proof (induction sep texts arbitrary: pre cur i rule: py_join.induct)
  case (1 sep)
  then show ?case by simp
next
  case (2 sep w)
  then have "py_slice (pre @ w) (length pre) (length pre + length w) = w"
    by (simp add: py_slice_def)
  with 2 obtain j where "py_find (pre @ w) w cur = Some j"
    using py_find_least [of "pre @ w" "length pre" w cur] by auto
  with 2 show ?case by simp
next
  case (3 sep w v ws)
  let ?s = "pre @ py_join sep (w # v # ws)"
  have "py_slice ?s (length pre) (length pre + length w) = w"
    by (simp add: py_slice_def)
  with 3 obtain j where j: "j \<le> length pre" "py_find ?s w cur = Some j"
    using py_find_least [of ?s "length pre" w cur] by auto
  have "\<exists>spans. extract_from vid ((pre @ w @ sep) @ py_join sep (v # ws)) (j + length w) (Suc i) (v # ws) = Inr spans"
    using "3.prems" j(1) by (intro "3.IH") auto
  then obtain spans where "extract_from vid ?s (j + length w) (Suc i) (v # ws) = Inr spans"
    by auto
  with "3.prems" j show ?case
    by (subst extract_from.simps(2)) (simp add: Let_def del: extract_from.simps)
qed

section \<open>Properties\<close>

text \<open>C28: A claim passes validation exactly when it has a citation and every citation
  resolves, in the item's own notice version, to a span with consistent offsets whose stored
  hash is the digest of its text; a report passes exactly when every claim of every item does.\<close>

theorem validate_report_iff:
  "rv_valid (validate_report items idx) \<longleftrightarrow>
     list_all (\<lambda>item. list_all (\<lambda>claim. citation_ids claim \<noteq> [] \<and>
        list_all (\<lambda>c. case map_of idx c of None \<Rightarrow> False
          | Some b \<Rightarrow> (case span_of_version (item_notice_id item) b of None \<Rightarrow> False | Some e \<Rightarrow> intact e))
        (citation_ids claim)) (item_claims item)) items"
  unfolding validate_report_valid report_backed_def claim_backed_def backed_def ..

text \<open>Extraction returns one span per snippet, in order and without overlap; each span
  is intact, belongs to the given notice version and is the slice of the source text its
  offsets name.\<close>

theorem extract_evidence_sound:
  assumes "extract_evidence vid source snippets = Inr spans"
  shows "map ev_text spans = snippets \<and>
    list_all (\<lambda>e. notice_version_id e = vid \<and> intact e \<and> nat (ev_end e) \<le> length source \<and>
      py_slice source (nat (ev_start e)) (nat (ev_end e)) = ev_text e) spans \<and>
    sorted_wrt (\<lambda>a b. ev_end a \<le> ev_start b) spans"
  using extract_from_sound [OF assms [unfolded extract_evidence_def]]
  by (auto simp: list_all_iff)

theorem extract_evidence_sound_witness:
  "sorted_wrt (\<lambda>a b. ev_end a \<le> ev_start b)
     [\<lparr>notice_version_id = u ''v'', ev_text = u ''ab'', ev_start = 1, ev_end = 3,
        span_hash = hash_span (u ''ab'')\<rparr>]"
proof -
  have "extract_evidence (u ''v'') (u ''xab'') [u ''ab''] =
      Inr [\<lparr>notice_version_id = u ''v'', ev_text = u ''ab'', ev_start = 1, ev_end = 3,
        span_hash = hash_span (u ''ab'')\<rparr>]"
    by (simp add: extract_evidence_def py_find_def Let_def)
  from extract_evidence_sound [OF this] show ?thesis by blast
qed

text \<open>Extraction of the texts a source was joined from never raises: the search for each
  text starts no later than the place the join put it, so a non-empty text is always found.\<close>

theorem extract_evidence_joined:
  assumes "list_all (\<lambda>t. t \<noteq> []) texts"
  shows "\<exists>spans. extract_evidence vid (py_join sep texts) texts = Inr spans"
  using extract_from_joined [OF assms, of 0 "[]"] by (simp add: extract_evidence_def)

theorem extract_evidence_joined_witness:
  "\<exists>spans. extract_evidence (u ''v'') (py_join [10] [u ''a'', u ''a'']) [u ''a'', u ''a''] = Inr spans"
  by (rule extract_evidence_joined) simp

end
