(* ===== verification/Deduplication.thy ===== *)
theory Deduplication
  imports Domain
begin

text \<open>
  Duplicate classification and material-change detection:
  \<open>bidscope/retrieval/deduplication.py\<close>.  The Unicode tables behind NFKC normalisation and
  \<open>str.lower\<close>, and the host checks inside \<open>urlsplit\<close>, are collected in a record of functions
  that the definitions take as their first argument.
\<close>

record text_tables =
  nfkc :: "pystr \<Rightarrow> pystr"
  lower :: "pystr \<Rightarrow> pystr"
  netloc_ok :: "pystr \<Rightarrow> bool"

section \<open>Notice views\<close>

record NoticeView =
  nv_source :: pystr
  nv_external_id :: pystr
  nv_canonical_url :: pystr
  nv_project_number :: "pystr option"
  nv_content_hash :: pystr
  nv_title :: "pystr option"
  nv_purchaser :: "pystr option"
  nv_region :: "pystr option"
  nv_budget_minor_units :: "int option"
  nv_budget_currency :: "pystr option"
  nv_deadline :: "datetime option"
  nv_procurement_scope :: "pystr option"
  nv_cancellation :: bool
  nv_claim_supporting_texts :: "pystr list"

text \<open>\<open>__post_init__\<close> rejects a naive deadline.\<close>

definition make_notice_view :: "NoticeView \<Rightarrow> validation_error + NoticeView" where
  "make_notice_view v =
     (case nv_deadline v of
        Some d \<Rightarrow> if \<not> dt_aware d then Inl Naive_datetime else Inr v
      | None \<Rightarrow> Inr v)"

datatype DuplicateDecision = EXACT | AMBIGUOUS | DISTINCT

datatype conflict_field = Purchaser_conflict | Budget_conflict | Region_conflict

datatype duplicate_reason =
    Identical_content_hash pystr
  | Identical_project_number pystr
  | Identical_source_and_url pystr pystr
  | Source_id_mapping pystr pystr
  | Project_numbers_differ pystr pystr "conflict_field list"
  | No_strong_evidence

record DuplicateClassification =
  dc_decision :: DuplicateDecision
  dc_reasons :: "duplicate_reason list"

section \<open>Text and URL normalisation\<close>

definition normalize_text :: "text_tables \<Rightarrow> pystr option \<Rightarrow> pystr" where
  "normalize_text tab value =
     (case value of None \<Rightarrow> [] | Some s \<Rightarrow> py_join [32] (py_split_ws (nfkc tab s)))"

datatype url_error = Invalid_url

record split_url =
  url_scheme :: pystr
  url_netloc :: pystr
  url_path :: pystr

definition ascii_alpha :: "nat \<Rightarrow> bool" where
  "ascii_alpha c \<longleftrightarrow> (65 \<le> c \<and> c \<le> 90) \<or> (97 \<le> c \<and> c \<le> 122)"


definition scheme_char :: "nat \<Rightarrow> bool" where
  "scheme_char c \<longleftrightarrow> ascii_alpha c \<or> (48 \<le> c \<and> c \<le> 57) \<or> c \<in> set (u ''+-.'')"

text \<open>\<open>urllib.parse.urlsplit\<close>, as far as scheme, authority and path.\<close>

definition split_scheme :: "pystr \<Rightarrow> pystr \<times> pystr" where
  "split_scheme url =
     (let sch = takeWhile (\<lambda>c. c \<noteq> 58) url
      in if length sch < length url \<and> sch \<noteq> [] \<and> ascii_alpha (hd sch) \<and> list_all scheme_char sch
         then (ascii_lower sch, drop (Suc (length sch)) url)
         else ([], url))"

definition split_netloc :: "pystr \<Rightarrow> pystr \<times> pystr" where
  "split_netloc url =
     (if prefix (u ''//'') url
      then (takeWhile (\<lambda>c. c \<notin> set (u ''/?#'')) (drop 2 url),
            dropWhile (\<lambda>c. c \<notin> set (u ''/?#'')) (drop 2 url))
      else ([], url))"

definition urlsplit :: "text_tables \<Rightarrow> pystr \<Rightarrow> url_error + split_url" where
  "urlsplit tab raw =
     (let url = filter (\<lambda>c. c \<notin> {9, 10, 13}) (dropWhile (\<lambda>c. c \<le> 32) raw);
          (scheme, rest) = split_scheme url;
          (netloc, rest') = split_netloc rest;
          path = takeWhile (\<lambda>c. c \<noteq> 63) (takeWhile (\<lambda>c. c \<noteq> 35) rest')
      in if (91 \<in> set netloc) \<noteq> (93 \<in> set netloc) \<or> \<not> netloc_ok tab netloc then Inl Invalid_url
         else Inr \<lparr>url_scheme = scheme, url_netloc = netloc, url_path = path\<rparr>)"

definition uses_netloc :: "string list" where
  "uses_netloc = ['''', ''ftp'', ''http'', ''gopher'', ''nntp'', ''telnet'', ''imap'', ''wais'', ''file'',
     ''mms'', ''https'', ''shttp'', ''snews'', ''prospero'', ''rtsp'', ''rtsps'', ''rtspu'', ''rsync'',
     ''svn'', ''svn+ssh'', ''sftp'', ''nfs'', ''git'', ''git+ssh'', ''ws'', ''wss'']"

text \<open>\<open>urlunsplit\<close> with empty query and fragment.\<close>

definition urlunsplit :: "pystr \<Rightarrow> pystr \<Rightarrow> pystr \<Rightarrow> pystr" where
  "urlunsplit scheme netloc path =
     (let url =
        (if netloc \<noteq> [] \<or> (scheme \<noteq> [] \<and> scheme \<in> set (map u uses_netloc)) \<or> prefix (u ''//'') path
         then u ''//'' @ netloc @ (if path \<noteq> [] \<and> hd path \<noteq> 47 then 47 # path else path)
         else path)
      in if scheme \<noteq> [] then scheme @ u '':'' @ url else url)"

text \<open>\<open>path.rstrip('/') or '/'\<close>.\<close>

definition trim_path :: "pystr \<Rightarrow> pystr" where
  "trim_path p = (let q = rev (dropWhile (\<lambda>c. c = 47) (rev p)) in if q = [] then [47] else q)"

definition canonicalize_url :: "text_tables \<Rightarrow> pystr \<Rightarrow> url_error + pystr" where
  "canonicalize_url tab url =
     bind_res (urlsplit tab url) (\<lambda>p.
       Inr (urlunsplit (ascii_lower (url_scheme p)) (lower tab (url_netloc p)) (trim_path (url_path p))))"

section \<open>Classification\<close>

definition stripped_number :: "NoticeView \<Rightarrow> pystr" where
  "stripped_number v = (case nv_project_number v of None \<Rightarrow> [] | Some p \<Rightarrow> py_strip p)"

definition distinct_reasons :: "text_tables \<Rightarrow> NoticeView \<Rightarrow> NoticeView \<Rightarrow> duplicate_reason list" where
  "distinct_reasons tab candidate existing =
     (case (nv_project_number candidate, nv_project_number existing) of
        (Some p, Some q) \<Rightarrow>
          if p \<noteq> [] \<and> q \<noteq> [] \<and> p \<noteq> q then
            (let conflicts =
               (if normalize_text tab (nv_purchaser candidate) \<noteq> normalize_text tab (nv_purchaser existing)
                then [Purchaser_conflict] else []) @
               (if nv_budget_minor_units candidate \<noteq> nv_budget_minor_units existing
                then [Budget_conflict] else []) @
               (if normalize_text tab (nv_region candidate) \<noteq> normalize_text tab (nv_region existing)
                then [Region_conflict] else [])
             in if conflicts \<noteq> [] then [Project_numbers_differ p q conflicts] else [])
          else []
      | _ \<Rightarrow> [])"

text \<open>The URL is parsed only for notices of the same source, the candidate's first.\<close>

definition url_reasons :: "text_tables \<Rightarrow> NoticeView \<Rightarrow> NoticeView \<Rightarrow> url_error + duplicate_reason list" where
  "url_reasons tab candidate existing =
     (if nv_source candidate = nv_source existing
      then bind_res (canonicalize_url tab (nv_canonical_url candidate)) (\<lambda>a.
           bind_res (canonicalize_url tab (nv_canonical_url existing)) (\<lambda>b.
             Inr (if a = b then [Identical_source_and_url (nv_source candidate) a] else [])))
      else Inr [])"

definition mapping_reasons ::
  "(pystr \<times> pystr) list \<Rightarrow> NoticeView \<Rightarrow> NoticeView \<Rightarrow> duplicate_reason list" where
  "mapping_reasons equivalent_ids candidate existing =
     (case find (\<lambda>(l, r). {l, r} = {nv_source candidate, nv_source existing}) equivalent_ids of
        None \<Rightarrow> []
      | Some (l, r) \<Rightarrow> [Source_id_mapping l r])"

definition exact_reasons ::
  "text_tables \<Rightarrow> (pystr \<times> pystr) list \<Rightarrow> NoticeView \<Rightarrow> NoticeView \<Rightarrow> url_error + duplicate_reason list" where
  "exact_reasons tab equivalent_ids candidate existing =
     bind_res (url_reasons tab candidate existing) (\<lambda>urls.
       Inr ((if nv_content_hash candidate = nv_content_hash existing
             then [Identical_content_hash (nv_content_hash candidate)] else []) @
            (if stripped_number candidate \<noteq> [] \<and> stripped_number existing \<noteq> [] \<and>
                stripped_number candidate = stripped_number existing
             then [Identical_project_number (stripped_number candidate)] else []) @
            urls @ mapping_reasons equivalent_ids candidate existing))"

definition classify_duplicate ::
  "text_tables \<Rightarrow> (pystr \<times> pystr) list \<Rightarrow> NoticeView \<Rightarrow> NoticeView \<Rightarrow> url_error + DuplicateClassification" where
  "classify_duplicate tab equivalent_ids candidate existing =
     bind_res (exact_reasons tab equivalent_ids candidate existing) (\<lambda>reasons.
       Inr (if reasons \<noteq> [] then \<lparr>dc_decision = EXACT, dc_reasons = reasons\<rparr>
            else (let ds = distinct_reasons tab candidate existing
                  in if ds \<noteq> [] then \<lparr>dc_decision = DISTINCT, dc_reasons = ds\<rparr>
                     else \<lparr>dc_decision = AMBIGUOUS, dc_reasons = [No_strong_evidence]\<rparr>)))"

section \<open>Material changes\<close>

datatype MaterialChangeType =
    DEADLINE | BUDGET | REGION | PURCHASER | SCOPE | CANCELLATION | CLAIM_EVIDENCE

record MaterialChange =
  mc_field :: MaterialChangeType
  mc_before :: pystr
  mc_after :: pystr

definition format_datetime :: "datetime option \<Rightarrow> pystr" where
  "format_datetime value = (case value of None \<Rightarrow> [] | Some t \<Rightarrow> isoformat t)"

text \<open>\<open>f"{currency or 'CNY'} {minor_units}"\<close>.\<close>

definition money_text :: "int \<Rightarrow> pystr option \<Rightarrow> pystr" where
  "money_text units cur =
     (case cur of None \<Rightarrow> u ''CNY'' | Some c \<Rightarrow> if c = [] then u ''CNY'' else c) @ u '' '' @ show_int units"

definition format_money :: "int option \<Rightarrow> pystr option \<Rightarrow> pystr" where
  "format_money minor cur = (case minor of None \<Rightarrow> [] | Some m \<Rightarrow> money_text m cur)"

definition opt_text :: "pystr option \<Rightarrow> pystr" where
  "opt_text v = (case v of None \<Rightarrow> [] | Some s \<Rightarrow> s)"

definition bool_text :: "bool \<Rightarrow> pystr" where
  "bool_text b = (if b then u ''True'' else u ''False'')"

definition change_if :: "bool \<Rightarrow> MaterialChangeType \<Rightarrow> pystr \<Rightarrow> pystr \<Rightarrow> MaterialChange list" where
  "change_if changed f before after =
     (if changed then [\<lparr>mc_field = f, mc_before = before, mc_after = after\<rparr>] else [])"

definition detect_material_changes :: "text_tables \<Rightarrow> NoticeView \<Rightarrow> NoticeView \<Rightarrow> MaterialChange list" where
  "detect_material_changes tab old new =
     change_if (\<not> opt_dt_eq (nv_deadline old) (nv_deadline new)) DEADLINE
       (format_datetime (nv_deadline old)) (format_datetime (nv_deadline new)) @
     change_if (nv_budget_minor_units old \<noteq> nv_budget_minor_units new) BUDGET
       (format_money (nv_budget_minor_units old) (nv_budget_currency old))
       (format_money (nv_budget_minor_units new) (nv_budget_currency new)) @
     change_if (normalize_text tab (nv_region old) \<noteq> normalize_text tab (nv_region new)) REGION
       (opt_text (nv_region old)) (opt_text (nv_region new)) @
     change_if (normalize_text tab (nv_purchaser old) \<noteq> normalize_text tab (nv_purchaser new)) PURCHASER
       (opt_text (nv_purchaser old)) (opt_text (nv_purchaser new)) @
     change_if (normalize_text tab (nv_procurement_scope old) \<noteq> normalize_text tab (nv_procurement_scope new))
       SCOPE (opt_text (nv_procurement_scope old)) (opt_text (nv_procurement_scope new)) @
     change_if (nv_cancellation old \<noteq> nv_cancellation new) CANCELLATION
       (bool_text (nv_cancellation old)) (bool_text (nv_cancellation new)) @
     change_if (nv_claim_supporting_texts old \<noteq> nv_claim_supporting_texts new) CLAIM_EVIDENCE
       (py_join (u '' | '') (nv_claim_supporting_texts old))
       (py_join (u '' | '') (nv_claim_supporting_texts new))"

section \<open>Facts\<close>

lemma url_error_unit: "(e::url_error) = f"
  by (cases e; cases f) simp

lemma found_iff:
  "(case find P xs of None \<Rightarrow> [] | Some (x, y) \<Rightarrow> [f x y]) \<noteq> [] \<longleftrightarrow> list_ex P xs"
  by (cases "find P xs") (auto simp: list_ex_iff dest: find_NoneD find_SomeD)

text \<open>Swapping the notices keeps every kind of reason.\<close>

lemma url_reasons_sym:
  "(\<exists>e. url_reasons tab a b = Inl e) = (\<exists>e. url_reasons tab b a = Inl e)"
  "url_reasons tab a b = Inr [] \<longleftrightarrow> url_reasons tab b a = Inr []"
  by (auto simp: url_reasons_def bind_res_def split: sum.splits if_splits)

lemma mapping_reasons_sym: "mapping_reasons eq a b = mapping_reasons eq b a"
  by (simp add: mapping_reasons_def insert_commute)

lemma distinct_reasons_sym: "distinct_reasons tab a b = [] \<longleftrightarrow> distinct_reasons tab b a = []"
  by (auto simp: distinct_reasons_def Let_def split: option.splits if_splits)

lemma exact_reasons_sym:
  "(\<exists>e. exact_reasons tab eq a b = Inl e) = (\<exists>e. exact_reasons tab eq b a = Inl e)"
  "exact_reasons tab eq a b = Inr [] \<longleftrightarrow> exact_reasons tab eq b a = Inr []"
  using url_reasons_sym [of tab a b] mapping_reasons_sym [of eq a b]
  by (cases "url_reasons tab a b"; cases "url_reasons tab b a"; auto simp: exact_reasons_def split: if_splits)+

definition decision_of :: "url_error + DuplicateClassification \<Rightarrow> url_error + DuplicateDecision" where
  "decision_of r = bind_res r (\<lambda>c. Inr (dc_decision c))"

lemma decision_of_classify:
  "decision_of (classify_duplicate tab eq a b) =
     bind_res (exact_reasons tab eq a b) (\<lambda>rs. Inr (if rs \<noteq> [] then EXACT
       else if distinct_reasons tab a b \<noteq> [] then DISTINCT else AMBIGUOUS))"
  by (cases "exact_reasons tab eq a b") (auto simp: decision_of_def classify_duplicate_def Let_def)

lemmas change_simps = detect_material_changes_def change_if_def

section \<open>Properties\<close>

text \<open>The duplicate decision does not depend on which notice is the candidate: both orders
  give the same decision, or both fail on an unparsable URL.\<close>

theorem classify_duplicate_symmetric:
  "decision_of (classify_duplicate tab eq a b) = decision_of (classify_duplicate tab eq b a)"
  using exact_reasons_sym [of tab eq a b] distinct_reasons_sym [of tab a b]
  by (cases "exact_reasons tab eq a b"; cases "exact_reasons tab eq b a")
    (auto simp: decision_of_classify url_error_unit)

text \<open>EXACT is decided exactly on strong evidence: equal content hashes, equal non-blank
  project numbers, one source with equal canonical URLs, or a listed source pair.\<close>

theorem classify_duplicate_exact_iff:
  "decision_of (classify_duplicate tab eq a b) = Inr EXACT \<longleftrightarrow>
     (\<exists>urls. url_reasons tab a b = Inr urls \<and>
        (nv_content_hash a = nv_content_hash b \<or>
         (0 < length (stripped_number a) \<and> stripped_number a = stripped_number b) \<or> 0 < length urls \<or>
         list_ex (\<lambda>(l, r). {l, r} = {nv_source a, nv_source b}) eq))"
proof -
  define P where "P = (\<lambda>(l, r). {l, r} = {nv_source a, nv_source b})"
  have "mapping_reasons eq a b = [] \<longleftrightarrow> \<not> list_ex P eq"
    using found_iff [where P = P and xs = eq and f = Source_id_mapping] unfolding mapping_reasons_def P_def by blast
  then show ?thesis
    unfolding P_def [symmetric]
    by (cases "url_reasons tab a b") (auto simp: decision_of_classify exact_reasons_def)
qed

text \<open>A DISTINCT verdict needs two different project numbers and at least one differing
  purchaser, budget or region; so two versions that agree in all three are never split.\<close>

theorem classify_duplicate_distinct:
  assumes "decision_of (classify_duplicate tab eq a b) = Inr DISTINCT"
  shows "nv_content_hash a \<noteq> nv_content_hash b \<and> nv_project_number a \<noteq> nv_project_number b \<and>
    nv_project_number a \<noteq> None \<and> nv_project_number b \<noteq> None \<and>
    (normalize_text tab (nv_purchaser a) \<noteq> normalize_text tab (nv_purchaser b) \<or>
     nv_budget_minor_units a \<noteq> nv_budget_minor_units b \<or>
     normalize_text tab (nv_region a) \<noteq> normalize_text tab (nv_region b))"
proof -
  from assms have "exact_reasons tab eq a b = Inr []" "distinct_reasons tab a b \<noteq> []"
    by (auto simp: decision_of_classify bind_res_Inr split: if_splits)
  then show ?thesis
    by (auto simp: exact_reasons_def distinct_reasons_def bind_res_Inr Let_def split: option.splits if_splits)
qed

theorem classify_duplicate_distinct_witness:
  "(Some (u ''A1'') :: pystr option) \<noteq> Some (u ''B2'') \<and> (Some 1 :: int option) \<noteq> Some 2"
proof -
  let ?a = "\<lparr>nv_source = u ''ccgp'', nv_external_id = u ''x'', nv_canonical_url = [],
    nv_project_number = Some (u ''A1''), nv_content_hash = u ''h1'', nv_title = None, nv_purchaser = None,
    nv_region = None, nv_budget_minor_units = Some 1, nv_budget_currency = None, nv_deadline = None,
    nv_procurement_scope = None, nv_cancellation = False, nv_claim_supporting_texts = []\<rparr>"
  let ?b = "?a\<lparr>nv_source := u ''ggzy'', nv_project_number := Some (u ''B2''), nv_content_hash := u ''h2'',
    nv_budget_minor_units := Some 2\<rparr>"
  let ?tab = "\<lparr>nfkc = (\<lambda>s. s), lower = (\<lambda>s. s), netloc_ok = (\<lambda>_. True)\<rparr>"
  have "decision_of (classify_duplicate ?tab [] ?a ?b) = Inr DISTINCT"
    by (simp add: decision_of_classify exact_reasons_def url_reasons_def mapping_reasons_def
        stripped_number_def distinct_reasons_def py_strip_def py_isspace_def)
  from classify_duplicate_distinct [OF this] show ?thesis by simp
qed

text \<open>Change detection is empty exactly when the deadline instant, the budget figure, the
  normalised region, purchaser and scope, the cancellation flag and the evidence texts all
  agree; title, URL and currency are not compared.\<close>

theorem detect_material_changes_empty_iff:
  "detect_material_changes tab old new = [] \<longleftrightarrow>
     opt_dt_eq (nv_deadline old) (nv_deadline new) \<and>
     nv_budget_minor_units old = nv_budget_minor_units new \<and>
     normalize_text tab (nv_region old) = normalize_text tab (nv_region new) \<and>
     normalize_text tab (nv_purchaser old) = normalize_text tab (nv_purchaser new) \<and>
     normalize_text tab (nv_procurement_scope old) = normalize_text tab (nv_procurement_scope new) \<and>
     nv_cancellation old = nv_cancellation new \<and>
     nv_claim_supporting_texts old = nv_claim_supporting_texts new"
  by (simp add: change_simps)

text \<open>The reported changes name each field at most once, in the documented order, and the
  reverse comparison reports the same fields with before and after exchanged.\<close>

theorem detect_material_changes_order:
  "subseq (map mc_field (detect_material_changes tab old new))
     [DEADLINE, BUDGET, REGION, PURCHASER, SCOPE, CANCELLATION, CLAIM_EVIDENCE] \<and>
   detect_material_changes tab new old =
     map (\<lambda>c. \<lparr>mc_field = mc_field c, mc_before = mc_after c, mc_after = mc_before c\<rparr>)
       (detect_material_changes tab old new)"
proof
  have one: "subseq (map mc_field (change_if b f x y)) [f]" for b f x y
    by (simp add: change_if_def)
  show "subseq (map mc_field (detect_material_changes tab old new))
     [DEADLINE, BUDGET, REGION, PURCHASER, SCOPE, CANCELLATION, CLAIM_EVIDENCE]"
    using list_emb_append_mono [OF one list_emb_append_mono [OF one list_emb_append_mono [OF one
      list_emb_append_mono [OF one list_emb_append_mono [OF one list_emb_append_mono [OF one one]]]]]]
    by (simp add: detect_material_changes_def)
  have sw: "change_if b f y x =
    map (\<lambda>c. \<lparr>mc_field = mc_field c, mc_before = mc_after c, mc_after = mc_before c\<rparr>) (change_if b f x y)"
    for b f x y by (simp add: change_if_def)
  show "detect_material_changes tab new old =
     map (\<lambda>c. \<lparr>mc_field = mc_field c, mc_before = mc_after c, mc_after = mc_before c\<rparr>)
       (detect_material_changes tab old new)"
    unfolding detect_material_changes_def map_append
    by (simp only: sw [symmetric] opt_dt_eq_sym [of "nv_deadline new"]
        eq_commute [of "nv_budget_minor_units new" "nv_budget_minor_units old"]
        eq_commute [of "normalize_text tab (nv_region new)" "normalize_text tab (nv_region old)"]
        eq_commute [of "normalize_text tab (nv_purchaser new)" "normalize_text tab (nv_purchaser old)"]
        eq_commute [of "normalize_text tab (nv_procurement_scope new)"
          "normalize_text tab (nv_procurement_scope old)"]
        eq_commute [of "nv_cancellation new" "nv_cancellation old"]
        eq_commute [of "nv_claim_supporting_texts new" "nv_claim_supporting_texts old"])
qed

end
