(* ===== verification/Retrieval.thy ===== *)
theory Retrieval
  imports Domain "HOL-Library.Multiset"
begin

text \<open>
  Hybrid retrieval: structured filtering, the two ranked recalls and reciprocal-rank fusion
  of \<open>bidscope/retrieval/search.py\<close>.  Trigram similarity, vector distance and the embedding
  provider are outside the repository; the orders they induce and the embedding call are
  parameters.  Scores are exact rationals.
\<close>

section \<open>Rows and filters\<close>

record NoticeRow =
  row_id :: pystr
  row_title :: "pystr option"
  row_region :: "pystr option"
  row_publish_date :: "datetime option"
  row_budget :: "int option"
  row_cancellation :: bool
  row_embedding :: "rat list option"

record RetrievalFilter =
  rf_regions :: "pystr list"
  rf_published_from :: "datetime option"
  rf_published_to :: "datetime option"
  rf_min_budget :: "int option"

text \<open>
  \<open>column.startswith(r)\<close> is \<open>LIKE r || '%'\<close> with no escaping of \<open>r\<close>: percent and underscore
  are wildcards and backslash escapes the next character.
\<close>

fun sql_like :: "pystr \<Rightarrow> pystr \<Rightarrow> bool" where
  "sql_like [] [] = True"
| "sql_like [] (c # cs) = False"
| "sql_like (p # ps) [] = (p = 37 \<and> sql_like ps [])"
| "sql_like (p # ps) (c # cs) =
     (if p = 37 then sql_like ps (c # cs) \<or> sql_like (p # ps) cs
      else if p = 95 then sql_like ps cs
      else if p = 92 then (case ps of [] \<Rightarrow> False | q # qs \<Rightarrow> q = c \<and> sql_like qs cs)
      else p = c \<and> sql_like ps cs)"

definition region_matches :: "pystr \<Rightarrow> pystr option \<Rightarrow> bool" where
  "region_matches region column =
     (case column of None \<Rightarrow> False | Some c \<Rightarrow> c = region \<or> sql_like (region @ [37]) c)"

text \<open>
  \<open>_apply_structured_filters\<close>: the conjunction of the \<open>WHERE\<close> clauses; a comparison with a
  \<open>NULL\<close> column does not hold.
\<close>

definition structured_filter :: "RetrievalFilter \<Rightarrow> NoticeRow \<Rightarrow> bool" where
  "structured_filter f r \<longleftrightarrow>
     \<not> row_cancellation r \<and>
     (rf_regions f = [] \<or> list_ex (\<lambda>g. region_matches g (row_region r)) (rf_regions f)) \<and>
     (case rf_published_from f of None \<Rightarrow> True | Some t \<Rightarrow>
        (case row_publish_date r of None \<Rightarrow> False | Some d \<Rightarrow> instant t \<le> instant d)) \<and>
     (case rf_published_to f of None \<Rightarrow> True | Some t \<Rightarrow>
        (case row_publish_date r of None \<Rightarrow> False | Some d \<Rightarrow> instant d \<le> instant t)) \<and>
     (case rf_min_budget f of None \<Rightarrow> True | Some m \<Rightarrow>
        (case row_budget r of None \<Rightarrow> False | Some b \<Rightarrow> m \<le> b))"

section \<open>Reciprocal-rank fusion\<close>

record RetrievalCandidate =
  rc_id :: pystr
  rc_score :: rat
  rc_lexical_rank :: "nat option"
  rc_vector_rank :: "nat option"

text \<open>One pass of the outer loop: add the list's contribution to the scores, record the ranks.\<close>

definition add_scores :: "nat \<Rightarrow> rat \<Rightarrow> pystr list \<Rightarrow> (pystr \<times> rat) list \<Rightarrow> (pystr \<times> rat) list" where
  "add_scores rrf_k weight ranked scores =
     foldl (\<lambda>d (rank, i). dict_set i
       ((case map_of d i of None \<Rightarrow> 0 | Some s \<Rightarrow> s) + weight / of_nat (rrf_k + rank)) d)
       scores (enumerate 1 ranked)"

definition add_ranks :: "pystr list \<Rightarrow> (pystr \<times> nat) list" where
  "add_ranks ranked = foldl (\<lambda>d (rank, i). dict_set i rank d) [] (enumerate 1 ranked)"

definition reciprocal_rank_fuse ::
  "pystr list \<Rightarrow> pystr list \<Rightarrow> nat \<Rightarrow> rat \<Rightarrow> rat \<Rightarrow> RetrievalCandidate list" where
  "reciprocal_rank_fuse lexical vector rrf_k lexical_weight vector_weight =
     (let scores = add_scores rrf_k vector_weight vector (add_scores rrf_k lexical_weight lexical []);
          lex_ranks = add_ranks lexical;
          vec_ranks = add_ranks vector
      in sort_key (\<lambda>c. - rc_score c)
           (map (\<lambda>(i, score). \<lparr>rc_id = i, rc_score = score, rc_lexical_rank = map_of lex_ranks i,
              rc_vector_rank = map_of vec_ranks i\<rparr>) scores))"

section \<open>The search pipeline\<close>

definition RRF_K :: nat where "RRF_K = 60"

record search_config =
  top_k :: nat
  cfg_rrf_k :: nat
  lexical_weight :: rat
  vector_weight :: rat

text \<open>The orders of the two recall statements and the embedding call (\<open>None\<close>: it raises).\<close>

record recall_ops =
  lexical_order :: "pystr \<Rightarrow> NoticeRow list \<Rightarrow> NoticeRow list"
  vector_order :: "rat list \<Rightarrow> NoticeRow list \<Rightarrow> NoticeRow list"
  embed :: "pystr \<Rightarrow> rat list list option"

record RetrievalResult =
  rr_query :: pystr
  rr_candidates :: "RetrievalCandidate list"
  rr_degraded_modes :: "string list"
  rr_filters :: RetrievalFilter

text \<open>\<open>_embed_query\<close>: blank text is not embedded; an empty answer is no vector.\<close>

definition embed_query :: "recall_ops \<Rightarrow> pystr \<Rightarrow> rat list option option" where
  "embed_query ops query =
     (if py_strip query = [] then Some None
      else map_option (\<lambda>vs. case vs of [] \<Rightarrow> None | v # _ \<Rightarrow> Some v) (embed ops query))"

text \<open>\<open>_ranks\<close>: the ids of the first \<open>top_k\<close> rows; the 1-based rank is the position.\<close>

definition ranks :: "search_config \<Rightarrow> NoticeRow list \<Rightarrow> pystr list" where
  "ranks cfg rows = map row_id (take (top_k cfg) rows)"

definition search ::
  "search_config \<Rightarrow> recall_ops \<Rightarrow> NoticeRow list \<Rightarrow> pystr \<Rightarrow> RetrievalFilter \<Rightarrow> RetrievalResult" where
  "search cfg ops table query filters =
     (let candidate_rows = filter (structured_filter filters) table;
          lexical = ranks cfg (lexical_order ops query candidate_rows);
          (vector, degraded) =
            (case embed_query ops query of
               None \<Rightarrow> ([], [''vector_unavailable''])
             | Some None \<Rightarrow> ([], [])
             | Some (Some v) \<Rightarrow>
                 (ranks cfg (vector_order ops v (filter (\<lambda>r. row_embedding r \<noteq> None) candidate_rows)), []))
      in \<lparr>rr_query = query,
          rr_candidates = reciprocal_rank_fuse lexical vector (cfg_rrf_k cfg) (lexical_weight cfg)
            (vector_weight cfg),
          rr_degraded_modes = degraded, rr_filters = filters\<rparr>)"

section \<open>Facts\<close>

lemma sql_like_literal:
  "list_all (\<lambda>c. c \<noteq> 37 \<and> c \<noteq> 95 \<and> c \<noteq> 92) r \<Longrightarrow> sql_like (r @ [37]) s \<longleftrightarrow> prefix r s"
proof (induction r arbitrary: s)
  case Nil
  have "sql_like [37] s" for s by (induction s) auto
  then show ?case by simp
next
  case (Cons p ps)
  then show ?case by (cases s) auto
qed

text \<open>Contributions of one list to the score of an id.\<close>

definition contribution :: "nat \<Rightarrow> rat \<Rightarrow> nat \<Rightarrow> pystr list \<Rightarrow> pystr \<Rightarrow> rat" where
  "contribution k w n xs i = (\<Sum>(r, j) \<leftarrow> enumerate n xs. if j = i then w / of_nat (k + r) else 0)"

lemma contribution_simps [simp]:
  "contribution k w n [] i = 0"
  "contribution k w n (x # xs) i = (if x = i then w / of_nat (k + n) else 0) + contribution k w (Suc n) xs i"
  by (simp_all add: contribution_def)

definition scored :: "nat \<Rightarrow> rat \<Rightarrow> nat \<Rightarrow> pystr list \<Rightarrow> (pystr \<times> rat) list \<Rightarrow> (pystr \<times> rat) list" where
  "scored k w n xs d = foldl (\<lambda>d (rank, i). dict_set i
       ((case map_of d i of None \<Rightarrow> 0 | Some s \<Rightarrow> s) + w / of_nat (k + rank)) d) d (enumerate n xs)"

lemma scored_simps [simp]:
  "scored k w n [] d = d"
  "scored k w n (x # xs) d =
     scored k w (Suc n) xs (dict_set x ((case map_of d x of None \<Rightarrow> 0 | Some s \<Rightarrow> s) + w / of_nat (k + n)) d)"
  by (simp_all add: scored_def)

lemma keys_scored: "fst ` set (scored k w n xs d) = fst ` set d \<union> set xs"
proof (induction xs arbitrary: n d)
  case (Cons x xs)
  have "fst ` set (dict_set x v d) = insert x (fst ` set d)" for v
    using keys_dict_set [of x v d] by (metis insert_absorb list.set_map set_append list.simps(15)
      empty_set Un_insert_right sup_bot.right_neutral)
  then show ?case by (auto simp: Cons.IH)
qed simp

lemma distinct_scored: "distinct (map fst d) \<Longrightarrow> distinct (map fst (scored k w n xs d))"
  by (induction xs arbitrary: n d) auto

lemma lookup_scored:
  "map_of (scored k w n xs d) i =
     (if i \<in> set xs \<or> map_of d i \<noteq> None
      then Some ((case map_of d i of None \<Rightarrow> 0 | Some s \<Rightarrow> s) + contribution k w n xs i) else None)"
  by (induction xs arbitrary: n d) (auto split: option.splits)

lemma contribution_notin: "i \<notin> set xs \<Longrightarrow> contribution k w n xs i = 0"
  by (induction xs arbitrary: n) auto

lemma contribution_distinct:
  "distinct xs \<Longrightarrow> j < length xs \<Longrightarrow> contribution k w n xs (xs ! j) = w / of_nat (k + n + j)"
proof (induction xs arbitrary: n j)
  case (Cons x xs)
  then show ?case
    by (cases j) (auto simp: contribution_notin algebra_simps)
qed simp

definition fused_scores :: "pystr list \<Rightarrow> pystr list \<Rightarrow> nat \<Rightarrow> rat \<Rightarrow> rat \<Rightarrow> (pystr \<times> rat) list" where
  "fused_scores lexical vector k wl wv = scored k wv 1 vector (scored k wl 1 lexical [])"

lemma fuse_alt:
  "reciprocal_rank_fuse lexical vector k wl wv =
     sort_key (\<lambda>c. - rc_score c) (map (\<lambda>(i, score). \<lparr>rc_id = i, rc_score = score,
       rc_lexical_rank = map_of (add_ranks lexical) i, rc_vector_rank = map_of (add_ranks vector) i\<rparr>)
       (fused_scores lexical vector k wl wv))"
  by (simp add: reciprocal_rank_fuse_def fused_scores_def scored_def add_scores_def Let_def)

lemma distinct_fused: "distinct (map fst (fused_scores lexical vector k wl wv))"
  by (simp add: fused_scores_def distinct_scored)

lemma ids_fused: "fst ` set (fused_scores lexical vector k wl wv) = set lexical \<union> set vector"
  by (simp add: fused_scores_def keys_scored)

lemma rank_distinct:
  assumes "distinct xs" "j < length xs"
  shows "map_of (add_ranks xs) (xs ! j) = Some (Suc j)"
proof -
  let ?f = "\<lambda>d (rank, i). dict_set i rank d"
  have keep: "i \<notin> set ys \<Longrightarrow> map_of (foldl ?f d (enumerate n ys)) i = map_of d i" for i ys d n
    by (induction ys arbitrary: d n) auto
  have "distinct ys \<Longrightarrow> j < length ys \<Longrightarrow> map_of (foldl ?f d (enumerate n ys)) (ys ! j) = Some (n + j)" for ys j d n
  proof (induction ys arbitrary: d n j)
    case (Cons y ys)
    then show ?case by (cases j) (auto simp: keep)
  qed simp
  from this [OF assms, of "[]" 1] show ?thesis by (simp add: add_ranks_def)
qed

lemma rank_notin: "i \<notin> set xs \<Longrightarrow> map_of (add_ranks xs) i = None"
proof -
  have "i \<notin> set ys \<Longrightarrow> map_of (foldl (\<lambda>d (rank, i). dict_set i rank d) d (enumerate n ys)) i = map_of d i" for ys d n
    by (induction ys arbitrary: d n) auto
  then show "i \<notin> set xs \<Longrightarrow> ?thesis" by (simp add: add_ranks_def)
qed

lemma set_rc_id_fuse: "rc_id ` set (reciprocal_rank_fuse lexical vector k wl wv) = set lexical \<union> set vector"
  using ids_fused [of lexical vector k wl wv] by (force simp: fuse_alt)

lemma distinct_rc_id_fuse: "distinct (map rc_id (reciprocal_rank_fuse lexical vector k wl wv))"
proof -
  let ?c = "\<lambda>(i, score). \<lparr>rc_id = i, rc_score = score, rc_lexical_rank = map_of (add_ranks lexical) i,
    rc_vector_rank = map_of (add_ranks vector) i\<rparr>"
  have "map rc_id (map ?c xs) = map fst xs" for xs
    by (induction xs) auto
  moreover have "mset (map rc_id (sort_key f ys)) = mset (map rc_id ys)" for f :: "RetrievalCandidate \<Rightarrow> rat" and ys
    by (simp only: mset_map mset_sort)
  ultimately have "mset (map rc_id (reciprocal_rank_fuse lexical vector k wl wv)) =
    mset (map fst (fused_scores lexical vector k wl wv))"
    by (simp only: fuse_alt)
  then show ?thesis
    using distinct_fused by (metis mset_eq_imp_distinct_iff)
qed

lemma fuse_candidate:
  assumes "c \<in> set (reciprocal_rank_fuse lexical vector k wl wv)"
  shows "rc_score c = contribution k wl 1 lexical (rc_id c) + contribution k wv 1 vector (rc_id c)"
    and "rc_lexical_rank c = map_of (add_ranks lexical) (rc_id c)"
    and "rc_vector_rank c = map_of (add_ranks vector) (rc_id c)"
proof -
  from assms obtain i s where ins: "(i, s) \<in> set (fused_scores lexical vector k wl wv)"
    and c: "c = \<lparr>rc_id = i, rc_score = s, rc_lexical_rank = map_of (add_ranks lexical) i,
      rc_vector_rank = map_of (add_ranks vector) i\<rparr>"
    by (auto simp: fuse_alt)
  have "map_of (fused_scores lexical vector k wl wv) i = Some s"
    by (rule map_of_is_SomeI [OF distinct_fused ins])
  then have "s = contribution k wl 1 lexical i + contribution k wv 1 vector i"
    by (cases "i \<in> set lexical"; cases "i \<in> set vector")
      (simp_all add: fused_scores_def lookup_scored contribution_notin)
  with c show "rc_score c = contribution k wl 1 lexical (rc_id c) + contribution k wv 1 vector (rc_id c)"
    "rc_lexical_rank c = map_of (add_ranks lexical) (rc_id c)"
    "rc_vector_rank c = map_of (add_ranks vector) (rc_id c)"
    by simp_all
qed

lemma contribution_rank:
  assumes "distinct xs"
  shows "contribution k w 1 xs i = (case map_of (add_ranks xs) i of None \<Rightarrow> 0 | Some r \<Rightarrow> w / of_nat (k + r))"
proof (cases "i \<in> set xs")
  case True
  then obtain j where "j < length xs" "i = xs ! j"
    by (auto simp: in_set_conv_nth)
  with assms show ?thesis
    using contribution_distinct [of xs j k w 1] by (simp add: rank_distinct)
next
  case False
  then show ?thesis by (simp add: rank_notin contribution_notin)
qed

lemma search_ids:
  assumes lex: "\<And>q rows. set (lexical_order ops q rows) \<subseteq> set rows"
    and vec: "\<And>v rows. set (vector_order ops v rows) \<subseteq> set rows"
    and c: "c \<in> set (rr_candidates (search cfg ops table query filters))"
  shows "\<exists>r \<in> set table. row_id r = rc_id c \<and> structured_filter filters r"
proof -
  let ?rows = "filter (structured_filter filters) table"
  let ?vrows = "filter (\<lambda>r. row_embedding r \<noteq> None) ?rows"
  have "set (ranks cfg (lexical_order ops query ?rows)) \<subseteq> row_id ` set ?rows"
    "set (ranks cfg (vector_order ops v ?vrows)) \<subseteq> row_id ` set ?rows" for v
    using lex [of query ?rows] vec [of v ?vrows] unfolding ranks_def
    by (auto dest!: in_set_takeD subsetD)
  moreover have "rc_id c \<in> rc_id ` set (rr_candidates (search cfg ops table query filters))"
    using c by blast
  ultimately have "rc_id c \<in> row_id ` set ?rows"
    unfolding search_def Let_def
    by (auto simp: set_rc_id_fuse split: option.splits prod.splits dest: subsetD)
  then show ?thesis by auto
qed

section \<open>Properties\<close>

text \<open>Fusion ranks by score: the result is sorted by descending score, holds every id of
  either list once and nothing else.\<close>

theorem fuse_sorted_distinct:
  "sorted_wrt (\<lambda>a b. rc_score b \<le> rc_score a) (reciprocal_rank_fuse lexical vector k wl wv) \<and>
   distinct (map rc_id (reciprocal_rank_fuse lexical vector k wl wv)) \<and>
   rc_id ` set (reciprocal_rank_fuse lexical vector k wl wv) = set lexical \<union> set vector"
proof (intro conjI)
  have "sorted (map (\<lambda>c. - rc_score c) (reciprocal_rank_fuse lexical vector k wl wv))"
    by (simp add: fuse_alt)
  then show "sorted_wrt (\<lambda>a b. rc_score b \<le> rc_score a) (reciprocal_rank_fuse lexical vector k wl wv)"
    by (simp add: sorted_map)
qed (rule distinct_rc_id_fuse set_rc_id_fuse)+

text \<open>With duplicate-free recall lists, each candidate's score is the sum of
  weight / (k + rank) over the lists that contain it, with the 1-based ranks it reports.\<close>

theorem fuse_score:
  assumes "distinct lexical" "distinct vector"
    and "c \<in> set (reciprocal_rank_fuse lexical vector k wl wv)"
  shows "rc_score c =
    (case rc_lexical_rank c of None \<Rightarrow> 0 | Some r \<Rightarrow> wl / of_nat (k + r)) +
    (case rc_vector_rank c of None \<Rightarrow> 0 | Some r \<Rightarrow> wv / of_nat (k + r))"
  using fuse_candidate [OF assms(3)] assms(1,2) by (simp add: contribution_rank del: One_nat_def)

theorem fuse_score_witness:
  "(\<lambda>c. rc_score c = 1 / 61 + 1 / 62 \<and> rc_lexical_rank c = Some 1 \<and> rc_vector_rank c = Some 2)
     (hd (reciprocal_rank_fuse [u ''a'', u ''b''] [u ''c'', u ''a''] RRF_K 1 1))"
proof -
  let ?R = "reciprocal_rank_fuse [u ''a'', u ''b''] [u ''c'', u ''a''] RRF_K 1 1"
  have hd: "hd ?R = \<lparr>rc_id = u ''a'', rc_score = 1 / 61 + 1 / 62, rc_lexical_rank = Some 1, rc_vector_rank = Some 2\<rparr>"
    "?R \<noteq> []"
    by (simp_all add: reciprocal_rank_fuse_def add_scores_def add_ranks_def RRF_K_def Let_def insort_key_def)
  then have "hd ?R \<in> set ?R" by (intro hd_in_set)
  from fuse_score [OF _ _ this] hd(1) show ?thesis by simp
qed

text \<open>Filters come before recall: whatever the two recall orders do with the rows they are
  given, every returned candidate is a stored row that passes all the structured filters.\<close>

theorem search_respects_filters:
  assumes "\<And>q rows. set (lexical_order ops q rows) \<subseteq> set rows"
    and "\<And>v rows. set (vector_order ops v rows) \<subseteq> set rows"
    and "c \<in> set (rr_candidates (search cfg ops table query filters))"
  shows "\<exists>r. r \<in> set table \<and> row_id r = rc_id c \<and> structured_filter filters r"
  using search_ids [OF assms] by auto

theorem search_respects_filters_witness:
  "\<exists>r. r \<in> set [\<lparr>row_id = u ''n'', row_title = None, row_region = Some (u ''yn''), row_publish_date = None,
         row_budget = Some 5, row_cancellation = False, row_embedding = None\<rparr>] \<and> row_id r = u ''n'' \<and>
     structured_filter \<lparr>rf_regions = [u ''yn''], rf_published_from = None, rf_published_to = None,
       rf_min_budget = Some 5\<rparr> r"
proof -
  let ?r = "\<lparr>row_id = u ''n'', row_title = None, row_region = Some (u ''yn''), row_publish_date = None,
    row_budget = Some 5, row_cancellation = False, row_embedding = None\<rparr>"
  let ?f = "\<lparr>rf_regions = [u ''yn''], rf_published_from = None, rf_published_to = None,
    rf_min_budget = Some 5\<rparr>"
  let ?ops = "\<lparr>lexical_order = \<lambda>q rows. rows, vector_order = \<lambda>v rows. rows, embed = \<lambda>q. None\<rparr>"
  let ?cfg = "\<lparr>top_k = 20, cfg_rrf_k = RRF_K, lexical_weight = 1, vector_weight = 1\<rparr>"
  let ?c = "\<lparr>rc_id = u ''n'', rc_score = 1 / 61, rc_lexical_rank = Some 1, rc_vector_rank = None\<rparr>"
  have "?c \<in> set (rr_candidates (search ?cfg ?ops [?r] (u ''q'') ?f))"
    by (simp add: search_def embed_query_def structured_filter_def region_matches_def ranks_def
        py_strip_def py_isspace_def reciprocal_rank_fuse_def add_scores_def add_ranks_def RRF_K_def Let_def)
  from search_respects_filters [OF _ _ this] show ?thesis by simp
qed

text \<open>C0: An embedding failure degrades and never fails: the candidates are then exactly the
  fused lexical list, flagged \<open>vector_unavailable\<close>; and the flag appears in no other case.\<close>

theorem search_degrades:
  "rr_degraded_modes (search cfg ops table query filters) =
     (if py_strip query \<noteq> [] \<and> embed ops query = None then [''vector_unavailable''] else []) \<and>
   (if py_strip query \<noteq> [] \<and> embed ops query = None
    then rr_candidates (search cfg ops table query filters) =
      reciprocal_rank_fuse (ranks cfg (lexical_order ops query (filter (structured_filter filters) table))) []
        (cfg_rrf_k cfg) (lexical_weight cfg) (vector_weight cfg)
    else True)"
  by (auto simp: search_def embed_query_def Let_def split: option.splits prod.splits list.splits)

end
