(* ===== verification/Graph_Nodes.thy ===== *)
theory Graph_Nodes
  imports Semantic Deduplication Retrieval
begin

text \<open>
  The run state with its reducers (\<open>graph/state.py\<close>), the value types of the model ports
  (\<open>llm/types.py\<close>) and the nodes of the query workflow (\<open>graph/nodes.py\<close>).  A node reads the
  state and the injected dependencies and returns a partial update, or raises.
\<close>

section \<open>Carriers of the model ports (llm/types.py)\<close>

record EvidenceSpan =
  es_evidence_id :: pystr
  es_text :: pystr
  es_notice_id :: pystr

record VerifiedOpportunity =
  vo_notice_id :: pystr
  vo_title :: pystr
  vo_region :: "pystr option"
  vo_purchaser :: "pystr option"
  vo_budget_raw :: "pystr option"
  vo_deadline :: "pystr option"
  vo_summary :: "pystr option"
  vo_evidence :: "EvidenceSpan list"

record ReportDraft =
  draft_items :: "ReportItem list"
  draft_freshness_window :: "pystr option"
  draft_source_availability :: "pystr list"
  draft_completeness_warning :: "pystr option"
  draft_assumptions :: "pystr list"

record ModelUsage =
  mu_model :: pystr
  mu_prompt_tokens :: int
  mu_completion_tokens :: int
  mu_latency_ms :: rat
  mu_pricing_snapshot :: pystr

section \<open>Run state (graph/state.py)\<close>

record RetrievalPlan =
  query_terms :: "pystr list"
  plan_regions :: "pystr list"
  plan_published_from :: "datetime option"
  plan_published_to :: "datetime option"
  plan_min_budget :: "int option"

record DuplicateGroup =
  representative_id :: pystr
  member_ids :: "pystr list"
  group_decision :: DuplicateDecision

record NodeEvent =
  ne_node :: string
  ne_event :: string
  ne_status :: string
  ne_timestamp :: pystr
  ne_message :: "pystr option"
  ne_details :: "(string \<times> pystr) list"

record RunState =
  run_id :: pystr
  user_request :: pystr
  status :: RunStatus
  search_intent :: "SearchIntent option"
  retrieval_plan :: "RetrievalPlan option"
  evidence_by_id :: evidence_index
  candidate_notice_ids :: "pystr list"
  duplicate_groups :: "DuplicateGroup list"
  verified_opportunities :: "VerifiedOpportunity list"
  report :: "ReportDraft option"
  node_events :: "NodeEvent list"
  token_usage :: "ModelUsage list"
  errors :: "SerializableError list"
  retry_count :: nat
  degraded_modes :: "string list"
  claim_verifications :: "ClaimVerification list"
  event_seq_offset :: "int option"

definition fresh_state :: "pystr \<Rightarrow> pystr \<Rightarrow> RunState" where
  "fresh_state rid request =
     \<lparr>run_id = rid, user_request = request, status = PENDING, search_intent = None,
      retrieval_plan = None, evidence_by_id = [], candidate_notice_ids = [], duplicate_groups = [],
      verified_opportunities = [], report = None, node_events = [], token_usage = [], errors = [],
      retry_count = 0, degraded_modes = [], claim_verifications = [], event_seq_offset = None\<rparr>"

text \<open>
  A partial update.  A scalar key that is absent leaves the field; a list key is added to the
  accumulated list; the evidence mapping is merged; the report is replaced when present.
\<close>

record StateUpdate =
  up_status :: "RunStatus option"
  up_search_intent :: "SearchIntent option"
  up_retrieval_plan :: "RetrievalPlan option"
  up_evidence :: evidence_index
  up_candidates :: "pystr list"
  up_groups :: "DuplicateGroup list"
  up_opportunities :: "VerifiedOpportunity list"
  up_report :: "ReportDraft option option"
  up_events :: "NodeEvent list"
  up_usage :: "ModelUsage list"
  up_errors :: "SerializableError list"
  up_retry_count :: "nat option"
  up_degraded :: "string list"
  up_verifications :: "ClaimVerification list"

definition no_update :: StateUpdate where
  "no_update = \<lparr>up_status = None, up_search_intent = None, up_retrieval_plan = None, up_evidence = [],
     up_candidates = [], up_groups = [], up_opportunities = [], up_report = None, up_events = [],
     up_usage = [], up_errors = [], up_retry_count = None, up_degraded = [], up_verifications = []\<rparr>"

definition merge_dict :: "('k \<times> 'v) list \<Rightarrow> ('k \<times> 'v) list \<Rightarrow> ('k \<times> 'v) list" where
  "merge_dict left right = foldl (\<lambda>d (k, v). dict_set k v d) left right"

definition override :: "'a \<Rightarrow> 'a option \<Rightarrow> 'a" where
  "override old new = (case new of None \<Rightarrow> old | Some x \<Rightarrow> x)"

definition apply_update :: "RunState \<Rightarrow> StateUpdate \<Rightarrow> RunState" where
  "apply_update s up =
     s\<lparr>status := override (status s) (up_status up),
       search_intent := (case up_search_intent up of None \<Rightarrow> search_intent s | Some i \<Rightarrow> Some i),
       retrieval_plan := (case up_retrieval_plan up of None \<Rightarrow> retrieval_plan s | Some p \<Rightarrow> Some p),
       evidence_by_id := merge_dict (evidence_by_id s) (up_evidence up),
       candidate_notice_ids := candidate_notice_ids s @ up_candidates up,
       duplicate_groups := duplicate_groups s @ up_groups up,
       verified_opportunities := verified_opportunities s @ up_opportunities up,
       report := override (report s) (up_report up),
       node_events := node_events s @ up_events up,
       token_usage := token_usage s @ up_usage up,
       errors := errors s @ up_errors up,
       retry_count := override (retry_count s) (up_retry_count up),
       degraded_modes := degraded_modes s @ up_degraded up,
       claim_verifications := claim_verifications s @ up_verifications up\<rparr>"

section \<open>Dependencies\<close>

text \<open>
  The typed online report with its durable identity (\<open>delivery/reports.py\<close>); a failed delivery
  carries a bounded code and a message.
\<close>

record PersistedReport =
  pr_id :: pystr
  pr_report :: Report
  pr_docx_object_key :: "pystr option"

record DeliveryFailure =
  df_code :: BidScopeErrorCode
  df_message :: pystr

text \<open>What a delivery call raises: the \<open>DeliveryError\<close> a node catches, or anything else.\<close>

datatype port_failure = Delivery_error DeliveryFailure | Other_failure

text \<open>
  The collaborators of \<open>GraphDeps\<close>: every port may raise (\<open>None\<close>, or a message for the intent
  port, which is also given the attempt number); the clock is given the number of events recorded
  so far and the number of the reading inside the node.
\<close>

record GraphDeps =
  intent_parse :: "pystr \<Rightarrow> nat \<Rightarrow> pystr + (SearchIntent \<times> ModelUsage option)"
  duplicate_classify :: "NoticeView \<Rightarrow> NoticeView \<Rightarrow> DuplicateDecision option"
  report_synthesize :: "nat \<Rightarrow> VerifiedOpportunity \<Rightarrow> ReportDraft option"
  searcher :: "pystr \<Rightarrow> RetrievalFilter \<Rightarrow> RetrievalResult option"
  clock_now :: "nat \<Rightarrow> nat \<Rightarrow> datetime"
  load_notice_views :: "pystr list \<Rightarrow> (pystr \<times> NoticeView) list option"
  persist_online_report :: "Report \<Rightarrow> evidence_index \<Rightarrow> ClaimVerification list \<Rightarrow> port_failure + PersistedReport"
  export_docx :: "PersistedReport \<Rightarrow> port_failure + unit"
  verifier :: "(ReportClaim \<Rightarrow> NoticeEvidence list \<Rightarrow> pystr list \<Rightarrow>
      verifier_error + ClaimSupportVerification) option"
  tables :: text_tables

text \<open>The exceptions that leave a node.\<close>

datatype graph_error =
    Attribute_error
  | Extraction_error extraction_error
  | Url_value_error
  | Duplicate_model_error
  | Report_model_error
  | Search_error
  | View_loader_error
  | Delivery_port_error

definition event_at :: "GraphDeps \<Rightarrow> RunState \<Rightarrow> nat \<Rightarrow> string \<Rightarrow> string \<Rightarrow> string \<Rightarrow> NodeEvent" where
  "event_at deps s reading node ev st =
     \<lparr>ne_node = node, ne_event = ev, ne_status = st,
      ne_timestamp = isoformat (clock_now deps (length (node_events s)) reading),
      ne_message = None, ne_details = []\<rparr>"

abbreviation event :: "GraphDeps \<Rightarrow> RunState \<Rightarrow> string \<Rightarrow> string \<Rightarrow> string \<Rightarrow> NodeEvent" where
  "event deps s \<equiv> event_at deps s 0"

definition MAX_SYNTHESIS_RETRIES :: nat where "MAX_SYNTHESIS_RETRIES = 1"
definition MAX_MODEL_RETRIES :: nat where "MAX_MODEL_RETRIES = 2"

section \<open>Intent\<close>

text \<open>The retry loop around the intent port: attempts \<open>n\<close>, \<open>n + 1\<close>, \<dots> while any are left.\<close>

fun parse_attempts :: "GraphDeps \<Rightarrow> pystr \<Rightarrow> nat \<Rightarrow> nat \<Rightarrow> pystr \<Rightarrow> pystr + (SearchIntent \<times> ModelUsage option)" where
  "parse_attempts deps request n 0 last_error = Inl last_error"
| "parse_attempts deps request n (Suc left) last_error =
     (case intent_parse deps request n of
        Inr r \<Rightarrow> Inr r
      | Inl e \<Rightarrow> parse_attempts deps request (Suc n) left e)"

definition parse_intent :: "GraphDeps \<Rightarrow> RunState \<Rightarrow> graph_error + StateUpdate" where
  "parse_intent deps s =
     (case parse_attempts deps (user_request s) 0 (MAX_MODEL_RETRIES + 1) [] of
        Inr (intent, usage) \<Rightarrow>
          Inr (no_update\<lparr>up_search_intent := Some intent, up_status := Some VALIDATE_INTENT,
            up_events := [event deps s ''parse_intent'' ''intent_parsed'' ''ok''],
            up_usage := (case usage of None \<Rightarrow> [] | Some m \<Rightarrow> [m])\<rparr>)
      | Inl e \<Rightarrow>
          Inr (no_update\<lparr>up_status := Some FAILED,
            up_errors := [\<lparr>err_code = MODEL_TRANSIENT_ERROR,
              err_message = u ''intent parsing failed after '' @ show_nat MAX_MODEL_RETRIES @ u '' retries: '' @ e,
              err_details = [(''retries'', show_nat MAX_MODEL_RETRIES)]\<rparr>],
            up_events := [event deps s ''parse_intent'' ''transient_error'' ''error'']\<rparr>))"

definition intent_errors :: "SearchIntent \<Rightarrow> SerializableError list" where
  "intent_errors i =
     (if dates_inverted i
      then [\<lparr>err_code = INTENT_INVALID, err_message = u ''published_from must not be after published_to'',
             err_details = [(''published_from'', format_datetime (published_from i)),
               (''published_to'', format_datetime (published_to i))]\<rparr>] else []) @
     (if budget_inverted i
      then [\<lparr>err_code = INTENT_INVALID, err_message = u ''min_budget must not exceed max_budget'',
             err_details = []\<rparr>] else []) @
     (if topics i = [] \<or> regions i = []
      then [\<lparr>err_code = INTENT_INVALID,
             err_message = u ''intent must specify at least one topic and one region'',
             err_details = []\<rparr>] else [])"

definition validate_intent :: "GraphDeps \<Rightarrow> RunState \<Rightarrow> graph_error + StateUpdate" where
  "validate_intent deps s =
     (case search_intent s of
        None \<Rightarrow> Inl Attribute_error
      | Some intent \<Rightarrow>
          (let es = intent_errors intent
           in if es \<noteq> []
              then Inr (no_update\<lparr>up_status := Some FAILED, up_errors := es,
                     up_events := [event deps s ''validate_intent'' ''intent_invalid'' ''error'']\<rparr>)
              else Inr (no_update\<lparr>up_status := Some CONFIRM_INTENT,
                     up_events := [event deps s ''validate_intent'' ''intent_valid'' ''ok'']\<rparr>)))"

definition needs_confirmation :: "SearchIntent \<Rightarrow> bool" where
  "needs_confirmation i \<longleftrightarrow> schedule i \<noteq> None \<or> confidence i < 1 / 2"

definition confirm_intent :: "GraphDeps \<Rightarrow> RunState \<Rightarrow> graph_error + StateUpdate" where
  "confirm_intent deps s =
     (case search_intent s of
        None \<Rightarrow> Inl Attribute_error
      | Some intent \<Rightarrow>
          if needs_confirmation intent
          then Inr (no_update\<lparr>up_status := Some AWAITING_CONFIRMATION,
                 up_events := [event deps s ''confirm_intent'' ''needs_confirmation'' ''ok'']\<rparr>)
          else Inr (no_update\<lparr>up_status := Some BUILD_RETRIEVAL_PLAN,
                 up_events := [event deps s ''confirm_intent'' ''auto_confirmed'' ''ok'']\<rparr>))"

definition pause :: "GraphDeps \<Rightarrow> RunState \<Rightarrow> graph_error + StateUpdate" where
  "pause deps s = Inr no_update"

definition route_after_confirm :: "RunState \<Rightarrow> string" where
  "route_after_confirm s = (if status s = AWAITING_CONFIRMATION then ''pause'' else ''proceed'')"

section \<open>Retrieval and duplicates\<close>

definition build_retrieval_plan :: "GraphDeps \<Rightarrow> RunState \<Rightarrow> graph_error + StateUpdate" where
  "build_retrieval_plan deps s =
     (case search_intent s of
        None \<Rightarrow> Inl Attribute_error
      | Some i \<Rightarrow>
          Inr (no_update\<lparr>up_retrieval_plan := Some
                 \<lparr>query_terms = uniq (topics i @ expanded_terms i), plan_regions = regions i,
                  plan_published_from = published_from i, plan_published_to = published_to i,
                  plan_min_budget = map_option minor_units (min_budget i)\<rparr>,
               up_status := Some RETRIEVE_CANDIDATES,
               up_events := [event deps s ''build_retrieval_plan'' ''plan_built'' ''ok'']\<rparr>))"

definition plan_filter :: "RetrievalPlan \<Rightarrow> RetrievalFilter" where
  "plan_filter p =
     \<lparr>rf_regions = plan_regions p, rf_published_from = plan_published_from p,
      rf_published_to = plan_published_to p, rf_min_budget = plan_min_budget p\<rparr>"

definition retrieve_candidates :: "GraphDeps \<Rightarrow> RunState \<Rightarrow> graph_error + StateUpdate" where
  "retrieve_candidates deps s =
     (case retrieval_plan s of
        None \<Rightarrow> Inl Attribute_error
      | Some p \<Rightarrow>
          (case searcher deps (py_join [32] (query_terms p)) (plan_filter p) of
             None \<Rightarrow> Inl Search_error
           | Some result \<Rightarrow>
               Inr (no_update\<lparr>up_candidates := map rc_id (rr_candidates result),
                up_degraded := rr_degraded_modes result,
                up_status := Some RESOLVE_DUPLICATES,
                up_events := [event deps s ''retrieve_candidates''
                  (if rr_degraded_modes result \<noteq> [] then ''lexical_only'' else ''hybrid'')
                  (if rr_degraded_modes result \<noteq> [] then ''degraded'' else ''ok'')]\<rparr>)))"

text \<open>The inner loop body for one ordered pair of candidates.\<close>

definition pair_groups ::
  "GraphDeps \<Rightarrow> (pystr \<times> NoticeView) list \<Rightarrow> pystr \<times> pystr \<Rightarrow> graph_error + DuplicateGroup list" where
  "pair_groups deps views st =
     (let (source_id, target_id) = st in
      case (map_of views source_id, map_of views target_id) of
        (Some source, Some target) \<Rightarrow>
          if target_id = source_id then Inr [] else
          (case classify_duplicate (tables deps) [] source target of
             Inl _ \<Rightarrow> Inl Url_value_error
           | Inr c \<Rightarrow>
              (case dc_decision c of
                 AMBIGUOUS \<Rightarrow>
                   (case duplicate_classify deps source target of
                      None \<Rightarrow> Inl Duplicate_model_error
                    | Some d \<Rightarrow> Inr [\<lparr>representative_id = source_id, member_ids = [target_id], group_decision = d\<rparr>])
               | EXACT \<Rightarrow> Inr [\<lparr>representative_id = source_id, member_ids = [target_id], group_decision = EXACT\<rparr>]
               | DISTINCT \<Rightarrow> Inr []))
      | _ \<Rightarrow> Inr [])"

definition resolve_duplicates :: "GraphDeps \<Rightarrow> RunState \<Rightarrow> graph_error + StateUpdate" where
  "resolve_duplicates deps s =
     (let ids = candidate_notice_ids s
      in case load_notice_views deps ids of
           None \<Rightarrow> Inl View_loader_error
         | Some views \<Rightarrow>
             bind_res (map_res (pair_groups deps views) (List.product ids ids)) (\<lambda>gs.
               Inr (no_update\<lparr>up_groups := concat gs, up_status := Some CANDIDATES_RESOLVED,
                 up_events := [event deps s ''resolve_duplicates'' ''duplicates_resolved'' ''ok'']\<rparr>)))"

section \<open>Evidence\<close>

text \<open>Registering one span under its hash; an occupied key grows into a list or a tuple.\<close>

definition add_span :: "NoticeEvidence \<Rightarrow> evidence_index \<Rightarrow> evidence_index" where
  "add_span ev idx =
     dict_set (span_hash ev)
       (case map_of idx (span_hash ev) of
          None \<Rightarrow> OneSpan ev
        | Some (SpanList es) \<Rightarrow> SpanList (es @ [ev])
        | Some (SpanTuple es) \<Rightarrow> SpanTuple (es @ [ev])
        | Some (OneSpan e) \<Rightarrow> SpanTuple [e, ev]) idx"

definition span_reference :: "pystr \<Rightarrow> NoticeEvidence \<Rightarrow> EvidenceSpan" where
  "span_reference vid ev = \<lparr>es_evidence_id = span_hash ev, es_text = ev_text ev, es_notice_id = vid\<rparr>"

definition opportunity_of :: "pystr \<Rightarrow> NoticeView \<Rightarrow> NoticeEvidence list \<Rightarrow> VerifiedOpportunity" where
  "opportunity_of vid view spans =
     \<lparr>vo_notice_id = vid,
      vo_title = (case nv_title view of None \<Rightarrow> vid | Some t \<Rightarrow> if t = [] then vid else t),
      vo_region = nv_region view, vo_purchaser = nv_purchaser view,
      vo_budget_raw = map_option (\<lambda>m. money_text m (nv_budget_currency view)) (nv_budget_minor_units view),
      vo_deadline = None, vo_summary = None, vo_evidence = map (span_reference vid) spans\<rparr>"

fun bind_evidence ::
  "(pystr \<times> NoticeView) list \<Rightarrow> pystr list \<Rightarrow> evidence_index \<Rightarrow> VerifiedOpportunity list \<Rightarrow>
     graph_error + (evidence_index \<times> VerifiedOpportunity list)" where
  "bind_evidence views [] idx verified = Inr (idx, verified)"
| "bind_evidence views (vid # ids) idx verified =
     (case map_of views vid of
        None \<Rightarrow> bind_evidence views ids idx verified
      | Some view \<Rightarrow>
          (let snippets = nv_claim_supporting_texts view
           in case extract_evidence vid (py_join [10] snippets) snippets of
                Inl e \<Rightarrow> Inl (Extraction_error e)
              | Inr spans \<Rightarrow>
                  bind_evidence views ids (foldl (\<lambda>d ev. add_span ev d) idx spans)
                    (verified @ [opportunity_of vid view spans])))"

definition verify_evidence :: "GraphDeps \<Rightarrow> RunState \<Rightarrow> graph_error + StateUpdate" where
  "verify_evidence deps s =
     (case load_notice_views deps (candidate_notice_ids s) of
        None \<Rightarrow> Inl View_loader_error
      | Some views \<Rightarrow>
          bind_res (bind_evidence views (candidate_notice_ids s) [] []) (\<lambda>(idx, verified).
            Inr (no_update\<lparr>up_evidence := idx, up_opportunities := verified,
              up_status := Some SYNTHESIZE_REPORT,
              up_events := [event deps s ''verify_evidence'' ''evidence_verified'' ''ok'']\<rparr>)))"

section \<open>Synthesis and validation\<close>

definition synthesize_report :: "GraphDeps \<Rightarrow> RunState \<Rightarrow> graph_error + StateUpdate" where
  "synthesize_report deps s =
     bind_res (map_res (\<lambda>o'. case report_synthesize deps (retry_count s) o' of
                 None \<Rightarrow> Inl Report_model_error | Some draft \<Rightarrow> Inr (draft_items draft)) (verified_opportunities s)) (\<lambda>itemss.
       Inr (no_update\<lparr>up_report := Some (Some \<lparr>draft_items = concat itemss, draft_freshness_window = None,
              draft_source_availability = [], draft_completeness_warning = None, draft_assumptions = []\<rparr>),
         up_status := Some VALIDATE_REPORT,
         up_events := [event deps s ''synthesize_report'' ''report_synthesized'' ''ok'']\<rparr>))"

definition claim_error_name :: "claim_error \<Rightarrow> pystr" where
  "claim_error_name e =
     (case e of
        Claim_without_citation_id \<Rightarrow> u ''claim_without_citation''
      | Missing_evidence \<Rightarrow> u ''missing_evidence''
      | Citation_version_mismatch \<Rightarrow> u ''citation_version_mismatch''
      | Invalid_offset \<Rightarrow> u ''invalid_offset''
      | Span_hash_mismatch \<Rightarrow> u ''span_hash_mismatch'')"

definition validate_report_node :: "GraphDeps \<Rightarrow> RunState \<Rightarrow> graph_error + StateUpdate" where
  "validate_report_node deps s =
     (case report s of
        None \<Rightarrow> Inl Attribute_error
      | Some draft \<Rightarrow>
          (let result = validate_report (draft_items draft) (evidence_by_id s)
           in if rv_valid result
              then Inr (no_update\<lparr>up_status := Some PERSIST_AND_DELIVER,
                     up_events := [event deps s ''validate_report'' ''report_valid'' ''ok'']\<rparr>)
              else if retry_count s < MAX_SYNTHESIS_RETRIES
              then Inr (no_update\<lparr>up_retry_count := Some (retry_count s + 1), up_report := Some None,
                     up_status := Some SYNTHESIZE_REPORT,
                     up_events := [event deps s ''validate_report'' ''report_invalid_retry'' ''ok'']\<rparr>)
              else Inr (no_update\<lparr>up_status := Some FAILED, up_report := Some None,
                     up_errors := [\<lparr>err_code = EVIDENCE_INSUFFICIENT_ERROR,
                       err_message = u ''Report cited unsupported claims after one synthesis retry; refusing to deliver.'',
                       err_details = [(''validation_errors'', py_join (u '','') (map claim_error_name (rv_errors result)))]\<rparr>],
                     up_events := [event deps s ''validate_report'' ''evidence_insufficient'' ''error'']\<rparr>)))"

definition route_after_validate_report :: "RunState \<Rightarrow> string" where
  "route_after_validate_report s =
     (if status s = SYNTHESIZE_REPORT then ''synthesize_report''
      else if status s = PERSIST_AND_DELIVER then ''persist_and_deliver''
      else ''__end__'')"

section \<open>Semantic verification\<close>

definition evidence_for_claim :: "ReportClaim \<Rightarrow> ReportItem \<Rightarrow> evidence_index \<Rightarrow> NoticeEvidence list" where
  "evidence_for_claim claim item idx =
     concat (map (\<lambda>c. case map_of idx c of
        None \<Rightarrow> []
      | Some b \<Rightarrow> (case span_of_version (item_notice_id item) b of None \<Rightarrow> [] | Some e \<Rightarrow> [e]))
      (citation_ids claim))"

type_synonym verify_fun =
  "ReportClaim \<Rightarrow> NoticeEvidence list \<Rightarrow> pystr list \<Rightarrow> verifier_error + ClaimSupportVerification"

text \<open>One claim: skipped without evidence, a verdict, or a degradation when the verifier raises.\<close>

definition claim_verdict ::
  "verify_fun \<Rightarrow> evidence_index \<Rightarrow> ReportItem \<Rightarrow> nat \<times> ReportClaim \<Rightarrow> ClaimVerification list \<times> bool" where
  "claim_verdict verify idx item ic =
     (let (claim_index, claim) = ic; evidence = evidence_for_claim claim item idx
      in if evidence = [] then ([], False)
         else (case verify claim evidence (citation_ids claim) of
                 Inl _ \<Rightarrow> ([], True)
               | Inr v \<Rightarrow> ([\<lparr>cvf_notice_id = item_notice_id item, cvf_claim_index = claim_index,
                             cvf_verification = v\<rparr>], False)))"

definition draft_verdicts ::
  "verify_fun \<Rightarrow> evidence_index \<Rightarrow> ReportItem list \<Rightarrow> (ClaimVerification list \<times> bool) list" where
  "draft_verdicts verify idx items =
     concat (map (\<lambda>item. map (claim_verdict verify idx item) (enumerate 0 (item_claims item))) items)"

definition verify_semantics :: "GraphDeps \<Rightarrow> RunState \<Rightarrow> graph_error + StateUpdate" where
  "verify_semantics deps s =
     (case (verifier deps, report s) of
        (Some verify, Some draft) \<Rightarrow>
          if draft_items draft = []
          then Inr (no_update\<lparr>up_events := [event deps s ''verify_semantics'' ''semantics_skipped'' ''ok'']\<rparr>)
          else
           (let outcomes = draft_verdicts verify (evidence_by_id s) (draft_items draft);
                degraded = list_ex snd outcomes
            in Inr (no_update\<lparr>up_verifications := concat (map fst outcomes),
                 up_events := [event deps s ''verify_semantics''
                   (if degraded then ''semantics_degraded'' else ''semantics_verified'')
                   (if degraded then ''degraded'' else ''ok'')],
                 up_degraded := (if degraded then [''semantic_verifier_unavailable''] else [])\<rparr>))
      | _ \<Rightarrow> Inr (no_update\<lparr>up_events := [event deps s ''verify_semantics'' ''semantics_skipped'' ''ok'']\<rparr>))"

section \<open>Delivery\<close>

text \<open>\<open>by_notice[notice_id][claim_index]\<close>: later entries overwrite earlier ones.\<close>

definition verdict_for :: "ClaimVerification list \<Rightarrow> pystr \<Rightarrow> nat \<Rightarrow> ClaimSupportVerification option" where
  "verdict_for verifications notice_id claim_index =
     map_option cvf_verification
       (find (\<lambda>e. cvf_notice_id e = notice_id \<and> cvf_claim_index e = claim_index) (rev verifications))"

definition stamp_claim :: "ClaimVerification list \<Rightarrow> pystr \<Rightarrow> nat \<times> ReportClaim \<Rightarrow> ReportClaim" where
  "stamp_claim verifications notice_id ic =
     (let (i, claim) = ic
      in claim\<lparr>support_status := map_option vf_status (verdict_for verifications notice_id i)\<rparr>)"

definition apply_support_status :: "ReportItem list \<Rightarrow> ClaimVerification list \<Rightarrow> ReportItem list" where
  "apply_support_status items verifications =
     map (\<lambda>item. if item_claims item = [] then item
                 else item\<lparr>item_claims := map (stamp_claim verifications (item_notice_id item))
                        (enumerate 0 (item_claims item))\<rparr>) items"

definition intent_conditions :: "SearchIntent \<Rightarrow> (pystr \<times> pystr) list" where
  "intent_conditions i =
     [(u ''topics'', py_join (u '', '') (topics i)), (u ''regions'', py_join (u '', '') (regions i))] @
     (case published_from i of None \<Rightarrow> [] | Some t \<Rightarrow> [(u ''published_from'', isoformat t)]) @
     (case published_to i of None \<Rightarrow> [] | Some t \<Rightarrow> [(u ''published_to'', isoformat t)]) @
     (case min_budget i of None \<Rightarrow> [] | Some m \<Rightarrow>
        [(u ''min_budget'', currency m @ u '' '' @ show_int (minor_units m))]) @
     (case max_budget i of None \<Rightarrow> [] | Some m \<Rightarrow>
        [(u ''max_budget'', currency m @ u '' '' @ show_int (minor_units m))])"

text \<open>A report handed to persistence, with the evidence and verdicts passed beside it.\<close>

record Delivery =
  dl_report :: Report
  dl_evidence :: evidence_index
  dl_verifications :: "ClaimVerification list"

definition delivered_report :: "GraphDeps \<Rightarrow> RunState \<Rightarrow> ReportDraft \<Rightarrow> SearchIntent \<Rightarrow> Report" where
  "delivered_report deps s draft intent =
     \<lparr>rep_run_id = run_id s, generated_at = clock_now deps (length (node_events s)) 0,
      query_conditions = intent_conditions intent,
      freshness_window = draft_freshness_window draft,
      source_availability = draft_source_availability draft,
      completeness_warning = draft_completeness_warning draft,
      rep_items = apply_support_status (draft_items draft) (claim_verifications s)\<rparr>"

text \<open>
  What the node returns or raises, with the report that was persisted: an exception of the
  export other than \<open>DeliveryError\<close> leaves the node after the report is durable.
\<close>

definition persist_and_deliver ::
  "GraphDeps \<Rightarrow> RunState \<Rightarrow> (graph_error + StateUpdate) \<times> Delivery option" where
  "persist_and_deliver deps s =
     (case (report s, search_intent s) of
        (Some draft, Some intent) \<Rightarrow>
          (let rep = delivered_report deps s draft intent
           in case persist_online_report deps rep (evidence_by_id s) (claim_verifications s) of
                Inl Other_failure \<Rightarrow> (Inl Delivery_port_error, None)
              | Inl (Delivery_error f) \<Rightarrow>
                  (Inr (no_update\<lparr>up_status := Some FAILED,
                    up_errors := [\<lparr>err_code = df_code f, err_message = df_message f, err_details = []\<rparr>],
                    up_events := [event_at deps s 1 ''persist_and_deliver'' ''online_report_failed'' ''error'']\<rparr>), None)
              | Inr persisted \<Rightarrow>
                  (case export_docx deps persisted of
                     Inl Other_failure \<Rightarrow> Inl Delivery_port_error
                   | Inl (Delivery_error f) \<Rightarrow>
                       Inr (no_update\<lparr>up_status := Some COMPLETED,
                         up_errors := [\<lparr>err_code = df_code f, err_message = df_message f,
                           err_details = [(''docx_retryable'', u ''True'')]\<rparr>],
                         up_events := [event_at deps s 1 ''persist_and_deliver''
                           ''online_report_ready_docx_failed'' ''degraded'']\<rparr>)
                   | Inr _ \<Rightarrow>
                       Inr (no_update\<lparr>up_status := Some COMPLETED,
                         up_events := [event_at deps s 1 ''persist_and_deliver'' ''report_delivered'' ''ok'']\<rparr>),
                   Some \<lparr>dl_report = rep, dl_evidence = evidence_by_id s,
                     dl_verifications = claim_verifications s\<rparr>))
      | _ \<Rightarrow>
          (Inr (no_update\<lparr>up_status := Some FAILED,
            up_errors := [\<lparr>err_code = DELIVERY_ERROR,
              err_message = u ''validated report or confirmed intent was unavailable'', err_details = []\<rparr>],
            up_events := [event deps s ''persist_and_deliver'' ''online_report_failed'' ''error'']\<rparr>), None))"

end
