(* ===== verification/Models.thy ===== *)
theory Models
  imports Graph_Nodes
begin

text \<open>
  The deterministic offline model ports (\<open>llm/fake.py\<close>) and what the workflow relies on in a
  report model: that it quotes only the evidence it was given.
\<close>

section \<open>Report synthesis\<close>

text \<open>A claim of an opportunity's item cites only spans of that opportunity, and at least one.\<close>

definition quotes_only :: "VerifiedOpportunity \<Rightarrow> ReportItem \<Rightarrow> bool" where
  "quotes_only o' item \<longleftrightarrow>
     item_notice_id item = vo_notice_id o' \<and>
     list_all (\<lambda>claim. citation_ids claim \<noteq> [] \<and>
       set (citation_ids claim) \<subseteq> es_evidence_id ` set (vo_evidence o')) (item_claims item)"

locale quoting_model =
  fixes synthesize :: "nat \<Rightarrow> VerifiedOpportunity \<Rightarrow> ReportDraft option"
  assumes quotes: "synthesize k o' = Some dr \<Longrightarrow> list_all (quotes_only o') (draft_items dr)"
begin

lemma quoted_backed:
  assumes "synthesize k o' = Some dr"
    and "list_all (\<lambda>e. backed (vo_notice_id o') idx (es_evidence_id e)) (vo_evidence o')"
  shows "report_backed idx (draft_items dr)"
  using quotes [OF assms(1)] assms(2)
  by (fastforce simp: report_backed_def claim_backed_def list_all_iff quotes_only_def)

end

text \<open>Python truth of an optional string: neither \<open>None\<close> nor empty.\<close>

definition truthy :: "pystr option \<Rightarrow> bool" where
  "truthy v \<longleftrightarrow> v \<noteq> None \<and> v \<noteq> Some []"

definition field_of :: "string \<Rightarrow> pystr option \<Rightarrow> (pystr \<times> pystr) list" where
  "field_of name v = (if truthy v then [(u name, the v)] else [])"

definition unknown_of :: "string \<Rightarrow> pystr option \<Rightarrow> pystr list" where
  "unknown_of name v = (if truthy v then [] else [u name])"

definition fake_report_item :: "VerifiedOpportunity \<Rightarrow> ReportItem" where
  "fake_report_item o' =
     \<lparr>item_notice_id = vo_notice_id o',
      item_title = vo_title o',
      known_fields = field_of ''region'' (vo_region o') @ field_of ''purchaser'' (vo_purchaser o') @
        field_of ''budget'' (vo_budget_raw o') @ field_of ''deadline'' (vo_deadline o'),
      unknown_fields = unknown_of ''region'' (vo_region o') @ unknown_of ''purchaser'' (vo_purchaser o') @
        unknown_of ''budget'' (vo_budget_raw o') @ unknown_of ''deadline'' (vo_deadline o'),
      relevance_reason = vo_summary o',
      risk_note = None,
      item_citations = map (\<lambda>e. \<lparr>cit_evidence_id = es_evidence_id e, cit_label = Some (es_evidence_id e)\<rparr>)
        (vo_evidence o'),
      item_claims = map (\<lambda>e. \<lparr>claim_text = es_text e, citation_ids = [es_evidence_id e], support_status = None\<rparr>)
        (vo_evidence o')\<rparr>"

definition fake_synthesize :: "nat \<Rightarrow> VerifiedOpportunity \<Rightarrow> ReportDraft option" where
  "fake_synthesize attempt o' =
     Some \<lparr>draft_items = [fake_report_item o'], draft_freshness_window = None,
       draft_source_availability = [], draft_completeness_warning = None, draft_assumptions = []\<rparr>"

definition fake_report_usage :: "VerifiedOpportunity \<Rightarrow> ModelUsage" where
  "fake_report_usage o' =
     \<lparr>mu_model = u ''fake-deterministic'', mu_prompt_tokens = int (length (vo_evidence o')),
      mu_completion_tokens = int (length (item_claims (fake_report_item o'))), mu_latency_ms = 1,
      mu_pricing_snapshot = u ''offline''\<rparr>"

interpretation fake_report: quoting_model fake_synthesize
  by unfold_locales
    (auto simp: fake_synthesize_def fake_report_item_def quotes_only_def list_all_iff)

section \<open>Duplicate classification\<close>

definition fake_duplicate_classify :: "NoticeView \<Rightarrow> NoticeView \<Rightarrow> DuplicateDecision option" where
  "fake_duplicate_classify candidate existing = Some AMBIGUOUS"

text \<open>Each opportunity field is either known with a non-empty value or listed as unknown.\<close>

lemma fake_fields_partition:
  "length (known_fields (fake_report_item o')) + length (unknown_fields (fake_report_item o')) = 4"
  by (simp add: fake_report_item_def field_of_def unknown_of_def)

end
