(* ===== verification/Graph.thy ===== *)
theory Graph
  imports Models
begin

text \<open>
  The compiled query workflow (\<open>graph/builder.py\<close>): the nodes, the edges with their routing
  functions, the interrupt after \<open>pause\<close> and the bound on supersteps, first as a step relation on
  runs and then as the function an invocation computes.
\<close>

section \<open>Nodes and edges\<close>

datatype node =
    Parse_intent | Validate_intent | Confirm_intent | Pause | Build_retrieval_plan
  | Retrieve_candidates | Resolve_duplicates | Verify_evidence | Synthesize_report
  | Validate_report | Verify_semantics | Persist_and_deliver

definition without_delivery :: "graph_error + StateUpdate \<Rightarrow> (graph_error + StateUpdate) \<times> Delivery option" where
  "without_delivery r = (r, None)"

fun run_node :: "GraphDeps \<Rightarrow> node \<Rightarrow> RunState \<Rightarrow> (graph_error + StateUpdate) \<times> Delivery option" where
  "run_node deps Parse_intent s = without_delivery (parse_intent deps s)"
| "run_node deps Validate_intent s = without_delivery (validate_intent deps s)"
| "run_node deps Confirm_intent s = without_delivery (confirm_intent deps s)"
| "run_node deps Pause s = without_delivery (pause deps s)"
| "run_node deps Build_retrieval_plan s = without_delivery (build_retrieval_plan deps s)"
| "run_node deps Retrieve_candidates s = without_delivery (retrieve_candidates deps s)"
| "run_node deps Resolve_duplicates s = without_delivery (resolve_duplicates deps s)"
| "run_node deps Verify_evidence s = without_delivery (verify_evidence deps s)"
| "run_node deps Synthesize_report s = without_delivery (synthesize_report deps s)"
| "run_node deps Validate_report s = without_delivery (validate_report_node deps s)"
| "run_node deps Verify_semantics s = without_delivery (verify_semantics deps s)"
| "run_node deps Persist_and_deliver s = persist_and_deliver deps s"

definition route_after_validate :: "RunState \<Rightarrow> string" where
  "route_after_validate s = (if status s = FAILED then ''failed'' else ''proceed'')"

text \<open>The outgoing edges; \<open>None\<close> is \<open>__end__\<close>.\<close>

fun next_node :: "node \<Rightarrow> RunState \<Rightarrow> node option" where
  "next_node Parse_intent s = Some Validate_intent"
| "next_node Validate_intent s =
     (if route_after_validate s = ''failed'' then None else Some Confirm_intent)"
| "next_node Confirm_intent s =
     (if route_after_confirm s = ''pause'' then Some Pause else Some Build_retrieval_plan)"
| "next_node Pause s = Some Build_retrieval_plan"
| "next_node Build_retrieval_plan s = Some Retrieve_candidates"
| "next_node Retrieve_candidates s = Some Resolve_duplicates"
| "next_node Resolve_duplicates s = Some Verify_evidence"
| "next_node Verify_evidence s = Some Synthesize_report"
| "next_node Synthesize_report s = Some Validate_report"
| "next_node Validate_report s =
     (let r = route_after_validate_report s
      in if r = ''synthesize_report'' then Some Synthesize_report
         else if r = ''persist_and_deliver'' then Some Verify_semantics
         else None)"
| "next_node Verify_semantics s = Some Persist_and_deliver"
| "next_node Persist_and_deliver s = None"

section \<open>Runs\<close>

text \<open>
  A run is at a node, paused before one (interrupted after \<open>pause\<close>), ended, or left by an
  exception.  The reports it has persisted are kept beside its checkpointed state.
\<close>

datatype phase = At node | Paused node | Ended | Crashed graph_error

record Run =
  run_phase :: phase
  run_state :: RunState
  delivered :: "Delivery list"

definition start :: "pystr \<Rightarrow> pystr \<Rightarrow> Run" where
  "start rid request = \<lparr>run_phase = At Parse_intent, run_state = fresh_state rid request, delivered = []\<rparr>"

definition after_node :: "node \<Rightarrow> RunState \<Rightarrow> phase" where
  "after_node n s =
     (case next_node n s of
        None \<Rightarrow> Ended
      | Some m \<Rightarrow> if n = Pause then Paused m else At m)"

definition superstep :: "GraphDeps \<Rightarrow> node \<Rightarrow> Run \<Rightarrow> Run" where
  "superstep deps n c =
     (let (result, d) = run_node deps n (run_state c);
          ds = delivered c @ (case d of None \<Rightarrow> [] | Some x \<Rightarrow> [x])
      in case result of
           Inl e \<Rightarrow> c\<lparr>run_phase := Crashed e, delivered := ds\<rparr>
         | Inr up \<Rightarrow>
             (let s = apply_update (run_state c) up
              in \<lparr>run_phase = after_node n s, run_state = s, delivered = ds\<rparr>))"

inductive graph_step :: "GraphDeps \<Rightarrow> Run \<Rightarrow> Run \<Rightarrow> bool" for deps where
  node_step: "run_phase c = At n \<Longrightarrow> graph_step deps c (superstep deps n c)"
| resume_step: "run_phase c = Paused m \<Longrightarrow> graph_step deps c (c\<lparr>run_phase := At m\<rparr>)"

inductive reachable :: "GraphDeps \<Rightarrow> pystr \<Rightarrow> pystr \<Rightarrow> Run \<Rightarrow> bool" for deps rid request where
  reachable_start: "reachable deps rid request (start rid request)"
| reachable_step: "reachable deps rid request c \<Longrightarrow> graph_step deps c c' \<Longrightarrow> reachable deps rid request c'"

inductive_cases graph_stepE: "graph_step deps c c'"

inductive_simps graph_step_Ended: "graph_step deps \<lparr>run_phase = Ended, run_state = s, delivered = ds\<rparr> c'"

text \<open>One invocation with a bound on supersteps; \<open>None\<close> is \<open>GraphRecursionError\<close>.\<close>

fun invoke :: "GraphDeps \<Rightarrow> nat \<Rightarrow> Run \<Rightarrow> Run option" where
  "invoke deps k c =
     (case run_phase c of
        At n \<Rightarrow> (case k of 0 \<Rightarrow> None | Suc k' \<Rightarrow> invoke deps k' (superstep deps n c))
      | _ \<Rightarrow> Some c)"

declare invoke.simps [simp del]

definition recursion_limit :: nat where "recursion_limit = 16"

definition run_workflow :: "GraphDeps \<Rightarrow> pystr \<Rightarrow> pystr \<Rightarrow> Run option" where
  "run_workflow deps rid request = invoke deps recursion_limit (start rid request)"

definition resume_workflow :: "GraphDeps \<Rightarrow> Run \<Rightarrow> Run option" where
  "resume_workflow deps c =
     invoke deps recursion_limit
       (case run_phase c of Paused m \<Rightarrow> c\<lparr>run_phase := At m\<rparr> | _ \<Rightarrow> c)"

section \<open>Updates\<close>

lemma no_update_simps [simp]:
  "up_status no_update = None" "up_search_intent no_update = None" "up_retrieval_plan no_update = None"
  "up_evidence no_update = []" "up_candidates no_update = []" "up_groups no_update = []"
  "up_opportunities no_update = []" "up_report no_update = None" "up_events no_update = []"
  "up_usage no_update = []" "up_errors no_update = []" "up_retry_count no_update = None"
  "up_degraded no_update = []" "up_verifications no_update = []"
  by (simp_all add: no_update_def)

lemma override_simps [simp]: "override x None = x" "override x (Some y) = y"
  by (simp_all add: override_def)

lemma merge_dict_Nil [simp]: "merge_dict d [] = d"
  by (simp add: merge_dict_def)

lemma dict_set_fresh: "k \<notin> fst ` set d \<Longrightarrow> dict_set k v d = d @ [(k, v)]"
  by (induction k v d rule: dict_set.induct) auto

lemma foldl_dict_set_fresh:
  "distinct (map fst (d @ e)) \<Longrightarrow> foldl (\<lambda>d (k, v). dict_set k v d) d e = d @ e"
proof (induction e arbitrary: d)
  case (Cons kv e)
  then show ?case by (cases kv) (simp add: dict_set_fresh)
qed simp

lemma merge_dict_empty: "distinct (map fst e) \<Longrightarrow> merge_dict [] e = e"
  using foldl_dict_set_fresh [of "[]" e] by (simp add: merge_dict_def)

lemma apply_update_simps [simp]:
  "run_id (apply_update s up) = run_id s"
  "status (apply_update s up) = override (status s) (up_status up)"
  "search_intent (apply_update s up) =
     (case up_search_intent up of None \<Rightarrow> search_intent s | Some i \<Rightarrow> Some i)"
  "retrieval_plan (apply_update s up) =
     (case up_retrieval_plan up of None \<Rightarrow> retrieval_plan s | Some p \<Rightarrow> Some p)"
  "evidence_by_id (apply_update s up) = merge_dict (evidence_by_id s) (up_evidence up)"
  "candidate_notice_ids (apply_update s up) = candidate_notice_ids s @ up_candidates up"
  "verified_opportunities (apply_update s up) = verified_opportunities s @ up_opportunities up"
  "report (apply_update s up) = override (report s) (up_report up)"
  "errors (apply_update s up) = errors s @ up_errors up"
  "retry_count (apply_update s up) = override (retry_count s) (up_retry_count up)"
  "claim_verifications (apply_update s up) = claim_verifications s @ up_verifications up"
  "user_request (apply_update s up) = user_request s"
  "node_events (apply_update s up) = node_events s @ up_events up"
  "degraded_modes (apply_update s up) = degraded_modes s @ up_degraded up"
  by (simp_all add: apply_update_def)


section \<open>The evidence index\<close>

definition index_intact :: "evidence_index \<Rightarrow> bool" where
  "index_intact idx \<longleftrightarrow>
     distinct (map fst idx) \<and>
     (\<forall>k b e. map_of idx k = Some b \<longrightarrow> e \<in> set (candidates b) \<longrightarrow> intact e)"

definition opportunities_indexed :: "evidence_index \<Rightarrow> VerifiedOpportunity list \<Rightarrow> bool" where
  "opportunities_indexed idx opps \<longleftrightarrow>
     list_all (\<lambda>o'. list_all (\<lambda>e. backed (vo_notice_id o') idx (es_evidence_id e)) (vo_evidence o')) opps"

lemma index_intact_Nil [simp]: "index_intact []"
  by (simp add: index_intact_def)

lemma opportunities_indexed_Nil [simp]: "opportunities_indexed idx []"
  by (simp add: opportunities_indexed_def)

lemma map_of_add_span:
  "map_of (add_span ev idx) k =
     (if k = span_hash ev
      then Some (case map_of idx (span_hash ev) of
          None \<Rightarrow> OneSpan ev
        | Some (SpanList es) \<Rightarrow> SpanList (es @ [ev])
        | Some (SpanTuple es) \<Rightarrow> SpanTuple (es @ [ev])
        | Some (OneSpan e) \<Rightarrow> SpanTuple [e, ev])
      else map_of idx k)"
  by (simp add: add_span_def)

lemma candidates_add_span:
  "map_of (add_span ev idx) (span_hash ev) = Some b \<Longrightarrow>
     candidates b = (case map_of idx (span_hash ev) of None \<Rightarrow> [] | Some b' \<Rightarrow> candidates b') @ [ev]"
  by (auto simp: map_of_add_span split: option.splits EvidenceBinding.splits)

lemma index_intact_add_span: "index_intact idx \<Longrightarrow> intact ev \<Longrightarrow> index_intact (add_span ev idx)"
proof -
  assume idx: "index_intact idx" and ev: "intact ev"
  have "distinct (map fst (add_span ev idx))"
    using idx by (auto simp: index_intact_def add_span_def)
  moreover have "intact e" if "map_of (add_span ev idx) k = Some b" "e \<in> set (candidates b)" for k b e
  proof (cases "k = span_hash ev")
    case True
    with that candidates_add_span [of ev idx b] ev idx show ?thesis
      by (auto simp: index_intact_def split: option.splits)
  next
    case False
    with that idx show ?thesis by (auto simp: map_of_add_span index_intact_def)
  qed
  ultimately show ?thesis by (auto simp: index_intact_def)
qed

lemma find_append_single: "find P (xs @ [y]) = (case find P xs of None \<Rightarrow> if P y then Some y else None | Some x \<Rightarrow> Some x)"
  by (induction xs) auto

lemma backed_add_span_mono:
  assumes "backed v idx c"
  shows "backed v (add_span ev idx) c"
proof (cases "c = span_hash ev")
  case True
  with assms obtain b e where b: "map_of idx (span_hash ev) = Some b" "span_of_version v b = Some e" "intact e"
    by (auto simp: backed_def split: option.splits)
  obtain b' where b': "map_of (add_span ev idx) (span_hash ev) = Some b'"
    by (auto simp: map_of_add_span)
  have "span_of_version v b' = Some e"
    using b candidates_add_span [OF b'] by (simp add: span_of_version_def find_append_single)
  with b' b(3) True show ?thesis by (simp add: backed_def)
next
  case False
  with assms show ?thesis by (simp add: backed_def map_of_add_span)
qed

lemma backed_add_span:
  assumes "index_intact idx" "intact ev" "notice_version_id ev = v"
  shows "backed v (add_span ev idx) (span_hash ev)"
proof -
  obtain b where b: "map_of (add_span ev idx) (span_hash ev) = Some b"
    by (auto simp: map_of_add_span)
  from candidates_add_span [OF b] have "ev \<in> set (candidates b)" by simp
  from span_of_version_complete [OF this assms(3)] obtain e where e: "span_of_version v b = Some e" by blast
  have "intact e"
    using index_intact_add_span [OF assms(1,2)] b span_of_version_SomeD [OF e]
    by (auto simp: index_intact_def)
  with b e show ?thesis by (simp add: backed_def)
qed

lemma index_intact_fold: "index_intact idx \<Longrightarrow> list_all intact spans \<Longrightarrow>
    index_intact (foldl (\<lambda>d ev. add_span ev d) idx spans)"
  by (induction spans arbitrary: idx) (simp_all add: index_intact_add_span)

lemma backed_fold_mono: "backed v idx c \<Longrightarrow> backed v (foldl (\<lambda>d ev. add_span ev d) idx spans) c"
  by (induction spans arbitrary: idx) (simp_all add: backed_add_span_mono)

lemma backed_fold:
  "index_intact idx \<Longrightarrow> list_all (\<lambda>e. intact e \<and> notice_version_id e = v) spans \<Longrightarrow>
     list_all (\<lambda>e. backed v (foldl (\<lambda>d ev. add_span ev d) idx spans) (span_hash e)) spans"
  by (induction spans arbitrary: idx) (simp_all add: index_intact_add_span backed_fold_mono backed_add_span)

lemma opportunities_indexed_fold:
  "opportunities_indexed idx opps \<Longrightarrow>
     opportunities_indexed (foldl (\<lambda>d ev. add_span ev d) idx spans) opps"
  by (auto simp: opportunities_indexed_def list_all_iff backed_fold_mono)

lemma opportunities_indexed_append:
  "opportunities_indexed idx (xs @ ys) \<longleftrightarrow> opportunities_indexed idx xs \<and> opportunities_indexed idx ys"
  by (simp add: opportunities_indexed_def)

lemma opportunity_of_indexed:
  "list_all (\<lambda>e. backed vid idx (span_hash e)) spans \<Longrightarrow> opportunities_indexed idx [opportunity_of vid view spans]"
  by (simp add: opportunities_indexed_def opportunity_of_def span_reference_def list_all_iff)

lemma bind_evidence_indexed:
  "bind_evidence views ids idx verified = Inr (idx', verified') \<Longrightarrow>
     index_intact idx \<Longrightarrow> opportunities_indexed idx verified \<Longrightarrow>
     index_intact idx' \<and> opportunities_indexed idx' verified'"
proof (induction views ids idx verified rule: bind_evidence.induct)
  case (2 views vid ids idx verified)
  show ?case
  proof (cases "map_of views vid")
    case None
    with 2 show ?thesis by simp
  next
    case (Some view)
    let ?texts = "nv_claim_supporting_texts view"
    obtain spans where spans: "extract_evidence vid (py_join [10] ?texts) ?texts = Inr spans"
      using "2.prems"(1) Some by (auto simp: Let_def split: sum.splits)
    let ?idx = "foldl (\<lambda>d ev. add_span ev d) idx spans"
    from extract_from_sound [OF spans [unfolded extract_evidence_def]]
    have ok: "list_all intact spans" "list_all (\<lambda>e. intact e \<and> notice_version_id e = vid) spans"
      by (auto simp: list_all_iff)
    have "opportunities_indexed ?idx (verified @ [opportunity_of vid view spans])"
      using 2 ok by (simp add: opportunities_indexed_append opportunities_indexed_fold
        opportunity_of_indexed backed_fold)
    with "2.IH" (2) [OF Some refl spans] "2.prems" Some spans ok show ?thesis
      by (simp add: index_intact_fold)
  qed
qed simp

section \<open>What each node leaves behind\<close>

text \<open>The nodes that run before evidence is bound.\<close>

fun unbound :: "node \<Rightarrow> bool" where
  "unbound Synthesize_report = False"
| "unbound Validate_report = False"
| "unbound Verify_semantics = False"
| "unbound Persist_and_deliver = False"
| "unbound _ = True"

definition draft_backed :: "RunState \<Rightarrow> bool" where
  "draft_backed s =
     (case report s of None \<Rightarrow> False | Some dr \<Rightarrow> report_backed (evidence_by_id s) (draft_items dr))"

definition evidence_inv :: "node \<Rightarrow> RunState \<Rightarrow> bool" where
  "evidence_inv n s \<longleftrightarrow>
     (unbound n \<longrightarrow> evidence_by_id s = [] \<and> verified_opportunities s = []) \<and>
     opportunities_indexed (evidence_by_id s) (verified_opportunities s)"

text \<open>What holds of the state when a node is about to run.\<close>

fun node_ready :: "node \<Rightarrow> RunState \<Rightarrow> bool" where
  "node_ready Parse_intent s = (search_intent s = None \<and> status s = PENDING)"
| "node_ready Validate_intent s = (search_intent s \<noteq> None \<or> status s = FAILED)"
| "node_ready Retrieve_candidates s = (search_intent s \<noteq> None \<and> retrieval_plan s \<noteq> None)"
| "node_ready Validate_report s = (search_intent s \<noteq> None \<and> report s \<noteq> None)"
| "node_ready Verify_semantics s = (search_intent s \<noteq> None \<and> draft_backed s)"
| "node_ready Persist_and_deliver s = (search_intent s \<noteq> None \<and> draft_backed s)"
| "node_ready Pause s = (search_intent s \<noteq> None \<and> status s = AWAITING_CONFIRMATION)"
| "node_ready _ s = (search_intent s \<noteq> None)"

lemmas node_defs =
  parse_intent_def validate_intent_def confirm_intent_def pause_def build_retrieval_plan_def
  retrieve_candidates_def resolve_duplicates_def verify_evidence_def synthesize_report_def
  validate_report_node_def verify_semantics_def persist_and_deliver_def without_delivery_def

lemmas route_defs = route_after_validate_def route_after_confirm_def route_after_validate_report_def

lemma node_ready_preserved:
  assumes "node_ready n s" "run_node deps n s = (Inr up, d)" "next_node n (apply_update s up) = Some m"
  shows "node_ready m (apply_update s up)"
  using assms
  by (cases n) (auto simp: node_defs route_defs draft_backed_def bind_res_Inr Let_def
      split: sum.splits option.splits if_splits prod.splits)

lemma evidence_inv_preserved:
  assumes "evidence_inv n s" "run_node deps n s = (Inr up, d)" "next_node n (apply_update s up) = Some m"
  shows "evidence_inv m (apply_update s up)"
proof (cases "n = Verify_evidence")
  case True
  with assms(1) have empty: "evidence_by_id s = []" "verified_opportunities s = []"
    by (auto simp: evidence_inv_def)
  from assms(2) True obtain views idx verified where
    b: "bind_evidence views (candidate_notice_ids s) [] [] = Inr (idx, verified)"
    and up: "up_evidence up = idx" "up_opportunities up = verified"
    by (auto simp: without_delivery_def verify_evidence_def bind_res_Inr split: option.splits)
  from bind_evidence_indexed [OF b] have "index_intact idx" "opportunities_indexed idx verified" by auto
  with assms(3) True empty up show ?thesis
    by (auto simp: evidence_inv_def merge_dict_empty index_intact_def)
next
  case False
  with assms(2) have "up_evidence up = []" "up_opportunities up = []"
    by (cases n; auto simp: node_defs bind_res_Inr Let_def
        split: sum.splits option.splits if_splits prod.splits port_failure.splits)+
  with assms False show ?thesis
    by (cases n) (auto simp: evidence_inv_def Let_def split: if_splits)
qed

lemma deliver_only_at_end:
  assumes "run_node deps n s = (r, Some d)"
  shows "n = Persist_and_deliver"
  using assms by (cases n) (auto simp: without_delivery_def)

lemma retry_bounded:
  assumes "retry_count s \<le> MAX_SYNTHESIS_RETRIES" "run_node deps n s = (Inr up, d)"
  shows "retry_count (apply_update s up) \<le> MAX_SYNTHESIS_RETRIES"
  using assms
  by (cases n) (auto simp: node_defs bind_res_Inr Let_def
      split: sum.splits option.splits if_splits prod.splits port_failure.splits)

section \<open>The invariant of runs\<close>

lemma stamp_claim_citations [simp]: "citation_ids (stamp_claim vs v ic) = citation_ids (snd ic)"
  by (simp add: stamp_claim_def split: prod.split)

lemma claim_backed_stamp [simp]: "claim_backed idx v (stamp_claim vs w ic) \<longleftrightarrow> claim_backed idx v (snd ic)"
  by (simp add: claim_backed_def)

lemma list_all_enumerate_snd: "list_all (\<lambda>ic. P (snd ic)) (enumerate n xs) \<longleftrightarrow> list_all P xs"
  by (induction xs arbitrary: n) auto

lemma report_backed_stamped [simp]:
  "report_backed idx (apply_support_status items vs) \<longleftrightarrow> report_backed idx items"
  unfolding report_backed_def apply_support_status_def list.pred_map
  by (rule arg_cong [of _ _ "\<lambda>P. list_all P items"])
    (auto simp: fun_eq_iff list.pred_map comp_def list_all_enumerate_snd)

definition delivery_backed :: "Delivery \<Rightarrow> bool" where
  "delivery_backed d \<longleftrightarrow> report_backed (dl_evidence d) (rep_items (dl_report d))"

definition run_inv :: "Run \<Rightarrow> bool" where
  "run_inv c \<longleftrightarrow>
     retry_count (run_state c) \<le> MAX_SYNTHESIS_RETRIES \<and>
     list_all (\<lambda>d. delivery_backed d \<and> dl_evidence d = evidence_by_id (run_state c) \<and>
       rep_run_id (dl_report d) = run_id (run_state c)) (delivered c) \<and>
     (case run_phase c of
        At n \<Rightarrow> node_ready n (run_state c) \<and> evidence_inv n (run_state c) \<and> delivered c = []
      | Paused m \<Rightarrow> m = Build_retrieval_plan \<and> node_ready m (run_state c) \<and>
          evidence_inv m (run_state c) \<and> status (run_state c) = AWAITING_CONFIRMATION \<and> delivered c = []
      | Ended \<Rightarrow> (status (run_state c) = FAILED \<and> delivered c = []) \<or>
          (status (run_state c) = COMPLETED \<and> length (delivered c) = 1)
      | Crashed e \<Rightarrow> length (delivered c) \<le> (if e = Delivery_port_error then 1 else 0) \<and>
          (e = Attribute_error \<longrightarrow> search_intent (run_state c) = None \<and> status (run_state c) = FAILED))"

lemma run_inv_start: "run_inv (start rid request)"
  by (simp add: run_inv_def start_def fresh_state_def evidence_inv_def)

lemma pair_groups_Attribute: "pair_groups deps views st = Inl e \<Longrightarrow> e = Url_value_error \<or> e = Duplicate_model_error"
  by (auto simp: pair_groups_def Let_def split: prod.splits option.splits if_splits sum.splits DuplicateDecision.splits)

lemma bind_evidence_Attribute: "bind_evidence views ids idx verified = Inl e \<Longrightarrow> \<exists>x. e = Extraction_error x"
  by (induction views ids idx verified rule: bind_evidence.induct)
    (auto simp: Let_def split: option.splits sum.splits)

lemma crash_cause:
  assumes "node_ready n s" "run_node deps n s = (Inl e, d)"
  shows "(e = Attribute_error \<longrightarrow> search_intent s = None \<and> status s = FAILED) \<and>
         (d \<noteq> None \<longrightarrow> e = Delivery_port_error)"
  using assms
  by (cases n) (auto simp: node_defs bind_res_Inl Let_def draft_backed_def
      split: sum.splits option.splits if_splits prod.splits port_failure.splits
      dest!: map_res_InlD pair_groups_Attribute bind_evidence_Attribute)

lemma pause_status:
  assumes "node_ready Pause s" "run_node deps Pause s = (Inr up, d)"
  shows "status (apply_update s up) = AWAITING_CONFIRMATION"
  using assms by (auto simp: node_defs)

lemma ended_status:
  assumes "node_ready n s" "run_node deps n s = (Inr up, d)" "next_node n (apply_update s up) = None"
  shows "if d = None then status (apply_update s up) = FAILED
         else status (apply_update s up) = COMPLETED"
  using assms
  by (cases n) (auto simp: node_defs route_defs bind_res_Inr Let_def draft_backed_def
      split: sum.splits option.splits if_splits prod.splits port_failure.splits)

lemma delivery_made:
  assumes "node_ready n s" "run_node deps n s = (r, Some d)"
  shows "delivery_backed d \<and> dl_evidence d = evidence_by_id s \<and> rep_run_id (dl_report d) = run_id s"
proof -
  from deliver_only_at_end [OF assms(2)] have n: "n = Persist_and_deliver" .
  with assms show ?thesis
    by (auto simp: persist_and_deliver_def draft_backed_def delivery_backed_def delivered_report_def Let_def
        split: option.splits sum.splits port_failure.splits)
qed

lemma evidence_unchanged_by_delivery:
  "run_node deps n s = (Inr up, Some d) \<Longrightarrow> evidence_by_id (apply_update s up) = evidence_by_id s"
  using deliver_only_at_end [of deps n s "Inr up" d]
  by (auto simp: persist_and_deliver_def Let_def split: option.splits sum.splits port_failure.splits)

lemma run_inv_superstep:
  assumes inv: "run_inv c" and at: "run_phase c = At n"
  shows "run_inv (superstep deps n c)"
proof -
  let ?s = "run_state c"
  from inv at have ready: "node_ready n ?s" and ev: "evidence_inv n ?s" and none: "delivered c = []"
    and retry: "retry_count ?s \<le> MAX_SYNTHESIS_RETRIES"
    by (auto simp: run_inv_def)
  obtain r d where rd: "run_node deps n ?s = (r, d)" by (cases "run_node deps n ?s")
  have made: "d = Some x \<Longrightarrow> delivery_backed x \<and> dl_evidence x = evidence_by_id ?s \<and>
      rep_run_id (dl_report x) = run_id ?s" for x
    using delivery_made [OF ready] rd by blast
  show ?thesis
  proof (cases r)
    case (Inl e)
    with rd crash_cause [OF ready] made none retry show ?thesis
      by (cases d) (auto simp: superstep_def run_inv_def)
  next
    case (Inr up)
    let ?t = "apply_update ?s up"
    have run: "run_node deps n ?s = (Inr up, d)" using rd Inr by simp
    have same: "d = Some x \<Longrightarrow> evidence_by_id ?t = evidence_by_id ?s" for x
      using evidence_unchanged_by_delivery run by blast
    note keep = retry_bounded [OF retry run]
    show ?thesis
    proof (cases "next_node n ?t")
      case None
      with ended_status [OF ready run] made none keep same show ?thesis
        by (cases d) (auto simp: superstep_def run_inv_def after_node_def run
            simp del: apply_update_simps intro: apply_update_simps(1) [symmetric])
    next
      case (Some m)
      have "d = None"
        using deliver_only_at_end [of deps n ?s "Inr up"] run Some by (cases d) auto
      with Some node_ready_preserved [OF ready run Some] evidence_inv_preserved [OF ev run Some]
        pause_status [of ?s deps up d] ready run none keep show ?thesis
        by (auto simp: superstep_def run_inv_def after_node_def simp del: apply_update_simps)
    qed
  qed
qed

lemma run_inv_step: "graph_step deps c c' \<Longrightarrow> run_inv c \<Longrightarrow> run_inv c'"
  by (erule graph_stepE) (auto simp: run_inv_superstep, auto simp: run_inv_def)

lemma reachable_run_inv: "reachable deps rid request c \<Longrightarrow> run_inv c"
  by (induction rule: reachable.induct) (auto simp: run_inv_start run_inv_step)

lemma superstep_run_id: "run_id (run_state (superstep deps n c)) = run_id (run_state c)"
  by (auto simp: superstep_def Let_def split: prod.split sum.split)

lemma reachable_run_id: "reachable deps rid request c \<Longrightarrow> run_id (run_state c) = rid"
  by (induction rule: reachable.induct)
    (auto simp: start_def fresh_state_def superstep_run_id elim!: graph_stepE)

section \<open>Every invocation returns\<close>

text \<open>Supersteps left from a node; a synthesis retry that is still allowed costs two more.\<close>

definition retry_budget :: "RunState \<Rightarrow> nat" where
  "retry_budget s = 2 * (MAX_SYNTHESIS_RETRIES - retry_count s)"

fun rank :: "node \<Rightarrow> nat" where
  "rank Persist_and_deliver = 1"
| "rank Verify_semantics = 2"
| "rank Validate_report = 3"
| "rank Synthesize_report = 4"
| "rank Verify_evidence = 5"
| "rank Resolve_duplicates = 6"
| "rank Retrieve_candidates = 7"
| "rank Build_retrieval_plan = 8"
| "rank Pause = 9"
| "rank Confirm_intent = 10"
| "rank Validate_intent = 11"
| "rank Parse_intent = 12"

definition run_rank :: "Run \<Rightarrow> nat" where
  "run_rank c = (case run_phase c of At n \<Rightarrow> rank n + retry_budget (run_state c) | _ \<Rightarrow> 0)"

definition settled :: "Run \<Rightarrow> bool" where
  "settled c \<longleftrightarrow> (case run_phase c of At n \<Rightarrow> False | _ \<Rightarrow> True)"

lemma rank_decreases:
  assumes "run_node deps n s = (Inr up, d)" "next_node n (apply_update s up) = Some m"
  shows "rank m + retry_budget (apply_update s up) < rank n + retry_budget s"
  using assms
  by (cases n) (auto simp: node_defs route_defs bind_res_Inr Let_def retry_budget_def MAX_SYNTHESIS_RETRIES_def
      split: sum.splits option.splits if_splits prod.splits port_failure.splits)

lemma run_rank_superstep: "run_phase c = At n \<Longrightarrow> run_rank (superstep deps n c) < run_rank c"
proof -
  assume at: "run_phase c = At n"
  have "0 < rank n" by (cases n) simp_all
  with at rank_decreases [of deps n "run_state c"] show ?thesis
    by (cases "run_node deps n (run_state c)")
      (auto simp: superstep_def run_rank_def after_node_def Let_def simp del: apply_update_simps
        split: sum.split option.split)
qed

lemma invoke_At: "run_phase c = At n \<Longrightarrow> invoke deps (Suc k) c = invoke deps k (superstep deps n c)"
  by (subst invoke.simps) simp

lemma invoke_settled: "settled c \<Longrightarrow> invoke deps k c = Some c"
  by (subst invoke.simps) (simp add: settled_def split: phase.splits)

lemma invoke_returns:
  "run_rank c \<le> k \<Longrightarrow> \<exists>c'. invoke deps k c = Some c' \<and> settled c' \<and> (graph_step deps)\<^sup>*\<^sup>* c c'"
proof (induction k arbitrary: c)
  case 0
  have "0 < run_rank c" if "run_phase c = At n" for n
    using that by (cases n) (simp_all add: run_rank_def)
  with 0 have "settled c" by (auto simp: settled_def split: phase.split)
  then show ?case by (auto simp: invoke_settled)
next
  case (Suc k)
  show ?case
  proof (cases "run_phase c")
    case (At n)
    with run_rank_superstep [OF At, of deps] Suc.prems have "run_rank (superstep deps n c) \<le> k" by simp
    from Suc.IH [OF this] obtain c' where
      "invoke deps k (superstep deps n c) = Some c'" "settled c'"
      "(graph_step deps)\<^sup>*\<^sup>* (superstep deps n c) c'" by blast
    with At show ?thesis
      by (auto simp: invoke_At intro: converse_rtranclp_into_rtranclp node_step)
  qed (auto simp: invoke_settled settled_def)
qed

lemma reachable_steps: "(graph_step deps)\<^sup>*\<^sup>* c c' \<Longrightarrow> reachable deps rid request c \<Longrightarrow> reachable deps rid request c'"
  by (induction rule: rtranclp_induct) (auto intro: reachable_step)

lemma run_rank_start: "run_rank (start rid request) \<le> recursion_limit"
  by (simp add: run_rank_def start_def fresh_state_def retry_budget_def MAX_SYNTHESIS_RETRIES_def recursion_limit_def)

section \<open>Quoting models\<close>

text \<open>No report was sent back for another synthesis and none was refused.\<close>

definition never_refused :: "RunState \<Rightarrow> bool" where
  "never_refused s \<longleftrightarrow> retry_count s = 0 \<and>
     list_all (\<lambda>e. ne_event e \<noteq> ''report_invalid_retry'' \<and> ne_event e \<noteq> ''evidence_insufficient'') (node_events s)"

definition accepted :: "Run \<Rightarrow> bool" where
  "accepted c \<longleftrightarrow> never_refused (run_state c) \<and>
     (run_phase c = At Validate_report \<longrightarrow> draft_backed (run_state c))"

lemma event_at_name [simp]: "ne_event (event_at deps s k n ev st) = ev"
  by (simp add: event_at_def)

lemma never_refused_step:
  assumes "never_refused s" "run_node deps n s = (Inr up, d)" "n = Validate_report \<Longrightarrow> draft_backed s"
  shows "never_refused (apply_update s up)"
  using assms
  by (cases n) (auto simp: never_refused_def node_defs bind_res_Inr Let_def draft_backed_def
      split: sum.splits option.splits if_splits prod.splits port_failure.splits)

lemma before_validation:
  "next_node n s = Some Validate_report \<Longrightarrow> n = Synthesize_report"
  by (cases n) (auto simp: Let_def split: if_splits)

context quoting_model
begin

lemma synthesized_backed:
  assumes "report_synthesize deps = synthesize" "evidence_inv Synthesize_report s"
    "run_node deps Synthesize_report s = (Inr up, d)"
  shows "draft_backed (apply_update s up)"
proof -
  from assms(3) obtain itemss where
    itemss: "map_res (\<lambda>o'. case report_synthesize deps (retry_count s) o' of
        None \<Rightarrow> Inl Report_model_error | Some draft \<Rightarrow> Inr (draft_items draft)) (verified_opportunities s) = Inr itemss"
    and up: "up_report up = Some (Some \<lparr>draft_items = concat itemss, draft_freshness_window = None,
      draft_source_availability = [], draft_completeness_warning = None, draft_assumptions = []\<rparr>)"
      "up_evidence up = []"
    by (auto simp: without_delivery_def synthesize_report_def bind_res_Inr)
  have "report_backed (evidence_by_id s) items" if "items \<in> set itemss" for items
  proof -
    from map_res_InrD [OF itemss] that obtain o' dr where
      "o' \<in> set (verified_opportunities s)" "report_synthesize deps (retry_count s) o' = Some dr"
      "items = draft_items dr"
      by (force simp: list_all2_conv_all_nth in_set_conv_nth split: option.splits)
    then show ?thesis
      using assms(1,2) quoted_backed [of "retry_count s" o' dr "evidence_by_id s"]
      by (auto simp: evidence_inv_def opportunities_indexed_def list_all_iff)
  qed
  then show ?thesis
    by (auto simp: draft_backed_def up report_backed_def list_all_iff)
qed

lemma accepted_superstep:
  assumes deps: "report_synthesize deps = synthesize" and inv: "run_inv c" and acc: "accepted c"
    and at: "run_phase c = At n"
  shows "accepted (superstep deps n c)"
proof -
  let ?s = "run_state c"
  obtain r d where rd: "run_node deps n ?s = (r, d)" by (cases "run_node deps n ?s")
  show ?thesis
  proof (cases r)
    case (Inl e)
    with rd acc show ?thesis by (simp add: superstep_def accepted_def)
  next
    case (Inr up)
    let ?t = "apply_update ?s up"
    have run: "run_node deps n ?s = (Inr up, d)" using rd Inr by simp
    have "never_refused ?t"
      using acc at by (intro never_refused_step [OF _ run]) (auto simp: accepted_def)
    moreover have "draft_backed ?t" if "after_node n ?t = At Validate_report"
    proof -
      from that before_validation [of n ?t] have "n = Synthesize_report"
        by (auto simp: after_node_def split: option.splits if_splits)
      with synthesized_backed [OF deps] run inv at show ?thesis
        by (auto simp: run_inv_def simp del: run_node.simps)
    qed
    ultimately show ?thesis by (simp add: superstep_def run accepted_def Let_def)
  qed
qed

lemma reachable_accepted:
  assumes deps: "report_synthesize deps = synthesize" and "reachable deps rid request c"
  shows "accepted c"
  using assms(2)
proof (induction rule: reachable.induct)
  case reachable_start
  then show ?case by (simp add: accepted_def start_def fresh_state_def never_refused_def)
next
  case (reachable_step c c')
  then show ?case
    using reachable_run_inv [OF reachable_step.hyps(1)] accepted_superstep [OF deps]
    by (auto elim!: graph_stepE simp: accepted_def run_inv_def)
qed

end

section \<open>Stamping verdicts\<close>

text \<open>The verdict a claim deserves: none without evidence or when the verifier raised.\<close>

definition own_status ::
  "verify_fun \<Rightarrow> evidence_index \<Rightarrow> ReportItem \<Rightarrow> ReportClaim \<Rightarrow> ClaimSupportStatus option" where
  "own_status verify idx item claim =
     (let evidence = evidence_for_claim claim item idx
      in if evidence = [] then None
         else (case verify claim evidence (citation_ids claim) of
                 Inl _ \<Rightarrow> None | Inr v \<Rightarrow> Some (vf_status v)))"

lemma find_rev_unique:
  assumes "\<And>x. x \<in> set xs \<Longrightarrow> P x \<Longrightarrow> x = y" "y \<in> set xs" "P y"
  shows "find P (rev xs) = Some y"
proof (cases "find P (rev xs)")
  case None
  with find_NoneD [OF None, of y] assms(2,3) show ?thesis by simp
next
  case (Some x)
  with find_SomeD [OF Some] assms(1) show ?thesis by auto
qed

lemma in_claim_verdict:
  "e \<in> set (fst (claim_verdict verify idx item (i, claim))) \<longleftrightarrow>
     evidence_for_claim claim item idx \<noteq> [] \<and>
     (\<exists>v. verify claim (evidence_for_claim claim item idx) (citation_ids claim) = Inr v \<and>
        e = \<lparr>cvf_notice_id = item_notice_id item, cvf_claim_index = i, cvf_verification = v\<rparr>)"
  by (auto simp: claim_verdict_def Let_def split: sum.split)

lemma in_verdicts:
  "e \<in> set (concat (map fst (draft_verdicts verify idx items))) \<longleftrightarrow>
     (\<exists>item \<in> set items. \<exists>i < length (item_claims item).
        e \<in> set (fst (claim_verdict verify idx item (i, item_claims item ! i))))"
proof -
  have "set (map (claim_verdict verify idx item) (enumerate 0 (item_claims item))) =
      (\<lambda>i. claim_verdict verify idx item (i, item_claims item ! i)) ` {..<length (item_claims item)}" for item
    by (force simp: in_set_enumerate_eq image_iff)
  then show ?thesis by (auto simp: draft_verdicts_def)
qed

lemma distinct_notice_item:
  "distinct (map item_notice_id items) \<Longrightarrow> a \<in> set items \<Longrightarrow> b \<in> set items \<Longrightarrow>
     item_notice_id a = item_notice_id b \<Longrightarrow> a = b"
  by (auto simp: distinct_map inj_on_def)

lemma verdict_for_own:
  assumes "distinct (map item_notice_id items)" "item \<in> set items" "i < length (item_claims item)"
  shows "map_option vf_status (verdict_for (concat (map fst (draft_verdicts verify idx items)))
           (item_notice_id item) i) = own_status verify idx item (item_claims item ! i)"
proof -
  define V where "V = concat (map fst (draft_verdicts verify idx items))"
  let ?c = "item_claims item ! i"
  let ?P = "\<lambda>e. cvf_notice_id e = item_notice_id item \<and> cvf_claim_index e = i"
  have only: "evidence_for_claim ?c item idx \<noteq> [] \<and>
      (\<exists>v. verify ?c (evidence_for_claim ?c item idx) (citation_ids ?c) = Inr v \<and>
        x = \<lparr>cvf_notice_id = item_notice_id item, cvf_claim_index = i, cvf_verification = v\<rparr>)"
    if "x \<in> set V" "?P x" for x
  proof -
    from that(1) obtain item' j where item': "item' \<in> set items"
      "x \<in> set (fst (claim_verdict verify idx item' (j, item_claims item' ! j)))"
      unfolding V_def in_verdicts by blast
    with that(2) have same: "item_notice_id item' = item_notice_id item" "j = i"
      by (auto simp: in_claim_verdict)
    with distinct_notice_item [OF assms(1) item'(1) assms(2)] item'(2) show ?thesis
      by (auto simp: in_claim_verdict)
  qed
  show ?thesis
  proof (cases "\<exists>v. evidence_for_claim ?c item idx \<noteq> [] \<and>
      verify ?c (evidence_for_claim ?c item idx) (citation_ids ?c) = Inr v")
    case True
    then obtain v where v: "evidence_for_claim ?c item idx \<noteq> []"
      "verify ?c (evidence_for_claim ?c item idx) (citation_ids ?c) = Inr v" by blast
    let ?e = "\<lparr>cvf_notice_id = item_notice_id item, cvf_claim_index = i, cvf_verification = v\<rparr>"
    have "?e \<in> set (fst (claim_verdict verify idx item (i, ?c)))"
      using v by (simp add: in_claim_verdict)
    then have "?e \<in> set V" unfolding V_def in_verdicts using assms(2,3) by blast
    then have "find ?P (rev V) = Some ?e"
    proof (rule find_rev_unique [rotated])
      show "x = ?e" if "x \<in> set V" "?P x" for x using only [OF that] v(2) by auto
    qed simp
    with v show ?thesis by (simp add: verdict_for_def own_status_def flip: V_def)
  next
    case False
    have "find ?P (rev V) = None"
      unfolding find_None_iff using only False by (metis set_rev)
    with False show ?thesis
      by (auto simp: verdict_for_def own_status_def Let_def simp flip: V_def split: sum.splits)
  qed
qed

end
