(* ===== verification/Executor.thy ===== *)
theory Executor
  imports Graph
begin

text \<open>
  Durable execution (\<open>graph/executor.py\<close>): the run and event tables, the alignment of a
  checkpoint's events with the stored ones, the token-fenced append, \<open>execute\<close>, run creation and
  the recovery of stale runs.  The checkpoint store and the event stream of the compiled graph
  are inputs; between two streamed states the database may be changed by others.
\<close>

section \<open>Tables (persistence/models.py)\<close>

datatype error_payload = Single_error SerializableError | Error_list "SerializableError list"

record QueryRun =
  qr_id :: pystr
  qr_run_key :: pystr
  qr_status :: string
  qr_user_request :: pystr
  qr_search_intent :: "SearchIntent option"
  qr_error :: "error_payload option"
  qr_token_usage :: "ModelUsage list"
  qr_checkpoint_thread_id :: "pystr option"
  qr_execution_token :: "pystr option"
  qr_completed_at :: "datetime option"
  qr_updated_at :: datetime

record EventRow =
  er_run_id :: pystr
  er_seq :: int
  er_timestamp :: datetime
  er_node :: string
  er_event :: string
  er_status :: string
  er_message :: "pystr option"
  er_details :: "(string \<times> pystr) list"

record RunDb =
  query_runs :: "QueryRun list"
  run_events :: "EventRow list"

definition find_run :: "RunDb \<Rightarrow> pystr \<Rightarrow> QueryRun option" where
  "find_run db rid = find (\<lambda>r. qr_id r = rid) (query_runs db)"

text \<open>\<open>UPDATE query_runs SET f WHERE p\<close>: the new tables and the row count.\<close>

definition update_runs :: "(QueryRun \<Rightarrow> bool) \<Rightarrow> (QueryRun \<Rightarrow> QueryRun) \<Rightarrow> RunDb \<Rightarrow> RunDb \<times> nat" where
  "update_runs p f db =
     (db\<lparr>query_runs := map (\<lambda>r. if p r then f r else r) (query_runs db)\<rparr>,
      length (filter p (query_runs db)))"

text \<open>The unique constraint on \<open>(query_run_id, seq)\<close>.\<close>

definition events_unique :: "RunDb \<Rightarrow> bool" where
  "events_unique db \<longleftrightarrow> distinct (map (\<lambda>r. (er_run_id r, er_seq r)) (run_events db))"

section \<open>Small helpers\<close>

text \<open>\<open>_to_datetime\<close> with the wall clock it falls back to.\<close>

definition to_datetime :: "datetime \<Rightarrow> pystr \<Rightarrow> datetime" where
  "to_datetime now value = (case fromisoformat value of None \<Rightarrow> now | Some t \<Rightarrow> t)"

definition run_lock_key :: "pystr \<Rightarrow> int" where
  "run_lock_key rid = from_bytes_signed (take 8 (sha256 (utf8_encode (u ''run::'' @ rid))))"

definition valid_node_names :: "string list" where
  "valid_node_names = [''intent'', ''duplicate'', ''retrieval'', ''report'', ''persist'', ''unknown'']"

definition resolve_node_name :: "string \<Rightarrow> string" where
  "resolve_node_name name = (if name \<in> set valid_node_names then name else ''unknown'')"

text \<open>The driver qualifier that only the ORM's form of the address carries.\<close>

definition to_plain_dsn :: "pystr \<Rightarrow> pystr" where
  "to_plain_dsn url =
     (let q = u ''postgresql+psycopg://''
      in if prefix q url then u ''postgresql://'' @ drop (length q) url else url)"

type_synonym fingerprint = "string \<times> string \<times> string \<times> pystr option \<times> (string \<times> pystr) list"

definition event_fingerprint :: "NodeEvent \<Rightarrow> fingerprint" where
  "event_fingerprint e = (ne_node e, ne_event e, ne_status e, ne_message e, ne_details e)"

definition row_fingerprint :: "EventRow \<Rightarrow> fingerprint" where
  "row_fingerprint r = (er_node r, er_event r, er_status r, er_message r, er_details r)"

section \<open>Reading events\<close>

definition event_rows :: "pystr \<Rightarrow> int option \<Rightarrow> int option \<Rightarrow> RunDb \<Rightarrow> EventRow list" where
  "event_rows rid seq_start seq_end db =
     sort_key er_seq
       (filter (\<lambda>r. er_run_id r = rid \<and>
          (case seq_start of None \<Rightarrow> True | Some a \<Rightarrow> a \<le> er_seq r) \<and>
          (case seq_end of None \<Rightarrow> True | Some b \<Rightarrow> er_seq r \<le> b)) (run_events db))"

definition max_event_seq :: "pystr \<Rightarrow> RunDb \<Rightarrow> int option" where
  "max_event_seq rid db =
     (let seqs = map er_seq (filter (\<lambda>r. er_run_id r = rid) (run_events db))
      in if seqs = [] then None else Some (Max (set seqs)))"

definition next_event_seq :: "pystr \<Rightarrow> RunDb \<Rightarrow> int" where
  "next_event_seq rid db = (case max_event_seq rid db of None \<Rightarrow> 0 | Some m \<Rightarrow> m + 1)"

definition by_seq :: "EventRow list \<Rightarrow> int \<Rightarrow> EventRow option" where
  "by_seq rows q = find (\<lambda>r. er_seq r = q) (rev rows)"

section \<open>Aligning checkpoint and history\<close>

datatype reconcile_error =
    Legacy_history_not_empty
  | Legacy_missing nat
  | Legacy_conflict nat
  | Legacy_trailing nat
  | Negative_event_offset
  | History_gap int
  | History_missing int
  | Checkpoint_conflict int
  | History_trailing int

fun match_legacy :: "(int \<Rightarrow> EventRow option) \<Rightarrow> nat \<Rightarrow> fingerprint list \<Rightarrow> reconcile_error + unit" where
  "match_legacy rows index [] = Inr ()"
| "match_legacy rows index (f # fs) =
     (case rows (int index) of
        None \<Rightarrow> Inl (Legacy_missing index)
      | Some row \<Rightarrow>
          if row_fingerprint row \<noteq> f then Inl (Legacy_conflict index)
          else match_legacy rows (Suc index) fs)"

definition reconcile_legacy :: "pystr \<Rightarrow> NodeEvent list \<Rightarrow> RunDb \<Rightarrow> reconcile_error + (nat \<times> int)" where
  "reconcile_legacy rid events db =
     (if events = []
      then (if max_event_seq rid db \<noteq> None then Inl Legacy_history_not_empty else Inr (0, 0))
      else
       (let fps = map event_fingerprint events;
            rows = event_rows rid (Some 0) (Some (int (length fps) - 1)) db
        in bind_res (match_legacy (by_seq rows) 0 fps) (\<lambda>_.
             case max_event_seq rid db of
               None \<Rightarrow> Inr (length fps, 0)
             | Some m \<Rightarrow> if int (length fps) \<le> m then Inl (Legacy_trailing (length fps)) else Inr (length fps, 0))))"

text \<open>The matching loop; the number matched is the index at which it stops.\<close>

fun match_events ::
  "(int \<Rightarrow> EventRow option) \<Rightarrow> int \<Rightarrow> bool \<Rightarrow> nat \<Rightarrow> fingerprint list \<Rightarrow> reconcile_error + nat" where
  "match_events rows offset require_complete index [] = Inr index"
| "match_events rows offset require_complete index (f # fs) =
     (case rows (offset + int index) of
        None \<Rightarrow> if require_complete then Inl (History_missing (offset + int index)) else Inr index
      | Some row \<Rightarrow>
          if row_fingerprint row \<noteq> f then Inl (Checkpoint_conflict (offset + int index))
          else match_events rows offset require_complete (Suc index) fs)"

definition max_seq_from :: "int \<Rightarrow> EventRow list \<Rightarrow> int" where
  "max_seq_from base rows = (if rows = [] then base else Max (set (map er_seq rows)))"

definition reconcile_event_cursor ::
  "pystr \<Rightarrow> NodeEvent list \<Rightarrow> int option \<Rightarrow> bool \<Rightarrow> RunDb \<Rightarrow> reconcile_error + (nat \<times> int)" where
  "reconcile_event_cursor rid events seq_base require_complete db =
     (case seq_base of
        None \<Rightarrow> reconcile_legacy rid events db
      | Some offset \<Rightarrow>
          if offset < 0 then Inl Negative_event_offset
          else
           (let fps = map event_fingerprint events;
                rows = event_rows rid (Some offset) None db;
                top = max_seq_from (offset - 1) rows
            in case find (\<lambda>q. by_seq rows q = None) [offset..top] of
                 Some missing \<Rightarrow> Inl (History_gap missing)
               | None \<Rightarrow>
                   bind_res (match_events (by_seq rows) offset require_complete 0 fps) (\<lambda>matched.
                     if offset + int (length fps) \<le> top
                     then Inl (History_trailing (offset + int (length fps)))
                     else Inr (matched, offset))))"

section \<open>Ownership\<close>

datatype run_error =
    Ownership_lost pystr
  | Reconciliation reconcile_error
  | Integrity_violation
  | Graph_failure graph_error
  | Node_failure pystr

text \<open>May a caller with this token (or none) write for the run?\<close>

definition token_active :: "pystr option \<Rightarrow> QueryRun \<Rightarrow> bool" where
  "token_active token r =
     (case token of
        None \<Rightarrow> qr_execution_token r = None \<and> qr_status r \<noteq> ''running'' \<and> qr_status r \<noteq> ''retryable''
      | Some t \<Rightarrow> qr_execution_token r = Some t \<and> qr_status r = ''running'')"

definition assert_execution_token :: "pystr \<Rightarrow> pystr option \<Rightarrow> RunDb \<Rightarrow> run_error + unit" where
  "assert_execution_token rid token db =
     (case find_run db rid of
        None \<Rightarrow> Inl (Ownership_lost rid)
      | Some r \<Rightarrow> if token_active token r then Inr () else Inl (Ownership_lost rid))"

text \<open>The fenced heartbeat: a run that is not running under this token raises.\<close>

definition owns :: "pystr \<Rightarrow> pystr option \<Rightarrow> QueryRun \<Rightarrow> bool" where
  "owns rid token r \<longleftrightarrow> qr_id r = rid \<and> qr_status r = ''running'' \<and> token \<noteq> None \<and> qr_execution_token r = token"

definition heartbeat :: "pystr \<Rightarrow> pystr option \<Rightarrow> datetime \<Rightarrow> RunDb \<Rightarrow> run_error + RunDb" where
  "heartbeat rid token now db =
     (case update_runs (owns rid token) (\<lambda>r. r\<lparr>qr_updated_at := now\<rparr>) db of
        (db', n) \<Rightarrow> if n = 0 then Inl (Ownership_lost rid) else Inr db')"

definition event_row :: "datetime \<Rightarrow> pystr \<Rightarrow> int \<Rightarrow> NodeEvent \<Rightarrow> EventRow" where
  "event_row now rid q e =
     \<lparr>er_run_id = rid, er_seq = q, er_timestamp = to_datetime now (ne_timestamp e), er_node = ne_node e,
      er_event = ne_event e, er_status = ne_status e, er_message = ne_message e, er_details = ne_details e\<rparr>"

text \<open>\<open>session.commit()\<close> of new event rows.\<close>

definition insert_events :: "EventRow list \<Rightarrow> RunDb \<Rightarrow> run_error + RunDb" where
  "insert_events rows db =
     (let db' = db\<lparr>run_events := run_events db @ rows\<rparr>
      in if events_unique db' then Inr db' else Inl Integrity_violation)"

text \<open>
  \<open>_append_events\<close>: check or refresh the ownership, run the caller's fence, add
  \<open>events[start:]\<close> at their sequences; any failure leaves the tables as they were.
\<close>

definition append_events ::
  "pystr \<Rightarrow> NodeEvent list \<Rightarrow> nat \<Rightarrow> int \<Rightarrow> (RunDb \<Rightarrow> run_error + RunDb) \<Rightarrow> pystr option \<Rightarrow> datetime \<Rightarrow>
     RunDb \<Rightarrow> run_error + RunDb" where
  "append_events rid events first seq_offset ensure_active token now db =
     (if length events \<le> first then Inr db
      else (case find_run db rid of
         None \<Rightarrow> Inl (Ownership_lost rid)
       | Some r \<Rightarrow>
           bind_res
             (case token of
                None \<Rightarrow> if token_active None r then Inr db else Inl (Ownership_lost rid)
              | Some t \<Rightarrow> heartbeat rid (Some t) now db) (\<lambda>db1.
           bind_res (ensure_active db1)
             (insert_events (map (\<lambda>i. event_row now rid (seq_offset + int i) (events ! i)) [first..<length events])))))"

section \<open>Execution\<close>

text \<open>A thread's checkpoint: its channel values, if any, and whether a node is still to run.\<close>

record Checkpoint =
  ck_values :: "RunState option"
  ck_next :: bool

text \<open>
  What the compiled graph streams: the state after each superstep, each with what others did to
  the database before it arrived, and the exception that ended the stream, if any.
\<close>

record Streaming =
  emitted :: "((RunDb \<Rightarrow> RunDb) \<times> RunState) list"
  stream_error :: "run_error option"

text \<open>The \<open>async for\<close> loop: persist the events beyond those already persisted.\<close>

fun persist_stream ::
  "pystr \<Rightarrow> int \<Rightarrow> (RunDb \<Rightarrow> run_error + RunDb) \<Rightarrow> pystr option \<Rightarrow> datetime \<Rightarrow> nat \<Rightarrow>
     ((RunDb \<Rightarrow> RunDb) \<times> RunState) list \<Rightarrow> RunDb \<Rightarrow> (run_error + nat) \<times> RunDb" where
  "persist_stream rid offset ensure token now persisted [] db = (Inr persisted, db)"
| "persist_stream rid offset ensure token now persisted ((others, s) # rest) db =
     (let db1 = others db; events = node_events s
      in if persisted < length events
         then (case append_events rid events persisted offset ensure token now db1 of
                 Inl e \<Rightarrow> (Inl e, db1)
               | Inr db2 \<Rightarrow> persist_stream rid offset ensure token now (length events) rest db2)
         else persist_stream rid offset ensure token now persisted rest db1)"

text \<open>The attempt's sequence base, read from the checkpoint unless the run starts over.\<close>

definition attempt_offset :: "pystr \<Rightarrow> bool \<Rightarrow> Checkpoint \<Rightarrow> RunDb \<Rightarrow> int option" where
  "attempt_offset rid force_fresh ck db =
     (if force_fresh then Some (next_event_seq rid db)
      else (case ck_values ck of None \<Rightarrow> Some 0 | Some s \<Rightarrow> event_seq_offset s))"

definition checkpoint_events :: "bool \<Rightarrow> Checkpoint \<Rightarrow> NodeEvent list" where
  "checkpoint_events force_fresh ck =
     (if force_fresh then [] else (case ck_values ck of None \<Rightarrow> [] | Some s \<Rightarrow> node_events s))"

definition finished :: "Checkpoint \<Rightarrow> bool" where
  "finished ck \<longleftrightarrow> ck_values ck \<noteq> None \<and> \<not> ck_next ck"

text \<open>
  \<open>execute\<close>.  The checkpoint found before the run and the values found after it are inputs; the
  result is the final values, \<open>None\<close> standing for the empty dictionary, or the exception, with
  the tables.  Resetting a checkpoint for a fresh start touches no table.
\<close>

definition execute ::
  "pystr \<Rightarrow> bool \<Rightarrow> (RunDb \<Rightarrow> run_error + RunDb) \<Rightarrow> pystr option \<Rightarrow> datetime \<Rightarrow> Checkpoint \<Rightarrow>
     (int option \<Rightarrow> Streaming) \<Rightarrow> RunState option \<Rightarrow> RunDb \<Rightarrow> (run_error + RunState option) \<times> RunDb" where
  "execute rid force_fresh ensure token now existing astream final db =
     (if force_fresh \<and> token = None then (Inl (Ownership_lost rid), db)
      else (case assert_execution_token rid token db of
         Inl e \<Rightarrow> (Inl e, db)
       | Inr _ \<Rightarrow>
      (case (if force_fresh then ensure db else Inr db) of
         Inl e \<Rightarrow> (Inl e, db)
       | Inr db1 \<Rightarrow>
           (let offset = attempt_offset rid force_fresh existing db1
            in case reconcile_event_cursor rid (checkpoint_events force_fresh existing) offset
                      (\<not> force_fresh \<and> finished existing) db1 of
                 Inl e \<Rightarrow> (Inl (Reconciliation e), db1)
               | Inr (persisted, base) \<Rightarrow>
                   (case ensure db1 of
                      Inl e \<Rightarrow> (Inl e, db1)
                    | Inr db2 \<Rightarrow>
                        if \<not> force_fresh \<and> finished existing then (Inr (ck_values existing), db2)
                        else
                         (case persist_stream rid base ensure token now persisted (emitted (astream offset)) db2 of
                            (Inl e, db3) \<Rightarrow> (Inl e, db3)
                          | (Inr _, db3) \<Rightarrow>
                              (case stream_error (astream offset) of
                                 Some e \<Rightarrow> (Inl e, db3)
                               | None \<Rightarrow> (Inr final, db3))))))))"

section \<open>Creating runs\<close>

text \<open>Unique constraints of the run table.\<close>

definition runs_unique :: "RunDb \<Rightarrow> bool" where
  "runs_unique db \<longleftrightarrow> distinct (map qr_id (query_runs db)) \<and> distinct (map qr_run_key (query_runs db))"

definition find_run_key :: "RunDb \<Rightarrow> pystr \<Rightarrow> QueryRun option" where
  "find_run_key db key = find (\<lambda>r. qr_run_key r = key) (query_runs db)"

definition pending_run :: "pystr \<Rightarrow> pystr \<Rightarrow> pystr \<Rightarrow> datetime \<Rightarrow> QueryRun" where
  "pending_run rid key request now =
     \<lparr>qr_id = rid, qr_run_key = key, qr_status = ''pending'', qr_user_request = request,
      qr_search_intent = None, qr_error = None, qr_token_usage = [], qr_checkpoint_thread_id = Some rid,
      qr_execution_token = None, qr_completed_at = None, qr_updated_at = now\<rparr>"

text \<open>
  \<open>create_run\<close>: \<open>fresh_key\<close> and \<open>fresh_id\<close> are the two \<open>uuid4\<close> values, \<open>others\<close> what other callers
  commit between the lookup and this caller's commit.  The result is the run's id and whether
  this call created it.
\<close>

definition create_run ::
  "pystr \<Rightarrow> pystr option \<Rightarrow> pystr \<Rightarrow> pystr \<Rightarrow> datetime \<Rightarrow> (RunDb \<Rightarrow> RunDb) \<Rightarrow> RunDb \<Rightarrow>
     (run_error + pystr \<times> bool) \<times> RunDb" where
  "create_run request run_key fresh_key fresh_id now others db =
     (let key = (case run_key of None \<Rightarrow> fresh_key | Some k \<Rightarrow> if k = [] then fresh_key else k)
      in case find_run_key db key of
           Some r \<Rightarrow> (Inr (qr_id r, False), db)
         | None \<Rightarrow>
             (let db1 = others db;
                  db2 = db1\<lparr>query_runs := query_runs db1 @ [pending_run fresh_id key request now]\<rparr>
              in if runs_unique db2 then (Inr (fresh_id, True), db2)
                 else (case find_run_key db1 key of
                         None \<Rightarrow> (Inl Integrity_violation, db1)
                       | Some r \<Rightarrow> (Inr (qr_id r, False), db1))))"

section \<open>Recovering stale runs\<close>

definition stale :: "datetime option \<Rightarrow> QueryRun \<Rightarrow> bool" where
  "stale stale_before r \<longleftrightarrow>
     (case stale_before of None \<Rightarrow> True | Some t \<Rightarrow> instant (qr_updated_at r) < instant t)"

definition make_retryable :: "datetime \<Rightarrow> QueryRun \<Rightarrow> QueryRun" where
  "make_retryable now r = r\<lparr>qr_status := ''retryable'', qr_execution_token := None, qr_updated_at := now\<rparr>"

text \<open>One candidate after the other; \<open>locked\<close> tells whether a live worker holds a run's advisory lock.\<close>

fun recover_running ::
  "(pystr \<Rightarrow> bool) \<Rightarrow> datetime option \<Rightarrow> datetime \<Rightarrow> pystr list \<Rightarrow> nat \<Rightarrow> RunDb \<Rightarrow> nat \<times> RunDb" where
  "recover_running locked stale_before now [] changed db = (changed, db)"
| "recover_running locked stale_before now (rid # rids) changed db =
     (if locked rid then recover_running locked stale_before now rids changed db
      else (case update_runs (\<lambda>r. qr_id r = rid \<and> qr_status r = ''running'' \<and> stale stale_before r)
                   (make_retryable now) db of
              (db', n) \<Rightarrow> recover_running locked stale_before now rids (changed + n) db'))"

definition mark_stale_runs_retryable ::
  "(pystr \<Rightarrow> bool) \<Rightarrow> datetime option \<Rightarrow> datetime \<Rightarrow> RunDb \<Rightarrow> nat \<times> RunDb" where
  "mark_stale_runs_retryable locked stale_before now db =
     (case update_runs (\<lambda>r. qr_status r = ''pending'' \<and> stale stale_before r) (make_retryable now) db of
        (db1, pending) \<Rightarrow>
          recover_running locked stale_before now
            (map qr_id (filter (\<lambda>r. qr_status r = ''running'' \<and> stale stale_before r) (query_runs db)))
            pending db1)"

end
