(* ===== verification/Run_Service.thy ===== *)
theory Run_Service
  imports Executor
begin

text \<open>
  The run lifecycle of \<open>RunService\<close> (\<open>api/dependencies.py\<close>): bounded reservations, claims that
  issue a fresh ownership token, token-fenced status updates, the choice between resuming and
  starting over, and the end of an execution.  Cancellation is the delivery of an exception at
  an \<open>await\<close>: its effect on the tables is the repairing status update.
\<close>

section \<open>Reservations\<close>

record Service =
  active_reservations :: nat
  shutting_down :: bool
  run_tasks :: "pystr list"

definition try_reserve_run :: "nat \<Rightarrow> Service \<Rightarrow> bool \<times> Service" where
  "try_reserve_run limit s =
     (if limit \<le> active_reservations s then (False, s)
      else (True, s\<lparr>active_reservations := active_reservations s + 1\<rparr>))"

definition release_run_reservation :: "Service \<Rightarrow> Service" where
  "release_run_reservation s =
     (if 0 < active_reservations s then s\<lparr>active_reservations := active_reservations s - 1\<rparr> else s)"

datatype capacity_error = Shutting_down | Capacity_exhausted

text \<open>\<open>schedule_run\<close>: the task is retained until \<open>_execute_reserved\<close> has released its slot.\<close>

definition schedule_run :: "nat \<Rightarrow> pystr \<Rightarrow> Service \<Rightarrow> (capacity_error + unit) \<times> Service" where
  "schedule_run limit rid s =
     (if shutting_down s then (Inl Shutting_down, s)
      else (case try_reserve_run limit s of
              (False, s') \<Rightarrow> (Inl Capacity_exhausted, s')
            | (True, s') \<Rightarrow> (Inr (), s'\<lparr>run_tasks := rid # run_tasks s'\<rparr>)))"

definition task_done :: "pystr \<Rightarrow> Service \<Rightarrow> Service" where
  "task_done rid s = (release_run_reservation s)\<lparr>run_tasks := remove1 rid (run_tasks s)\<rparr>"

section \<open>Claims\<close>

definition activate :: "pystr \<Rightarrow> datetime \<Rightarrow> QueryRun \<Rightarrow> QueryRun" where
  "activate token now r = r\<lparr>qr_status := ''running'', qr_execution_token := Some token, qr_updated_at := now\<rparr>"

text \<open>\<open>UPDATE \<dots> RETURNING execution_token\<close> on an eligible run; \<open>token\<close> is \<open>gen_random_uuid()\<close>.\<close>

definition claim_row :: "pystr \<Rightarrow> string \<Rightarrow> pystr \<Rightarrow> datetime \<Rightarrow> RunDb \<Rightarrow> pystr option \<times> RunDb" where
  "claim_row rid eligible token now db =
     (case update_runs (\<lambda>r. qr_id r = rid \<and> qr_status r = eligible) (activate token now) db of
        (db', n) \<Rightarrow> (if n = 0 then None else Some token, db'))"

definition start_run :: "pystr \<Rightarrow> pystr \<Rightarrow> datetime \<Rightarrow> RunDb \<Rightarrow> pystr option \<times> RunDb" where
  "start_run rid token now db = claim_row rid ''pending'' token now db"

datatype claim_refusal = Run_not_found | Run_not_eligible string

definition claim_run :: "pystr \<Rightarrow> string \<Rightarrow> pystr \<Rightarrow> datetime \<Rightarrow> RunDb \<Rightarrow> (claim_refusal + pystr) \<times> RunDb" where
  "claim_run rid eligible token now db =
     (case claim_row rid eligible token now db of
        (Some t, db') \<Rightarrow> (Inr t, db')
      | (None, db') \<Rightarrow>
          (case find_run db' rid of
             None \<Rightarrow> (Inl Run_not_found, db')
           | Some r \<Rightarrow> (Inl (Run_not_eligible (qr_status r)), db')))"

section \<open>Status updates\<close>

definition status_name :: "RunStatus \<Rightarrow> string" where
  "status_name s =
     (case s of
        PENDING \<Rightarrow> ''pending'' | PARSE_INTENT \<Rightarrow> ''parse_intent'' | VALIDATE_INTENT \<Rightarrow> ''validate_intent''
      | AWAITING_CONFIRMATION \<Rightarrow> ''awaiting_confirmation'' | CONFIRM_INTENT \<Rightarrow> ''confirm_intent''
      | BUILD_RETRIEVAL_PLAN \<Rightarrow> ''build_retrieval_plan'' | RETRIEVE_CANDIDATES \<Rightarrow> ''retrieve_candidates''
      | CANDIDATES_RESOLVED \<Rightarrow> ''candidates_resolved'' | RESOLVE_DUPLICATES \<Rightarrow> ''resolve_duplicates''
      | VERIFY_EVIDENCE \<Rightarrow> ''verify_evidence'' | SYNTHESIZE_REPORT \<Rightarrow> ''synthesize_report''
      | VALIDATE_REPORT \<Rightarrow> ''validate_report'' | PERSIST_AND_DELIVER \<Rightarrow> ''persist_and_deliver''
      | COMPLETED \<Rightarrow> ''completed'' | FAILED \<Rightarrow> ''failed'' | RETRYABLE \<Rightarrow> ''retryable''
      | EVIDENCE_INSUFFICIENT \<Rightarrow> ''evidence_insufficient'')"

text \<open>The column changes a fenced status update carries (\<open>values\<close>).\<close>

definition result_error :: "string \<Rightarrow> RunState option \<Rightarrow> error_payload option \<Rightarrow> error_payload option \<Rightarrow> error_payload option" where
  "result_error st result err old =
     (case err of
        Some e \<Rightarrow> Some e
      | None \<Rightarrow>
          (case result of
             None \<Rightarrow> old
           | Some s \<Rightarrow>
               if errors s \<noteq> [] then Some (Error_list (errors s))
               else if st = ''completed'' then None else old))"

definition status_values ::
  "string \<Rightarrow> error_payload option \<Rightarrow> RunState option \<Rightarrow> datetime \<Rightarrow> QueryRun \<Rightarrow> QueryRun" where
  "status_values st err result now r =
     r\<lparr>qr_status := st,
       qr_updated_at := now,
       qr_search_intent := (case result of None \<Rightarrow> qr_search_intent r
          | Some s \<Rightarrow> (case search_intent s of None \<Rightarrow> qr_search_intent r | Some i \<Rightarrow> Some i)),
       qr_error := result_error st result err (qr_error r),
       qr_token_usage := (case result of None \<Rightarrow> qr_token_usage r
          | Some s \<Rightarrow> if token_usage s \<noteq> [] then token_usage s else qr_token_usage r),
       qr_completed_at := (if st = ''completed'' then Some now else qr_completed_at r),
       qr_execution_token := (if st \<noteq> ''running'' then None else qr_execution_token r)\<rparr>"

definition update_status ::
  "pystr \<Rightarrow> string \<Rightarrow> error_payload option \<Rightarrow> RunState option \<Rightarrow> string option \<Rightarrow> pystr option \<Rightarrow> datetime \<Rightarrow>
     RunDb \<Rightarrow> bool \<times> RunDb" where
  "update_status rid st err result expected token now db =
     (if expected = Some ''running'' \<and> token = None then (False, db)
      else (case update_runs
               (\<lambda>r. qr_id r = rid \<and>
                  (case expected of None \<Rightarrow> True
                   | Some e \<Rightarrow> qr_status r = e \<and> (token \<noteq> None \<longrightarrow> qr_execution_token r = token)))
               (status_values st err result now) db of
              (db', n) \<Rightarrow> (n \<noteq> 0, db')))"

section \<open>The end of an execution\<close>

text \<open>What the caller of \<open>execute_run\<close> is handed: the graph's values or a retryable marker.\<close>

datatype run_result = Values "RunState option" | Retryable "SerializableError list"

definition graph_node_error :: "pystr \<Rightarrow> (string \<times> pystr) list \<Rightarrow> SerializableError" where
  "graph_node_error message details =
     \<lparr>err_code = GRAPH_NODE_ERROR, err_message = take 1000 message, err_details = details\<rparr>"

text \<open>
  From the outcome of \<open>execute\<close> to the stored status; \<open>describe\<close> is the text of an exception.
  Ownership loss touches nothing; any other exception makes the run retryable; values with a
  status are stored under the fence.
\<close>

definition settle_execution ::
  "(run_error \<Rightarrow> pystr) \<Rightarrow> pystr \<Rightarrow> pystr \<Rightarrow> datetime \<Rightarrow> run_error + RunState option \<Rightarrow> RunDb \<Rightarrow> run_result \<times> RunDb" where
  "settle_execution describe rid token now outcome db =
     (case outcome of
        Inl (Ownership_lost _) \<Rightarrow> (Retryable [], db)
      | Inl (Reconciliation e) \<Rightarrow>
          (let err = graph_node_error (describe (Reconciliation e)) []
           in (Retryable [err],
               snd (update_status rid ''retryable'' (Some (Single_error err)) None (Some ''running'') (Some token) now db)))
      | Inl e \<Rightarrow>
          (let err = graph_node_error (describe e) []
           in case update_status rid ''retryable'' (Some (Single_error err)) None (Some ''running'') (Some token) now db of
                (applied, db') \<Rightarrow> (Retryable (if applied then [err] else []), db'))
      | Inr None \<Rightarrow> (Values None, db)
      | Inr (Some s) \<Rightarrow>
          (case heartbeat rid (Some token) now db of
             Inl _ \<Rightarrow> (Retryable [], db)
           | Inr db1 \<Rightarrow>
               (case update_status rid (status_name (status s))
                       (if errors s = [] then None else Some (Error_list (errors s)))
                       (Some s) (Some ''running'') (Some token) now db1 of
                  (applied, db') \<Rightarrow> (if applied then Values (Some s) else Retryable [], db'))))"

text \<open>The details a loss of ownership is reported with, after the repair was tried.\<close>

definition repair_details :: "bool \<Rightarrow> (string \<times> pystr) list" where
  "repair_details applied =
     (if applied then [(''repair_applied'', u ''True'')]
      else [(''repair_applied'', u ''False''),
            (''repair_error'', u ''token-fenced status update matched no running owner''),
            (''recovery_path'', u ''stale_run_recovery'')])"

text \<open>
  \<open>_execute_run\<close> once a token is held: the advisory lock, the first heartbeat, the injected test
  failure, then \<open>execute\<close> fenced by the heartbeat, and the settlement.
\<close>

definition execute_claimed ::
  "(run_error \<Rightarrow> pystr) \<Rightarrow> pystr \<Rightarrow> pystr \<Rightarrow> datetime \<Rightarrow> bool \<Rightarrow> pystr option \<Rightarrow> bool \<Rightarrow> Checkpoint \<Rightarrow>
     (int option \<Rightarrow> Streaming) \<Rightarrow> RunState option \<Rightarrow> RunDb \<Rightarrow> run_result \<times> RunDb" where
  "execute_claimed describe rid token now lock_acquired fail_node force_fresh existing astream final db =
     (if \<not> lock_acquired
      then (Retryable [], snd (update_status rid ''retryable'' None None (Some ''running'') (Some token) now db))
      else (case heartbeat rid (Some token) now db of
         Inl e \<Rightarrow>
           (case update_status rid ''retryable'' (Some (Single_error (graph_node_error (describe e) []))) None
                   (Some ''running'') (Some token) now db of
              (applied, db1) \<Rightarrow> (Retryable [graph_node_error (describe e) (repair_details applied)], db1))
       | Inr db1 \<Rightarrow>
           (case fail_node of
              Some node \<Rightarrow>
                (let err = graph_node_error (u ''Test-only injected failure for node '' @ node) [(''node'', node)]
                 in case update_status rid ''retryable'' (Some (Single_error err)) None (Some ''running'') (Some token) now db1 of
                      (applied, db2) \<Rightarrow> (Retryable (if applied then [err] else []), db2))
            | None \<Rightarrow>
                (case execute rid force_fresh (heartbeat rid (Some token) now) (Some token) now existing astream final db1 of
                   (outcome, db2) \<Rightarrow> settle_execution describe rid token now outcome db2))))"

text \<open>\<open>_execute_run\<close> without a claim: the run is started here, or is not pending.\<close>

definition execute_unclaimed ::
  "(run_error \<Rightarrow> pystr) \<Rightarrow> pystr \<Rightarrow> pystr \<Rightarrow> datetime \<Rightarrow> bool \<Rightarrow> pystr option \<Rightarrow> bool \<Rightarrow> Checkpoint \<Rightarrow>
     (int option \<Rightarrow> Streaming) \<Rightarrow> RunState option \<Rightarrow> RunDb \<Rightarrow> run_result \<times> RunDb" where
  "execute_unclaimed describe rid fresh_token now lock_acquired fail_node force_fresh existing astream final db =
     (case start_run rid fresh_token now db of
        (None, db') \<Rightarrow> (Retryable [], db')
      | (Some token, db') \<Rightarrow>
          execute_claimed describe rid token now lock_acquired fail_node force_fresh existing astream final db')"

text \<open>A cancelled execution or claim is repaired to retryable under its token.\<close>

definition persist_cancellation :: "pystr \<Rightarrow> pystr \<Rightarrow> pystr option \<Rightarrow> datetime \<Rightarrow> RunDb \<Rightarrow> RunDb" where
  "persist_cancellation rid message token now db =
     snd (update_status rid ''retryable'' (Some (Single_error (graph_node_error message []))) None
       (Some ''running'') token now db)"

section \<open>Confirm and retry\<close>

definition confirm ::
  "(run_error \<Rightarrow> pystr) \<Rightarrow> pystr \<Rightarrow> pystr \<Rightarrow> datetime \<Rightarrow> bool \<Rightarrow> pystr option \<Rightarrow> Checkpoint \<Rightarrow>
     (int option \<Rightarrow> Streaming) \<Rightarrow> RunState option \<Rightarrow> RunDb \<Rightarrow> (claim_refusal + run_result) \<times> RunDb" where
  "confirm describe rid fresh_token now lock_acquired fail_node existing astream final db =
     (case claim_run rid ''awaiting_confirmation'' fresh_token now db of
        (Inl e, db') \<Rightarrow> (Inl e, db')
      | (Inr token, db') \<Rightarrow>
          (case execute_claimed describe rid token now lock_acquired fail_node False existing astream final db' of
             (r, db'') \<Rightarrow> (Inr r, db'')))"

text \<open>A retry resumes while a node is still to run and starts the request over otherwise.\<close>

definition retry ::
  "(run_error \<Rightarrow> pystr) \<Rightarrow> pystr \<Rightarrow> pystr \<Rightarrow> datetime \<Rightarrow> bool \<Rightarrow> pystr option \<Rightarrow> pystr + Checkpoint \<Rightarrow>
     (bool \<Rightarrow> int option \<Rightarrow> Streaming) \<Rightarrow> RunState option \<Rightarrow> RunDb \<Rightarrow> (claim_refusal + run_result) \<times> RunDb" where
  "retry describe rid fresh_token now lock_acquired fail_node lookup astream final db =
     (case claim_run rid ''retryable'' fresh_token now db of
        (Inl e, db') \<Rightarrow> (Inl e, db')
      | (Inr token, db') \<Rightarrow>
          (case lookup of
             Inl message \<Rightarrow>
               (let err = graph_node_error message []
                in (Inr (Retryable [err]),
                    snd (update_status rid ''retryable'' (Some (Single_error err)) None (Some ''running'') (Some token) now db')))
           | Inr existing \<Rightarrow>
               (let fresh = \<not> ck_next existing
                in case execute_claimed describe rid token now lock_acquired fail_node fresh existing (astream fresh) final db' of
                     (r, db'') \<Rightarrow> (Inr r, db''))))"

section \<open>The system of workers\<close>

text \<open>
  Every statement that any process commits, as a step on the tables and the tokens issued so
  far; a claim issues a token never issued before.
\<close>

inductive commit :: "RunDb \<times> pystr set \<Rightarrow> RunDb \<times> pystr set \<Rightarrow> bool" where
  commit_create: "create_run request key fresh_key fresh_id now (\<lambda>d. d) db = (res, db') \<Longrightarrow> commit (db, ts) (db', ts)"
| commit_claim: "t \<notin> ts \<Longrightarrow> claim_row rid eligible t now db = (res, db') \<Longrightarrow> eligible \<noteq> ''running'' \<Longrightarrow>
    commit (db, ts) (db', insert t ts)"
| commit_status: "update_status rid st err result expected token now db = (b, db') \<Longrightarrow> st \<noteq> ''running'' \<Longrightarrow>
    commit (db, ts) (db', ts)"
| commit_heartbeat: "heartbeat rid token now db = Inr db' \<Longrightarrow> commit (db, ts) (db', ts)"
| commit_events: "append_events rid events first base (heartbeat rid token now) token now db = Inr db' \<Longrightarrow>
    commit (db, ts) (db', ts)"
| commit_recovery: "mark_stale_runs_retryable locked before now db = (n, db') \<Longrightarrow> commit (db, ts) (db', ts)"

inductive_cases commitE: "commit s s'"

text \<open>Some run is being executed under the token.\<close>

definition owned :: "pystr \<Rightarrow> RunDb \<Rightarrow> bool" where
  "owned t db \<longleftrightarrow> list_ex (\<lambda>r. qr_status r = ''running'' \<and> qr_execution_token r = Some t) (query_runs db)"

text \<open>A token is held exactly by running runs, was issued, and no two runs hold the same one.\<close>

definition row_token_ok :: "pystr set \<Rightarrow> QueryRun \<Rightarrow> bool" where
  "row_token_ok ts r \<longleftrightarrow> (qr_status r = ''running'' \<longleftrightarrow> qr_execution_token r \<noteq> None) \<and>
     set_option (qr_execution_token r) \<subseteq> ts"

definition tokens_ok :: "RunDb \<times> pystr set \<Rightarrow> bool" where
  "tokens_ok s \<longleftrightarrow>
     runs_unique (fst s) \<and> list_all (row_token_ok (snd s)) (query_runs (fst s)) \<and>
     (\<forall>r \<in> set (query_runs (fst s)). \<forall>r' \<in> set (query_runs (fst s)).
        qr_execution_token r = qr_execution_token r' \<longrightarrow> qr_execution_token r \<noteq> None \<longrightarrow> qr_id r = qr_id r')"

section \<open>Reservations are balanced\<close>

inductive service_reachable :: "nat \<Rightarrow> Service \<Rightarrow> bool" for limit where
  service_start: "service_reachable limit \<lparr>active_reservations = 0, shutting_down = False, run_tasks = []\<rparr>"
| service_schedule: "service_reachable limit s \<Longrightarrow> schedule_run limit rid s = (r, s') \<Longrightarrow> service_reachable limit s'"
| service_done: "service_reachable limit s \<Longrightarrow> rid \<in> set (run_tasks s) \<Longrightarrow> service_reachable limit (task_done rid s)"
| service_shutdown: "service_reachable limit s \<Longrightarrow> service_reachable limit (s\<lparr>shutting_down := True\<rparr>)"

lemma service_balanced:
  "service_reachable limit s \<Longrightarrow> active_reservations s = length (run_tasks s) \<and> active_reservations s \<le> limit"
proof (induction rule: service_reachable.induct)
  case (service_schedule s rid r s')
  then show ?case by (auto simp: schedule_run_def try_reserve_run_def split: if_splits)
next
  case (service_done s rid)
  then show ?case
    by (auto simp: task_done_def release_run_reservation_def length_remove1)
qed auto

section \<open>Tokens\<close>

lemma update_runs_owned:
  assumes "update_runs p f db = (db', n)"
    and "\<And>r. p r \<Longrightarrow> qr_status (f r) = ''running'' \<Longrightarrow> qr_execution_token (f r) = Some t \<Longrightarrow>
      qr_status r = ''running'' \<and> qr_execution_token r = Some t"
    and "owned t db'"
  shows "owned t db"
proof -
  from assms(1,3) obtain r where r: "r \<in> set (query_runs db)"
    "qr_status (if p r then f r else r) = ''running''" "qr_execution_token (if p r then f r else r) = Some t"
    by (auto simp: update_runs_def owned_def list_ex_iff)
  then have "qr_status r = ''running'' \<and> qr_execution_token r = Some t"
    using assms(2) [of r] by (cases "p r") simp_all
  with r(1) show ?thesis by (auto simp: owned_def list_ex_iff)
qed

lemma owned_cong: "query_runs db = query_runs db' \<Longrightarrow> owned t db = owned t db'"
  by (simp add: owned_def)

lemma heartbeat_owned: "heartbeat rid token now db = Inr db' \<Longrightarrow> owned t db' \<Longrightarrow> owned t db"
  by (auto simp: heartbeat_def split: prod.splits if_splits elim!: update_runs_owned)

lemma insert_events_runs: "insert_events rows db = Inr db' \<Longrightarrow> query_runs db' = query_runs db"
  by (auto simp: insert_events_def Let_def split: if_splits)

lemma append_events_owned:
  assumes "append_events rid events first base (heartbeat rid token now) token now db = Inr db'" "owned t db'"
  shows "owned t db"
proof (cases "length events \<le> first")
  case True
  with assms show ?thesis by (simp add: append_events_def)
next
  case False
  with assms(1) obtain db1 db2 rows where
    "db1 = db \<or> (\<exists>tok. heartbeat rid tok now db = Inr db1)" "heartbeat rid token now db1 = Inr db2"
    "insert_events rows db2 = Inr db'"
    by (auto simp: append_events_def bind_res_Inr split: option.splits if_splits)
  with assms(2) show ?thesis
    using heartbeat_owned insert_events_runs owned_cong by metis
qed

lemma recovery_owned:
  assumes "mark_stale_runs_retryable locked before now db = (n, db')" "owned t db'"
  shows "owned t db"
proof -
  have step: "recover_running locked before now rids c db = (n, db') \<Longrightarrow> owned t db' \<Longrightarrow> owned t db" for rids c n db db'
    by (induction locked before now rids c db arbitrary: n rule: recover_running.induct)
      (auto simp: make_retryable_def split: if_splits prod.splits elim!: update_runs_owned)
  from assms obtain db1 m where "update_runs (\<lambda>r. qr_status r = ''pending'' \<and> stale before r) (make_retryable now) db = (db1, m)"
    "owned t db1"
    by (auto simp: mark_stale_runs_retryable_def split: prod.splits dest: step)
  then show ?thesis
    by (elim update_runs_owned) (auto simp: make_retryable_def)
qed

lemma create_run_owned:
  "create_run request key fresh_key fresh_id now (\<lambda>d. d) db = (res, db') \<Longrightarrow> owned t db' \<Longrightarrow> owned t db"
  by (auto simp: create_run_def Let_def owned_def pending_run_def split: option.splits if_splits)

text \<open>A token that was issued and is not in use never comes into use again.\<close>

lemma commit_unowned:
  assumes "commit (db, ts) (db', ts')" "t \<in> ts" "owned t db'"
  shows "owned t db"
  using assms(1)
proof (cases rule: commit.cases)
  case (commit_claim t' rid eligible now res)
  with assms(2,3) show ?thesis
    by (auto simp: claim_row_def activate_def split: prod.splits elim!: update_runs_owned)
next
  case (commit_status rid st err result expected token now b)
  with assms(3) show ?thesis
    by (auto simp: update_status_def status_values_def split: prod.splits if_splits elim!: update_runs_owned)
qed (use assms(3) in \<open>auto elim: create_run_owned heartbeat_owned append_events_owned recovery_owned\<close>)

lemma commit_tokens_grow: "commit (db, ts) (db', ts') \<Longrightarrow> ts \<subseteq> ts'"
  by (erule commit.cases) auto

lemma commits_unowned:
  assumes "commit\<^sup>*\<^sup>* s s'" "t \<in> snd s" "\<not> owned t (fst s)"
  shows "\<not> owned t (fst s') \<and> t \<in> snd s'"
  using assms
proof (induction rule: rtranclp_induct)
  case (step y z)
  then show ?case
    using commit_unowned [of "fst y" "snd y" "fst z" "snd z" t] commit_tokens_grow [of "fst y" "snd y" "fst z" "snd z"]
    by auto
qed auto

lemma tokens_okD:
  assumes "tokens_ok (db, ts)"
  shows "runs_unique db"
    and "r \<in> set (query_runs db) \<Longrightarrow> row_token_ok ts r"
    and "r \<in> set (query_runs db) \<Longrightarrow> r' \<in> set (query_runs db) \<Longrightarrow>
      qr_execution_token r = qr_execution_token r' \<Longrightarrow> qr_execution_token r \<noteq> None \<Longrightarrow> qr_id r = qr_id r'"
  using assms unfolding tokens_ok_def list_all_iff fst_conv snd_conv by blast+

lemma tokens_okI:
  assumes "runs_unique db" "\<And>r. r \<in> set (query_runs db) \<Longrightarrow> row_token_ok ts r"
    and "\<And>r r'. r \<in> set (query_runs db) \<Longrightarrow> r' \<in> set (query_runs db) \<Longrightarrow>
      qr_execution_token r = qr_execution_token r' \<Longrightarrow> qr_execution_token r \<noteq> None \<Longrightarrow> qr_id r = qr_id r'"
  shows "tokens_ok (db, ts)"
  using assms unfolding tokens_ok_def list_all_iff fst_conv snd_conv by blast

lemma runs_unique_map:
  assumes "query_runs db' = map g (query_runs db)" "\<And>r. qr_id (g r) = qr_id r" "\<And>r. qr_run_key (g r) = qr_run_key r"
  shows "runs_unique db' \<longleftrightarrow> runs_unique db"
  using assms by (simp add: runs_unique_def comp_def)

text \<open>An update that keeps ids and keys, and whose new tokens are old ones of the same row.\<close>

lemma tokens_ok_update:
  assumes ok: "tokens_ok (db, ts)" and upd: "update_runs p f db = (db', n)"
    and keep: "\<And>r. qr_id (f r) = qr_id r \<and> qr_run_key (f r) = qr_run_key r"
    and rows: "\<And>r. p r \<Longrightarrow> row_token_ok ts r \<Longrightarrow> row_token_ok ts (f r) \<and>
      (qr_execution_token (f r) = None \<or> qr_execution_token (f r) = qr_execution_token r)"
  shows "tokens_ok (db', ts)"
proof -
  define g where "g r = (if p r then f r else r)" for r
  have rs: "query_runs db' = map g (query_runs db)" using upd by (auto simp: update_runs_def g_def)
  have g: "qr_id (g r) = qr_id r" "qr_run_key (g r) = qr_run_key r" for r using keep by (auto simp: g_def)
  have row: "row_token_ok ts (g r)" "qr_execution_token (g r) = None \<or> qr_execution_token (g r) = qr_execution_token r"
    if "r \<in> set (query_runs db)" for r
    using rows [of r] tokens_okD(2) [OF ok that] by (auto simp: g_def)
  show ?thesis
  proof (rule tokens_okI)
    show "runs_unique db'" using runs_unique_map [OF rs g] tokens_okD(1) [OF ok] by blast
    show "row_token_ok ts r" if "r \<in> set (query_runs db')" for r using that row by (auto simp: rs)
    fix r r'
    assume "r \<in> set (query_runs db')" "r' \<in> set (query_runs db')"
      and eq: "qr_execution_token r = qr_execution_token r'" "qr_execution_token r \<noteq> None"
    then obtain x x' where x: "x \<in> set (query_runs db)" "r = g x" "x' \<in> set (query_runs db)" "r' = g x'"
      by (auto simp: rs)
    with row(2) [OF x(1)] row(2) [OF x(3)] eq
    have "qr_execution_token x = qr_execution_token x'" "qr_execution_token x \<noteq> None" by auto
    from tokens_okD(3) [OF ok x(1,3) this] x g show "qr_id r = qr_id r'" by simp
  qed
qed

lemma tokens_ok_cong: "query_runs db = query_runs db' \<Longrightarrow> tokens_ok (db, ts) = tokens_ok (db', ts)"
  by (simp add: tokens_ok_def runs_unique_def)

lemma heartbeat_tokens_ok: "heartbeat rid token now db = Inr db' \<Longrightarrow> tokens_ok (db, ts) \<Longrightarrow> tokens_ok (db', ts)"
  by (auto simp: heartbeat_def split: prod.splits if_splits elim!: tokens_ok_update)
    (simp add: row_token_ok_def)

lemma append_events_tokens_ok:
  assumes "append_events rid events first base (heartbeat rid token now) token now db = Inr db'" "tokens_ok (db, ts)"
  shows "tokens_ok (db', ts)"
proof (cases "length events \<le> first")
  case True
  with assms show ?thesis by (simp add: append_events_def)
next
  case False
  with assms(1) obtain db1 db2 rows where
    "db1 = db \<or> (\<exists>tok. heartbeat rid tok now db = Inr db1)" "heartbeat rid token now db1 = Inr db2"
    "insert_events rows db2 = Inr db'"
    by (auto simp: append_events_def bind_res_Inr split: option.splits if_splits)
  with assms(2) show ?thesis
    using heartbeat_tokens_ok insert_events_runs tokens_ok_cong by metis
qed

lemma recovery_tokens_ok:
  assumes "mark_stale_runs_retryable locked before now db = (n, db')" "tokens_ok (db, ts)"
  shows "tokens_ok (db', ts)"
proof -
  have upd: "update_runs p (make_retryable now) db = (db', n) \<Longrightarrow> tokens_ok (db, ts) \<Longrightarrow> tokens_ok (db', ts)" for p db db' n
    by (erule tokens_ok_update [rotated]) (simp_all add: make_retryable_def row_token_ok_def)
  have step: "recover_running locked before now rids c db = (n, db') \<Longrightarrow> tokens_ok (db, ts) \<Longrightarrow> tokens_ok (db', ts)" for rids c n db db'
  proof (induction locked before now rids c db arbitrary: n rule: recover_running.induct)
    case (2 locked stale_before now rid rids changed db)
    show ?case
    proof (cases "locked rid")
      case True
      with 2 show ?thesis by simp
    next
      case False
      let ?p = "\<lambda>r. qr_id r = rid \<and> qr_status r = ''running'' \<and> stale stale_before r"
      obtain db1 m where upd1: "update_runs ?p (make_retryable now) db = (db1, m)"
        by (cases "update_runs ?p (make_retryable now) db")
      have "tokens_ok (db1, ts)"
        using tokens_ok_update [OF "2.prems"(2) upd1] by (simp add: make_retryable_def row_token_ok_def)
      with "2.IH"(2) [OF False upd1 [symmetric]] "2.prems" False upd1 show ?thesis by simp
    qed
  qed simp
  obtain db1 m where "update_runs (\<lambda>r. qr_status r = ''pending'' \<and> stale before r) (make_retryable now) db = (db1, m)"
    by fastforce
  with upd [OF this assms(2)] step assms(1) show ?thesis
    by (simp add: mark_stale_runs_retryable_def)
qed

lemma create_run_tokens_ok:
  assumes "create_run request key fresh_key fresh_id now (\<lambda>d. d) db = (res, db')" "tokens_ok (db, ts)"
  shows "tokens_ok (db', ts)"
proof -
  from assms(1) have "db' = db \<or> (\<exists>k. runs_unique db' \<and> query_runs db' = query_runs db @ [pending_run fresh_id k request now])"
    by (auto simp: create_run_def Let_def split: option.splits if_splits)
  then show ?thesis
  proof
    assume "\<exists>k. runs_unique db' \<and> query_runs db' = query_runs db @ [pending_run fresh_id k request now]"
    then obtain k where k: "runs_unique db'" "query_runs db' = query_runs db @ [pending_run fresh_id k request now]"
      by blast
    have old: "r \<in> set (query_runs db)" if "r \<in> set (query_runs db')" "qr_execution_token r \<noteq> None" for r
      using that by (auto simp: k(2) pending_run_def)
    show ?thesis
    proof (rule tokens_okI [OF k(1)])
      show "row_token_ok ts r" if "r \<in> set (query_runs db')" for r
        using that tokens_okD(2) [OF assms(2)] by (auto simp: k(2) row_token_ok_def pending_run_def)
      show "qr_id r = qr_id r'" if "r \<in> set (query_runs db')" "r' \<in> set (query_runs db')"
        "qr_execution_token r = qr_execution_token r'" "qr_execution_token r \<noteq> None" for r r'
        using tokens_okD(3) [OF assms(2) old old] that by metis
    qed
  qed (use assms(2) in simp)
qed

lemma claim_tokens_ok:
  assumes "claim_row rid eligible t now db = (res, db')" "t \<notin> ts" "tokens_ok (db, ts)"
  shows "tokens_ok (db', insert t ts)"
proof -
  define p where "p r = (qr_id r = rid \<and> qr_status r = eligible)" for r :: QueryRun
  define g where "g r = (if p r then activate t now r else r)" for r :: QueryRun
  have rs: "query_runs db' = map g (query_runs db)"
    using assms(1) by (auto simp: claim_row_def update_runs_def g_def p_def)
  have g: "qr_id (g r) = qr_id r" "qr_run_key (g r) = qr_run_key r" for r
    by (simp_all add: g_def activate_def)
  have old: "qr_execution_token r \<noteq> Some t" if "r \<in> set (query_runs db)" for r
    using tokens_okD(2) [OF assms(3) that] assms(2) by (auto simp: row_token_ok_def)
  have tok: "qr_execution_token (g r) = Some t \<longleftrightarrow> p r" if "r \<in> set (query_runs db)" for r
    using old [OF that] by (simp add: g_def activate_def)
  show ?thesis
  proof (rule tokens_okI)
    show "runs_unique db'" using runs_unique_map [OF rs g] tokens_okD(1) [OF assms(3)] by blast
    show "row_token_ok (insert t ts) r" if "r \<in> set (query_runs db')" for r
      using that tokens_okD(2) [OF assms(3)] by (auto simp: rs g_def activate_def row_token_ok_def)
    fix r r'
    assume "r \<in> set (query_runs db')" "r' \<in> set (query_runs db')"
      and eq: "qr_execution_token r = qr_execution_token r'" "qr_execution_token r \<noteq> None"
    then obtain x x' where x: "x \<in> set (query_runs db)" "r = g x" "x' \<in> set (query_runs db)" "r' = g x'"
      by (auto simp: rs)
    show "qr_id r = qr_id r'"
    proof (cases "p x")
      case True
      then have "p x'" using tok [OF x(1)] tok [OF x(3)] eq(1) x(2,4) by simp
      with True show ?thesis by (simp add: x g p_def)
    next
      case False
      then have "\<not> p x'" using tok [OF x(1)] tok [OF x(3)] eq(1) x(2,4) by simp
      with False have "r = x" "r' = x'" using x(2,4) by (simp_all add: g_def)
      with eq x(1,3) tokens_okD(3) [OF assms(3) x(1,3)] show ?thesis by simp
    qed
  qed
qed

lemma status_values_simps [simp]:
  "qr_id (status_values st err result now r) = qr_id r"
  "qr_run_key (status_values st err result now r) = qr_run_key r"
  "qr_status (status_values st err result now r) = st"
  "qr_execution_token (status_values st err result now r) = (if st \<noteq> ''running'' then None else qr_execution_token r)"
  by (simp_all add: status_values_def)

lemma status_tokens_ok:
  assumes "update_status rid st err result expected token now db = (b, db')" "st \<noteq> ''running''" "tokens_ok (db, ts)"
  shows "tokens_ok (db', ts)"
proof (cases "db' = db")
  case True
  with assms(3) show ?thesis by simp
next
  case False
  with assms(1) obtain p n where "update_runs p (status_values st err result now) db = (db', n)"
    by (auto simp: update_status_def split: if_splits prod.splits)
  then show ?thesis
    by (rule tokens_ok_update [OF assms(3)])
      (simp_all add: assms(2) row_token_ok_def)
qed

lemma commit_tokens_ok: "commit (db, ts) (db', ts') \<Longrightarrow> tokens_ok (db, ts) \<Longrightarrow> tokens_ok (db', ts')"
  by (erule commit.cases)
    (auto intro: create_run_tokens_ok claim_tokens_ok status_tokens_ok heartbeat_tokens_ok
      append_events_tokens_ok recovery_tokens_ok)

end
