(* ===== verification/Executor_Properties.thy ===== *)
theory Executor_Properties
  imports Executor
begin

text \<open>
  The stored events of an attempt mirror the checkpoint's events: alignment accepts exactly
  that, appending keeps it, and an owner whose token was replaced writes nothing.
\<close>

section \<open>Mirrored events\<close>

text \<open>The rows from the base on are the given events, in order and without gaps.\<close>

definition mirrored :: "pystr \<Rightarrow> int \<Rightarrow> NodeEvent list \<Rightarrow> RunDb \<Rightarrow> bool" where
  "mirrored rid base evs db \<longleftrightarrow>
     (let rows = event_rows rid (Some base) None db
      in map er_seq rows = map (\<lambda>i. base + int i) [0..<length evs] \<and>
         map row_fingerprint rows = map event_fingerprint evs)"

lemma insort_key_append:
  "\<forall>y\<in>set ys. f x \<le> f y \<Longrightarrow> insort_key f x (xs @ ys) = insort_key f x xs @ ys"
proof (induction xs)
  case Nil
  then show ?case by (cases ys) auto
qed auto

lemma sort_key_append_sorted:
  assumes "sorted (map f ys)" "\<forall>x\<in>set xs. \<forall>y\<in>set ys. f x \<le> f y"
  shows "sort_key f (xs @ ys) = sort_key f xs @ ys"
  using assms
proof (induction xs)
  case Nil
  then show ?case by (simp add: sort_key_id_if_sorted)
qed (simp add: insort_key_append)

lemma sorted_offsets: "sorted (map (\<lambda>i. base + int i) [m..<n])"
  by (rule sorted_iff_nth_mono [THEN iffD2]) simp

lemma in_event_rows: "r \<in> set (event_rows rid (Some base) None db) \<longleftrightarrow>
    r \<in> set (run_events db) \<and> er_run_id r = rid \<and> base \<le> er_seq r"
  by (auto simp: event_rows_def)

lemma event_row_simps [simp]:
  "er_run_id (event_row now rid q e) = rid" "er_seq (event_row now rid q e) = q"
  "row_fingerprint (event_row now rid q e) = event_fingerprint e"
  by (simp_all add: event_row_def row_fingerprint_def event_fingerprint_def)

lemma mirrored_append:
  assumes "mirrored rid base (take first events) db" "first \<le> length events"
  shows "mirrored rid base events
    (db\<lparr>run_events := run_events db @
        map (\<lambda>i. event_row now rid (base + int i) (events ! i)) [first..<length events]\<rparr>)"
proof -
  let ?new = "map (\<lambda>i. event_row now rid (base + int i) (events ! i)) [first..<length events]"
  let ?rows = "event_rows rid (Some base) None db"
  have seqs: "map er_seq ?rows = map (\<lambda>i. base + int i) [0..<first]"
    and fps: "map row_fingerprint ?rows = map event_fingerprint (take first events)"
    using assms by (simp_all add: mirrored_def Let_def min_absorb2)
  have "er_seq x < base + int first" if "x \<in> set ?rows" for x
  proof -
    have "er_seq x \<in> set (map er_seq ?rows)" using that by simp
    then show ?thesis unfolding seqs by auto
  qed
  then have below: "\<forall>x\<in>set (filter (\<lambda>r. er_run_id r = rid \<and> base \<le> er_seq r) (run_events db)).
      \<forall>y\<in>set ?new. er_seq x \<le> er_seq y"
    by (fastforce simp: in_event_rows)
  have all_new: "filter (\<lambda>r. er_run_id r = rid \<and> base \<le> er_seq r) ?new = ?new"
    by (auto simp: filter_id_conv)
  have rows: "event_rows rid (Some base) None (db\<lparr>run_events := run_events db @ ?new\<rparr>) = ?rows @ ?new"
    using sort_key_append_sorted [OF _ below]
    by (simp add: event_rows_def all_new comp_def sorted_offsets del: filter_map)
  have "[0..<first] @ [first..<length events] = [0..<length events]"
    using assms(2) upt_add_eq_append [of 0 first "length events - first"] by simp
  moreover have "map event_fingerprint (take first events) @ map (\<lambda>i. event_fingerprint (events ! i)) [first..<length events]
      = map event_fingerprint events"
    using assms(2) by (intro nth_equalityI) (auto simp: nth_append)
  ultimately show ?thesis
    unfolding mirrored_def rows Let_def map_append seqs fps
    by (simp add: comp_def flip: map_append)
qed

section \<open>Alignment\<close>

lemma by_seq_SomeD: "by_seq rows q = Some r \<Longrightarrow> r \<in> set rows \<and> er_seq r = q"
  by (auto simp: by_seq_def dest: find_SomeD)

lemma by_seq_None: "by_seq rows q = None \<longleftrightarrow> q \<notin> er_seq ` set rows"
  by (auto simp: by_seq_def find_None_iff)

lemma by_seq_consecutive:
  assumes "map er_seq rows = map (\<lambda>i. base + int i) [0..<n]"
  shows "by_seq rows (base + int i) = (if i < n then Some (rows ! i) else None)"
proof (cases "i < n")
  case True
  have len: "length rows = n" using arg_cong [OF assms, of length] by simp
  have nth: "er_seq (rows ! j) = base + int j" if "j < n" for j
    using arg_cong [OF assms, of "\<lambda>l. l ! j"] that len by simp
  have "base + int i \<in> er_seq ` set rows"
    using nth [OF True] True len by (metis image_eqI nth_mem)
  then obtain r where r: "by_seq rows (base + int i) = Some r"
    by (cases "by_seq rows (base + int i)") (auto simp: by_seq_None)
  from by_seq_SomeD [OF r] obtain j where "j < n" "r = rows ! j" "er_seq r = base + int i"
    using len by (auto simp: in_set_conv_nth)
  with nth have "j = i" by simp
  with r \<open>r = rows ! j\<close> True show ?thesis by simp
next
  case False
  have "set (map er_seq rows) = (\<lambda>i. base + int i) ` {0..<n}" unfolding assms by simp
  with False show ?thesis by (auto simp: by_seq_None)
qed

lemma match_events_iff:
  "match_events f base req i fs = Inr m \<longleftrightarrow>
     i \<le> m \<and> m \<le> i + length fs \<and>
     (\<forall>j. i \<le> j \<longrightarrow> j < m \<longrightarrow> (\<exists>r. f (base + int j) = Some r \<and> row_fingerprint r = fs ! (j - i))) \<and>
     (m < i + length fs \<longrightarrow> f (base + int m) = None \<and> \<not> req)"
proof (induction f base req i fs rule: match_events.induct)
  case (1 f base req i)
  then show ?case by auto
next
  case (2 f base req i x fs)
  show ?case
  proof (cases "f (base + int i)")
    case None
    then show ?thesis by (auto simp: le_less)
  next
    case (Some r)
    show ?thesis
    proof (cases "row_fingerprint r = x")
      case False
      with Some show ?thesis by (auto simp: le_less)
    next
      case True
      have shift: "(\<forall>j. i \<le> j \<longrightarrow> j < m \<longrightarrow> (\<exists>r. f (base + int j) = Some r \<and> row_fingerprint r = (x # fs) ! (j - i))) \<longleftrightarrow>
          (\<forall>j. Suc i \<le> j \<longrightarrow> j < m \<longrightarrow> (\<exists>r. f (base + int j) = Some r \<and> row_fingerprint r = fs ! (j - Suc i)))" for m
      proof (rule iffI; intro allI impI)
        fix j
        assume a: "\<forall>j. i \<le> j \<longrightarrow> j < m \<longrightarrow> (\<exists>r. f (base + int j) = Some r \<and> row_fingerprint r = (x # fs) ! (j - i))"
          and j: "Suc i \<le> j" "j < m"
        then have "(x # fs) ! (j - i) = fs ! (j - Suc i)" by (simp add: nth_Cons')
        moreover have "i \<le> j" using j by simp
        ultimately show "\<exists>r. f (base + int j) = Some r \<and> row_fingerprint r = fs ! (j - Suc i)"
          using a j(2) by metis
      next
        fix j
        assume a: "\<forall>j. Suc i \<le> j \<longrightarrow> j < m \<longrightarrow> (\<exists>r. f (base + int j) = Some r \<and> row_fingerprint r = fs ! (j - Suc i))"
          and j: "i \<le> j" "j < m"
        show "\<exists>r. f (base + int j) = Some r \<and> row_fingerprint r = (x # fs) ! (j - i)"
          using a j Some True by (cases "j = i") (auto simp: nth_Cons')
      qed
      have IH: "match_events f base req (Suc i) fs = Inr m \<longleftrightarrow>
          Suc i \<le> m \<and> m \<le> Suc i + length fs \<and>
          (\<forall>j. Suc i \<le> j \<longrightarrow> j < m \<longrightarrow> (\<exists>r. f (base + int j) = Some r \<and> row_fingerprint r = fs ! (j - Suc i))) \<and>
          (m < Suc i + length fs \<longrightarrow> f (base + int m) = None \<and> \<not> req)"
        by (rule "2.IH" [OF Some]) (simp add: True)
      have "match_events f base req i (x # fs) = match_events f base req (Suc i) fs"
        using Some True by simp
      moreover have "i \<le> m \<longleftrightarrow> m = i \<or> Suc i \<le> m" by auto
      ultimately show ?thesis
        unfolding shift by (cases "m = i") (insert IH, simp_all add: Some del: match_events.simps)
    qed
  qed
qed

lemma sorted_distinct_interval:
  assumes "sorted xs" "distinct xs" "set xs = {a..<a + int n}"
  shows "xs = map (\<lambda>i. a + int i) [0..<n]"
proof (rule sorted_distinct_set_unique [OF assms(1,2) sorted_offsets])
  show "distinct (map (\<lambda>i. a + int i) [0..<n])" by (simp add: distinct_map inj_on_def)
  have "{a..<a + int n} \<subseteq> (\<lambda>i. a + int i) ` {0..<n}"
  proof
    fix q
    assume "q \<in> {a..<a + int n}"
    then have "q = a + int (nat (q - a))" "nat (q - a) \<in> {0..<n}" by auto
    then show "q \<in> (\<lambda>i. a + int i) ` {0..<n}" by blast
  qed
  then show "set xs = set (map (\<lambda>i. a + int i) [0..<n])"
    unfolding assms(3) by auto
qed

lemma event_rows_distinct:
  "events_unique db \<Longrightarrow> distinct (map er_seq (event_rows rid a b db)) \<and> sorted (map er_seq (event_rows rid a b db))"
  by (auto simp: events_unique_def event_rows_def distinct_map inj_on_def)

lemma top_bounds:
  "rows \<noteq> [] \<Longrightarrow> r \<in> set rows \<Longrightarrow> er_seq r \<le> max_seq_from base rows"
  by (auto simp: max_seq_from_def)

lemma top_attained: "rows \<noteq> [] \<Longrightarrow> max_seq_from base rows \<in> er_seq ` set rows"
  using Max_in [of "er_seq ` set rows"] by (simp add: max_seq_from_def)

text \<open>Without gaps the sequences from the base on are an interval.\<close>

lemma no_gap_interval:
  assumes "\<forall>r\<in>set rows. base \<le> er_seq r"
    and "find (\<lambda>q. by_seq rows q = None) [base..max_seq_from (base - 1) rows] = None"
  shows "er_seq ` set rows = {base..max_seq_from (base - 1) rows}"
proof
  show "er_seq ` set rows \<subseteq> {base..max_seq_from (base - 1) rows}"
    using assms(1) top_bounds [of rows] by (cases "rows = []") auto
  show "{base..max_seq_from (base - 1) rows} \<subseteq> er_seq ` set rows"
    using assms(2) by (auto simp: find_None_iff by_seq_None)
qed

lemma reconcile_mirrored:
  assumes ok: "events_unique db" and base: "0 \<le> base"
    and rec: "reconcile_event_cursor rid evs (Some base) req db = Inr (m, b)"
  shows "b = base \<and> m \<le> length evs \<and> (req \<longrightarrow> m = length evs) \<and> mirrored rid base (take m evs) db"
proof -
  define rows where "rows = event_rows rid (Some base) None db"
  define top where "top = max_seq_from (base - 1) rows"
  from rec base have gap: "find (\<lambda>q. by_seq rows q = None) [base..top] = None"
    and mt: "match_events (by_seq rows) base req 0 (map event_fingerprint evs) = Inr m"
    and trail: "top < base + int (length evs)" and b: "b = base"
    by (auto simp: reconcile_event_cursor_def Let_def bind_res_Inr rows_def top_def
        split: option.splits if_splits)
  have ge: "\<forall>r\<in>set rows. base \<le> er_seq r"
    by (auto simp: rows_def in_event_rows)
  have interval: "er_seq ` set rows = {base..top}"
    using no_gap_interval [OF ge gap [unfolded top_def]] by (simp add: top_def)
  from mt [unfolded match_events_iff] have m: "m \<le> length evs"
    and match: "\<And>j. j < m \<Longrightarrow> \<exists>r. by_seq rows (base + int j) = Some r \<and> row_fingerprint r = event_fingerprint (evs ! j)"
    and stop: "m < length evs \<Longrightarrow> by_seq rows (base + int m) = None \<and> \<not> req"
    by auto
  have "top = base + int m - 1"
  proof -
    have "base + int m - 1 \<le> top"
    proof (cases m)
      case 0
      have "base - 1 \<le> top"
      proof (cases "rows = []")
        case True
        then show ?thesis by (simp add: top_def max_seq_from_def)
      next
        case False
        from top_attained [OF this] have "top \<in> er_seq ` set rows" by (simp add: top_def)
        with ge show ?thesis by force
      qed
      with 0 show ?thesis by simp
    next
      case (Suc k)
      then have "k < m" by simp
      from match [OF this] obtain r where "by_seq rows (base + int k) = Some r" by blast
      then have "base + int k \<in> er_seq ` set rows" using by_seq_SomeD by (metis image_eqI)
      then have "base + int k \<in> {base..top}" unfolding interval .
      with Suc show ?thesis by simp
    qed
    moreover have "top < base + int m"
    proof (cases "m < length evs")
      case True
      with stop have "base + int m \<notin> {base..top}" unfolding by_seq_None interval by blast
      then show ?thesis by auto
    next
      case False
      with trail m show ?thesis by simp
    qed
    ultimately show ?thesis by simp
  qed
  with interval have "er_seq ` set rows = {base..<base + int m}" by auto
  then have seqs: "map er_seq rows = map (\<lambda>i. base + int i) [0..<m]"
    using event_rows_distinct [OF ok] by (intro sorted_distinct_interval) (auto simp: rows_def)
  then have len: "length rows = m" by (metis length_map length_upt diff_zero)
  have "map row_fingerprint rows = map event_fingerprint (take m evs)"
  proof (rule nth_equalityI)
    fix j
    assume "j < length (map row_fingerprint rows)"
    with len have "j < m" by simp
    with match [OF this] by_seq_consecutive [OF seqs, of j] len m
    show "map row_fingerprint rows ! j = map event_fingerprint (take m evs) ! j" by auto
  qed (use len m in simp)
  with seqs m b stop show ?thesis
    by (auto simp: mirrored_def rows_def [symmetric] Let_def min_absorb2 le_less)
qed

lemma mirrored_reconcile:
  assumes base: "0 \<le> base" and m: "m \<le> length evs" "req \<Longrightarrow> m = length evs"
    and mir: "mirrored rid base (take m evs) db"
  shows "reconcile_event_cursor rid evs (Some base) req db = Inr (m, base)"
proof -
  define rows where "rows = event_rows rid (Some base) None db"
  have seqs: "map er_seq rows = map (\<lambda>i. base + int i) [0..<m]"
    and fps: "map row_fingerprint rows = map event_fingerprint (take m evs)"
    using mir m by (simp_all add: mirrored_def rows_def [symmetric] Let_def min_absorb2)
  then have len: "length rows = m" by (metis length_map length_upt diff_zero)
  note look = by_seq_consecutive [OF seqs]
  have top: "max_seq_from (base - 1) rows = base + int m - 1"
  proof (cases "rows = []")
    case True
    with len show ?thesis by (simp add: max_seq_from_def)
  next
    case False
    have "er_seq ` set rows = (\<lambda>i. base + int i) ` {0..<m}"
      using arg_cong [OF seqs, of set] by simp
    then have "Max (er_seq ` set rows) = base + int m - 1"
      using False len by (intro Max_eqI) (auto intro!: image_eqI [of _ _ "m - 1"])
    with False show ?thesis by (simp add: max_seq_from_def)
  qed
  have gap: "find (\<lambda>q. by_seq rows q = None) [base..base + int m - 1] = None"
  proof -
    have "by_seq rows q \<noteq> None" if "base \<le> q" "q \<le> base + int m - 1" for q
      using look [of "nat (q - base)"] that by simp
    then show ?thesis by (auto simp: find_None_iff)
  qed
  have "match_events (by_seq rows) base req 0 (map event_fingerprint evs) = Inr m"
  proof -
    have "row_fingerprint (rows ! j) = event_fingerprint (evs ! j)" if "j < m" for j
      using arg_cong [OF fps, of "\<lambda>l. l ! j"] that len m(1) by simp
    then show ?thesis
      using m look by (auto simp: match_events_iff)
  qed
  with base gap top m(1) show ?thesis
    by (simp add: reconcile_event_cursor_def Let_def rows_def [symmetric])
qed

section \<open>Appending\<close>

text \<open>A fence that only refreshes heartbeats leaves the events alone.\<close>

definition keeps_events :: "(RunDb \<Rightarrow> run_error + RunDb) \<Rightarrow> bool" where
  "keeps_events ensure \<longleftrightarrow> (\<forall>db db'. ensure db = Inr db' \<longrightarrow> run_events db' = run_events db)"

lemma heartbeat_keeps_events: "heartbeat rid token now db = Inr db' \<Longrightarrow> run_events db' = run_events db"
  by (auto simp: heartbeat_def update_runs_def split: if_splits)

lemma keeps_events_heartbeat [simp]: "keeps_events (heartbeat rid token now)"
  by (auto simp: keeps_events_def heartbeat_keeps_events)

lemma mirrored_cong: "run_events db = run_events db' \<Longrightarrow> mirrored rid base evs db = mirrored rid base evs db'"
  by (simp add: mirrored_def event_rows_def)

lemma append_events_Inr:
  assumes "append_events rid events first base ensure token now db = Inr db'" "first < length events"
    "keeps_events ensure"
  shows "run_events db' = run_events db @
      map (\<lambda>i. event_row now rid (base + int i) (events ! i)) [first..<length events] \<and> events_unique db'"
  using assms heartbeat_keeps_events
  by (fastforce simp: append_events_def bind_res_Inr insert_events_def keeps_events_def Let_def
      split: option.splits if_splits)

lemma append_events_mirrored:
  assumes "mirrored rid base (take first events) db" "first < length events" "keeps_events ensure"
    "append_events rid events first base ensure token now db = Inr db'"
  shows "mirrored rid base events db' \<and> events_unique db'"
proof -
  note app = append_events_Inr [OF assms(4,2,3)]
  have "mirrored rid base events (db\<lparr>run_events := run_events db @
      map (\<lambda>i. event_row now rid (base + int i) (events ! i)) [first..<length events]\<rparr>)"
    using assms(1,2) by (intro mirrored_append) auto
  then have "mirrored rid base events db'"
    by (rule mirrored_cong [THEN iffD1, rotated]) (simp add: app)
  with app show ?thesis by simp
qed

text \<open>
  The streamed states extend one another (the events key only accumulates), and what others
  commit in between does not touch the run's events.
\<close>

fun stream_extends :: "pystr \<Rightarrow> NodeEvent list \<Rightarrow> ((RunDb \<Rightarrow> RunDb) \<times> RunState) list \<Rightarrow> bool" where
  "stream_extends rid evs [] = True"
| "stream_extends rid evs ((others, s) # rest) =
     ((\<exists>more. node_events s = evs @ more) \<and>
      (\<forall>db base evs'. mirrored rid base evs' db \<longrightarrow> mirrored rid base evs' (others db)) \<and>
      stream_extends rid (node_events s) rest)"

fun last_events :: "NodeEvent list \<Rightarrow> ((RunDb \<Rightarrow> RunDb) \<times> RunState) list \<Rightarrow> NodeEvent list" where
  "last_events evs [] = evs"
| "last_events evs ((others, s) # rest) = last_events (node_events s) rest"

lemma persist_stream_mirrored:
  assumes "stream_extends rid evs states" "persisted \<le> length evs"
    "mirrored rid base (take persisted evs) db" "keeps_events ensure"
    "persist_stream rid base ensure token now persisted states db = (Inr n, db')"
  shows "if states = [] then n = persisted \<and> db' = db else mirrored rid base (last_events evs states) db'"
  using assms
proof (induction rid base ensure token now persisted states db arbitrary: evs rule: persist_stream.induct)
  case (1 rid offset ensure token now persisted db)
  then show ?case by simp
next
  case (2 rid offset ensure token now persisted others s rest db)
  let ?events = "node_events s"
  obtain more where more: "?events = evs @ more" using "2.prems"(1) by auto
  have mir: "mirrored rid offset (take persisted ?events) (others db)"
    using "2.prems"(1-3) more by simp
  show ?case
  proof (cases "persisted < length ?events")
    case True
    then obtain db2 where app: "append_events rid ?events persisted offset ensure token now (others db) = Inr db2"
      and rest: "persist_stream rid offset ensure token now (length ?events) rest db2 = (Inr n, db')"
      using "2.prems"(5) by (auto simp: Let_def split: sum.splits)
    have "mirrored rid offset ?events db2"
      using append_events_mirrored [OF mir True "2.prems"(4) app] by simp
    then show ?thesis
      using "2.IH"(1) [OF refl refl True app, of ?events] "2.prems"(1,4) rest
      by (cases "rest = []") auto
  next
    case False
    with "2.prems"(2) more have "persisted = length ?events" by simp
    then show ?thesis
      using "2.IH"(2) [OF refl refl False, of ?events] "2.prems"(1,4,5) mir False
      by (cases "rest = []") (auto simp: Let_def)
  qed
qed

lemma execute_streamed:
  assumes run: "execute rid force_fresh ensure token now existing astream final db = (Inr v, db')"
    and live: "force_fresh \<or> \<not> finished existing"
    and ok: "events_unique db" "keeps_events ensure"
  shows "\<exists>db1 db2 m base n.
     run_events db1 = run_events db \<and> run_events db2 = run_events db \<and>
     reconcile_event_cursor rid (checkpoint_events force_fresh existing) (attempt_offset rid force_fresh existing db1)
       (\<not> force_fresh \<and> finished existing) db1 = Inr (m, base) \<and>
     persist_stream rid base ensure token now m (emitted (astream (attempt_offset rid force_fresh existing db1))) db2
       = (Inr n, db')"
proof -
  from run obtain db1 where db1: "(if force_fresh then ensure db else Inr db) = Inr db1"
    and r1: "(let offset = attempt_offset rid force_fresh existing db1
            in case reconcile_event_cursor rid (checkpoint_events force_fresh existing) offset
                      (\<not> force_fresh \<and> finished existing) db1 of
                 Inl e \<Rightarrow> (Inl (Reconciliation e), db1)
               | Inr (persisted, base) \<Rightarrow>
                   (case ensure db1 of
                      Inl e \<Rightarrow> (Inl e, db1)
                    | Inr db2 \<Rightarrow>
                        if \<not> force_fresh \<and> finished existing then (Inr (ck_values existing), db2)
                        else
                         (case persist_stream rid base ensure token now persisted (emitted (astream offset)) db2 of
                            (Inl e, db3) \<Rightarrow> (Inl e, db3)
                          | (Inr _, db3) \<Rightarrow>
                              (case stream_error (astream offset) of
                                 Some e \<Rightarrow> (Inl e, db3)
                               | None \<Rightarrow> (Inr final, db3))))) = (Inr v, db')"
    unfolding execute_def by (auto split: if_splits sum.splits)
  from r1 obtain m base db2 n where
    "reconcile_event_cursor rid (checkpoint_events force_fresh existing) (attempt_offset rid force_fresh existing db1)
       (\<not> force_fresh \<and> finished existing) db1 = Inr (m, base)"
    "ensure db1 = Inr db2"
    "persist_stream rid base ensure token now m (emitted (astream (attempt_offset rid force_fresh existing db1))) db2
       = (Inr n, db')"
    using live by (auto simp: Let_def split: sum.splits prod.splits option.splits if_splits)
  moreover have "run_events db1 = run_events db"
    using db1 ok(2) by (auto simp: keeps_events_def split: if_splits)
  ultimately show ?thesis using ok(2) unfolding keeps_events_def by metis
qed

lemma attempt_offset_cong:
  "run_events db = run_events db' \<Longrightarrow> attempt_offset rid ff ck db = attempt_offset rid ff ck db'"
  by (simp add: attempt_offset_def next_event_seq_def max_event_seq_def)

lemma reconcile_offset:
  "reconcile_event_cursor rid evs (Some base) req db = Inr (m, b) \<Longrightarrow> 0 \<le> base"
  by (auto simp: reconcile_event_cursor_def split: if_splits)

section \<open>Recovery and creation\<close>

lemma make_retryable_simps [simp]:
  "qr_status (make_retryable now r) = ''retryable''" "qr_id (make_retryable now r) = qr_id r"
  "qr_execution_token (make_retryable now r) = None"
  by (simp_all add: make_retryable_def)

lemma filter_distinct_single: "distinct (map f xs) \<Longrightarrow> x \<in> set xs \<Longrightarrow> filter (\<lambda>y. f y = f x) xs = [x]"
proof (induction xs)
  case (Cons y ys)
  then show ?case
    by (cases "y = x") (auto simp: filter_empty_conv image_iff)
qed simp

lemma recover_running_spec:
  fixes db :: RunDb
  assumes "P = (\<lambda>r. qr_status r = ''running'' \<and> stale sb r \<and> qr_id r \<in> set rids \<and> \<not> locked (qr_id r))"
  shows "recover_running locked sb now rids c db =
     (c + length (filter P (query_runs db)),
      db\<lparr>query_runs := map (\<lambda>r. if P r then make_retryable now r else r) (query_runs db)\<rparr>)"
  using assms
proof (induction locked sb now rids c db arbitrary: P rule: recover_running.induct)
  case (1 locked sb now c db)
  then show ?case by simp
next
  case (2 locked sb now rid rids c db)
  let ?Q = "\<lambda>r. qr_status r = ''running'' \<and> stale sb r \<and> qr_id r \<in> set rids \<and> \<not> locked (qr_id r)"
  show ?case
  proof (cases "locked rid")
    case True
    then have "P = ?Q" using "2.prems" by (auto simp: fun_eq_iff)
    with "2.IH"(1) [OF True, of ?Q] True show ?thesis by simp
  next
    case False
    let ?C = "\<lambda>r. qr_id r = rid \<and> qr_status r = ''running'' \<and> stale sb r"
    let ?f = "\<lambda>r. if ?C r then make_retryable now r else r"
    have merge: "(if ?Q (?f r) then make_retryable now (?f r) else ?f r) = (if P r then make_retryable now r else r)"
      and count: "(if ?C r then 1 else 0) + (if ?Q (?f r) then 1 else 0) = (if P r then 1 else (0::nat))" for r
      using "2.prems" False by auto
    have "length (filter ?C rs) + length (filter ?Q (map ?f rs)) = length (filter P rs)" for rs
    proof (induction rs)
      case (Cons r rs)
      have "length (filter A (x # xs)) = (if A x then 1 else 0) + length (filter A xs)"
        for A and x :: QueryRun and xs by simp
      with Cons count [of r] show ?case by (simp only: list.map)
    qed simp
    then have "length (filter ?C rs) + length (filter (?Q \<circ> ?f) rs) = length (filter P rs)" for rs
      by (simp add: filter_map)
    note count_all = this
    let ?db = "db\<lparr>query_runs := map ?f (query_runs db)\<rparr>" and ?n = "length (filter ?C (query_runs db))"
    have upd: "update_runs ?C (make_retryable now) db = (?db, ?n)"
      by (simp add: update_runs_def)
    have IH: "recover_running locked sb now rids (c + ?n) ?db =
        (c + ?n + length (filter ?Q (query_runs ?db)),
         ?db\<lparr>query_runs := map (\<lambda>r. if ?Q r then make_retryable now r else r) (query_runs ?db)\<rparr>)"
      by (rule "2.IH"(2) [OF False upd [symmetric] refl])
    have "map (\<lambda>r. if ?Q r then make_retryable now r else r) (map ?f rs) =
        map (\<lambda>r. if P r then make_retryable now r else r) rs" for rs
      by (simp only: list.map_comp comp_def merge)
    moreover have "recover_running locked sb now (rid # rids) c db = recover_running locked sb now rids (c + ?n) ?db"
      using False by (simp add: upd)
    ultimately show ?thesis
      using IH count_all [of "query_runs db"] by (simp add: filter_map add.assoc)
  qed
qed

section \<open>Concrete tables\<close>

definition demo_time :: datetime where
  "demo_time = \<lparr>dt_year = 2026, dt_month = 1, dt_day = 2, dt_hour = 3, dt_minute = 4, dt_second = 5,
     dt_micro = 0, dt_offset = Some 0\<rparr>"

definition demo_row :: "string \<Rightarrow> pystr option \<Rightarrow> QueryRun" where
  "demo_row st token = (pending_run (u ''r'') (u ''k'') (u ''q'') demo_time)\<lparr>qr_status := st, qr_execution_token := token\<rparr>"

definition demo_db :: "QueryRun list \<Rightarrow> RunDb" where
  "demo_db rows = \<lparr>query_runs = rows, run_events = []\<rparr>"

definition demo_event :: NodeEvent where
  "demo_event = \<lparr>ne_node = ''parse_intent'', ne_event = ''intent_parsed'', ne_status = ''ok'',
     ne_timestamp = u ''2026-01-02T03:04:05+00:00'', ne_message = None, ne_details = []\<rparr>"

definition demo_streamed :: RunState where
  "demo_streamed = (fresh_state (u ''r'') (u ''q''))\<lparr>node_events := [demo_event]\<rparr>"

lemmas demo_table_simps =
  demo_row_def demo_db_def demo_streamed_def fresh_state_def pending_run_def

section \<open>Properties\<close>

text \<open>Alignment with a sequence base accepts exactly when the stored events from the base on
  are, in order and without gaps, a prefix of the checkpoint's events (all of them when the
  checkpoint is finished), and it returns the length of that prefix.\<close>

theorem reconcile_iff_mirrored:
  assumes "events_unique db" "0 \<le> base"
  shows "reconcile_event_cursor rid evs (Some base) req db = Inr (m, b) \<longleftrightarrow>
     b = base \<and> m \<le> length evs \<and> (req \<longrightarrow> m = length evs) \<and> mirrored rid base (take m evs) db"
  using reconcile_mirrored [OF assms] mirrored_reconcile [OF assms(2)] by blast

theorem reconcile_iff_mirrored_witness:
  "reconcile_event_cursor (u ''r'') [demo_event] (Some 0) False (demo_db []) = Inr (0, 0)"
  by (subst reconcile_iff_mirrored) (simp_all add: events_unique_def demo_db_def mirrored_def event_rows_def)

text \<open>C4: When an execution that streamed at least one state returns, the stored events of its
  attempt are exactly the events of the last streamed state: none lost, repeated or reordered,
  whether the run was fresh or resumed after a crash between checkpoint and append.\<close>

theorem execute_mirrors_events:
  assumes "execute rid force_fresh ensure token now existing astream final db = (Inr v, db')"
    and "force_fresh \<or> \<not> finished existing"
    and "events_unique db" "keeps_events ensure"
    and "attempt_offset rid force_fresh existing db = Some base"
    and "stream_extends rid (checkpoint_events force_fresh existing) (emitted (astream (Some base)))"
    and "emitted (astream (Some base)) \<noteq> []"
  shows "mirrored rid base (last_events (checkpoint_events force_fresh existing) (emitted (astream (Some base)))) db'"
proof -
  let ?evs = "checkpoint_events force_fresh existing" and ?req = "\<not> force_fresh \<and> finished existing"
  from execute_streamed [OF assms(1-4)] obtain db1 db2 m b n where
    same: "run_events db1 = run_events db" "run_events db2 = run_events db"
    and off: "attempt_offset rid force_fresh existing db1 = Some base"
    and rec: "reconcile_event_cursor rid ?evs (Some base) ?req db1 = Inr (m, b)"
    and run: "persist_stream rid b ensure token now m (emitted (astream (Some base))) db2 = (Inr n, db')"
    using attempt_offset_cong assms(5) by metis
  have uniq: "events_unique db1"
    using assms(3) same(1) by (simp add: events_unique_def)
  from reconcile_mirrored [OF uniq reconcile_offset [OF rec] rec]
  have m: "b = base" "m \<le> length ?evs" "mirrored rid base (take m ?evs) db1" by auto
  have "mirrored rid base (take m ?evs) db2"
    using m(3) mirrored_cong [of db1 db2] same by simp
  from persist_stream_mirrored [OF assms(6) m(2) this assms(4) run [unfolded m(1)]] assms(7)
  show ?thesis by simp
qed

theorem execute_mirrors_events_witness:
  "mirrored (u ''r'') 0 [demo_event]
     (snd (execute (u ''r'') False (heartbeat (u ''r'') (Some (u ''t'')) demo_time) (Some (u ''t'')) demo_time
       \<lparr>ck_values = None, ck_next = False\<rparr>
       (\<lambda>base. \<lparr>emitted = [(\<lambda>db. db, demo_streamed)], stream_error = None\<rparr>) (Some demo_streamed)
       (demo_db [demo_row ''running'' (Some (u ''t''))])))"
proof -
  let ?run = "execute (u ''r'') False (heartbeat (u ''r'') (Some (u ''t'')) demo_time) (Some (u ''t'')) demo_time
       \<lparr>ck_values = None, ck_next = False\<rparr>
       (\<lambda>base. \<lparr>emitted = [(\<lambda>db. db, demo_streamed)], stream_error = None\<rparr>) (Some demo_streamed)
       (demo_db [demo_row ''running'' (Some (u ''t''))])"
  have "fst ?run = Inr (Some demo_streamed)"
    by (simp add: execute_def finished_def demo_table_simps assert_execution_token_def find_run_def token_active_def
      attempt_offset_def checkpoint_events_def reconcile_event_cursor_def event_rows_def max_seq_from_def
      heartbeat_def update_runs_def owns_def append_events_def insert_events_def events_unique_def Let_def)
  then have "?run = (Inr (Some demo_streamed), snd ?run)" by (metis prod.collapse)
  from execute_mirrors_events [OF this, of 0] show ?thesis
    by (simp add: finished_def events_unique_def demo_db_def attempt_offset_def checkpoint_events_def
      demo_streamed_def)
qed

text \<open>Fencing: once no running row carries a worker's token, the worker can append no event;
  the call raises and the tables are unchanged.\<close>

theorem append_fenced:
  assumes "\<not> list_ex (owns rid (Some token)) (query_runs db)" "first < length events"
  shows "append_events rid events first base ensure (Some token) now db = Inl (Ownership_lost rid)"
proof -
  have "filter (owns rid (Some token)) (query_runs db) = []"
    using assms(1) by (simp add: list_ex_iff filter_empty_conv)
  then have "heartbeat rid (Some token) now db = Inl (Ownership_lost rid)"
    by (simp add: heartbeat_def update_runs_def)
  with assms(2) show ?thesis
    by (simp add: append_events_def split: option.split)
qed

theorem append_fenced_witness:
  "append_events (u ''r'') [demo_event] 0 0 Inr (Some (u ''old'')) demo_time
     (demo_db [demo_row ''running'' (Some (u ''new''))]) = Inl (Ownership_lost (u ''r''))"
  by (rule append_fenced) (simp_all add: demo_table_simps owns_def)

text \<open>The advisory lock key of a run is a signed 64-bit integer.\<close>

theorem run_lock_key_bounds: "- (2 ^ 63) \<le> run_lock_key rid \<and> run_lock_key rid < 2 ^ 63"
proof -
  have "length (take 8 (sha256 (utf8_encode (u ''run::'' @ rid)))) = 8" by simp
  from from_bytes_signed_bound [of "take 8 (sha256 (utf8_encode (u ''run::'' @ rid)))"] this
  show ?thesis by (simp add: run_lock_key_def)
qed

text \<open>Creating a run is idempotent by its key: after a call with a key returned a run id,
  any later call with that key returns the same id, creates nothing and changes nothing, and
  the run keys stay unique, even when another caller wins the insert race.\<close>

theorem create_run_idempotent:
  assumes "create_run request (Some key) fresh_key fresh_id now others db = (Inr (rid, created), db')"
    and "key \<noteq> []" "runs_unique db" "runs_unique (others db)"
  shows "runs_unique db' \<and> map qr_id (filter (\<lambda>r. qr_run_key r = key) (query_runs db')) = [rid] \<and>
     create_run request' (Some key) fresh_key' fresh_id' now' others' db' = (Inr (rid, False), db')"
proof -
  from assms have uniq: "runs_unique db'" and "\<exists>r. find_run_key db' key = Some r \<and> qr_id r = rid"
    by (auto simp: create_run_def Let_def find_run_key_def pending_run_def runs_unique_def find_append_single
        dest: find_SomeD split: option.splits if_splits)
  then obtain r where r: "find_run_key db' key = Some r" "qr_id r = rid" by blast
  then have "r \<in> set (query_runs db')" "qr_run_key r = key"
    by (auto simp: find_run_key_def dest: find_SomeD)
  with uniq have "filter (\<lambda>r. qr_run_key r = key) (query_runs db') = [r]"
    using filter_distinct_single [of qr_run_key "query_runs db'" r] by (simp add: runs_unique_def)
  with uniq r assms(2) show ?thesis by (simp add: create_run_def)
qed

theorem create_run_idempotent_witness:
  "fst (create_run (u ''q'') (Some (u ''k'')) [] (u ''r2'') demo_time (\<lambda>db. db)
     (snd (create_run (u ''q'') (Some (u ''k'')) [] (u ''r1'') demo_time (\<lambda>db. db) (demo_db []))))
   = Inr (u ''r1'', False)"
proof -
  let ?run = "create_run (u ''q'') (Some (u ''k'')) [] (u ''r1'') demo_time (\<lambda>db. db) (demo_db [])"
  have "?run = (Inr (u ''r1'', True), snd ?run)"
    by (simp add: create_run_def demo_db_def find_run_key_def runs_unique_def Let_def)
  from create_run_idempotent [OF this, of "u ''q''" "[]" "u ''r2''" demo_time "\<lambda>db. db"] show ?thesis
    by (simp add: demo_db_def runs_unique_def)
qed

text \<open>Recovery turns exactly the stale pending runs and the stale running runs whose advisory
  lock nobody holds into retryable ones without a token, leaves every other run and all events
  alone, and returns the number of runs it changed.\<close>

theorem mark_stale_runs_retryable_spec:
  "mark_stale_runs_retryable locked stale_before now db =
     (length (filter (\<lambda>r. stale stale_before r \<and> (qr_status r = ''pending'' \<or>
         qr_status r = ''running'' \<and> \<not> locked (qr_id r))) (query_runs db)),
      db\<lparr>query_runs := map (\<lambda>r. if stale stale_before r \<and> (qr_status r = ''pending'' \<or>
         qr_status r = ''running'' \<and> \<not> locked (qr_id r)) then make_retryable now r else r) (query_runs db)\<rparr>)"
proof -
  let ?pend = "\<lambda>r. qr_status r = ''pending'' \<and> stale stale_before r"
  let ?f = "\<lambda>r. if ?pend r then make_retryable now r else r"
  let ?rids = "map qr_id (filter (\<lambda>r. qr_status r = ''running'' \<and> stale stale_before r) (query_runs db))"
  let ?P = "\<lambda>r. qr_status r = ''running'' \<and> stale stale_before r \<and> qr_id r \<in> set ?rids \<and> \<not> locked (qr_id r)"
  let ?G = "\<lambda>r. stale stale_before r \<and> (qr_status r = ''pending'' \<or> qr_status r = ''running'' \<and> \<not> locked (qr_id r))"
  let ?db1 = "db\<lparr>query_runs := map ?f (query_runs db)\<rparr>"
  have merge: "(if ?P (?f r) then make_retryable now (?f r) else ?f r) = (if ?G r then make_retryable now r else r)"
    and count: "(if ?pend r then 1 else 0) + (if ?P (?f r) then 1 else 0) = (if ?G r then 1 else (0::nat))"
    if "r \<in> set (query_runs db)" for r
    using that by auto
  have "length (filter ?pend rs) + length (filter ?P (map ?f rs)) = length (filter ?G rs)"
    if "set rs \<subseteq> set (query_runs db)" for rs
    using that
  proof (induction rs)
    case (Cons r rs)
    have "length (filter A (x # xs)) = (if A x then 1 else 0) + length (filter A xs)"
      for A and x :: QueryRun and xs by simp
    with Cons count [of r] show ?case by (simp only: list.map) simp
  qed simp
  from this [of "query_runs db"]
  have counts: "length (filter ?pend (query_runs db)) + length (filter ?P (query_runs ?db1)) =
      length (filter ?G (query_runs db))" by simp
  have maps: "map (\<lambda>r. if ?P r then make_retryable now r else r) (query_runs ?db1) =
      map (\<lambda>r. if ?G r then make_retryable now r else r) (query_runs db)"
    using merge by simp
  have "mark_stale_runs_retryable locked stale_before now db =
      recover_running locked stale_before now ?rids (length (filter ?pend (query_runs db))) ?db1"
    by (simp add: mark_stale_runs_retryable_def update_runs_def)
  also have "\<dots> = (length (filter ?pend (query_runs db)) + length (filter ?P (query_runs ?db1)),
      ?db1\<lparr>query_runs := map (\<lambda>r. if ?P r then make_retryable now r else r) (query_runs ?db1)\<rparr>)"
    by (rule recover_running_spec [OF refl])
  finally show ?thesis unfolding counts maps by simp
qed

end
