(* ===== verification/Run_Properties.thy ===== *)
theory Run_Properties
  imports Run_Service Executor_Properties
begin

text \<open>
  What the run lifecycle guarantees: single ownership, permanent fencing, release of the
  ownership at the end of every execution, and bounded reservations.
\<close>

section \<open>Owners\<close>














lemma commits_tokens_ok: "commit\<^sup>*\<^sup>* s s' \<Longrightarrow> tokens_ok s \<Longrightarrow> tokens_ok s'"
  by (induction rule: rtranclp_induct) (metis commit_tokens_ok prod.collapse)+

definition empty_db :: RunDb where "empty_db = \<lparr>query_runs = [], run_events = []\<rparr>"

lemma tokens_ok_empty: "tokens_ok (empty_db, {})"
  by (rule tokens_okI) (simp_all add: empty_db_def runs_unique_def)

text \<open>The tables after one run was created and claimed.\<close>

definition demo_claimed :: RunDb where
  "demo_claimed = demo_db [activate (u ''t'') demo_time (pending_run (u ''r'') (u ''k'') (u ''q'') demo_time)]"

lemma demo_commits: "commit\<^sup>*\<^sup>* (empty_db, {}) (demo_claimed, {u ''t''})"
proof -
  let ?db = "demo_db [pending_run (u ''r'') (u ''k'') (u ''q'') demo_time]"
  have "create_run (u ''q'') (Some (u ''k'')) [] (u ''r'') demo_time (\<lambda>d. d) empty_db = (Inr (u ''r'', True), ?db)"
    by (simp add: create_run_def empty_db_def demo_db_def find_run_key_def runs_unique_def Let_def)
  then have "commit (empty_db, {}) (?db, {})" by (rule commit_create)
  moreover have "claim_row (u ''r'') ''pending'' (u ''t'') demo_time ?db = (Some (u ''t''), demo_claimed)"
    by (simp add: claim_row_def update_runs_def demo_claimed_def demo_db_def pending_run_def)
  from commit_claim [OF _ this, of "{}"] have "commit (?db, {}) (demo_claimed, insert (u ''t'') {})"
    by simp
  ultimately show ?thesis by (meson rtranclp.rtrancl_refl rtranclp.rtrancl_into_rtrancl)
qed

section \<open>Properties\<close>

text \<open>C5: Whatever the processes commit and in whatever order, a run carries an ownership token
  exactly while it is running, and two runs never carry the same token.\<close>

theorem running_iff_token:
  assumes "commit\<^sup>*\<^sup>* (empty_db, {}) (db, ts)"
  shows "list_all (\<lambda>r. qr_status r = ''running'' \<longleftrightarrow> qr_execution_token r \<noteq> None) (query_runs db) \<and>
     (\<forall>r r'. r \<in> set (query_runs db) \<and> r' \<in> set (query_runs db) \<and>
        qr_execution_token r = qr_execution_token r' \<and> qr_execution_token r \<noteq> None \<longrightarrow> r = r')"
proof -
  have ok: "tokens_ok (db, ts)" using commits_tokens_ok [OF assms tokens_ok_empty] .
  have "r = r'" if "r \<in> set (query_runs db)" "r' \<in> set (query_runs db)" "qr_id r = qr_id r'" for r r'
    using that tokens_okD(1) [OF ok] by (auto simp: runs_unique_def distinct_map inj_on_def)
  with tokens_okD(2,3) [OF ok] show ?thesis
    unfolding list_all_iff row_token_ok_def by blast
qed

theorem running_iff_token_witness:
  "commit\<^sup>*\<^sup>* (empty_db, {}) (demo_claimed, {u ''t''}) \<and>
   list_all (\<lambda>r. qr_status r = ''running'' \<longleftrightarrow> qr_execution_token r \<noteq> None) (query_runs demo_claimed)"
  using demo_commits running_iff_token [OF demo_commits] by blast

text \<open>C6: Losing the ownership of a run is permanent: once no run is executed under an issued
  token, no later commit of any process brings that token back into use, and every append under
  it keeps raising.\<close>

theorem lost_ownership_is_permanent:
  assumes "commit\<^sup>*\<^sup>* (db, ts) (db', ts')" "t \<in> ts" "\<not> owned t db" "first < length events"
  shows "\<not> owned t db' \<and>
     append_events rid events first base ensure (Some t) now db' = Inl (Ownership_lost rid)"
proof -
  have "\<not> owned t db'" using commits_unowned [OF assms(1)] assms(2,3) by simp
  moreover from this have "heartbeat rid (Some t) now db' = Inl (Ownership_lost rid)"
    by (auto simp: heartbeat_def update_runs_def filter_empty_conv owned_def owns_def list_ex_iff)
  ultimately show ?thesis
    using assms(4) by (simp add: append_events_def split: option.split)
qed

theorem lost_ownership_is_permanent_witness:
  "\<not> owned (u ''old'') demo_claimed \<and>
     append_events (u ''r'') [demo_event] 0 0 Inr (Some (u ''old'')) demo_time demo_claimed = Inl (Ownership_lost (u ''r''))"
  by (rule lost_ownership_is_permanent [OF rtranclp.rtrancl_refl, of _ "{u ''old''}"])
    (simp_all add: demo_claimed_def demo_db_def activate_def owned_def)

text \<open>A claim is exclusive: after one caller has claimed a run, every other attempt to start,
  confirm or retry it reports that it is running and changes nothing.\<close>

theorem claim_is_exclusive:
  assumes "claim_run rid eligible t now db = (Inr token, db')" "runs_unique db"
    and "eligible' \<noteq> ''running''"
  shows "claim_run rid eligible' t' now' db' = (Inl (Run_not_eligible ''running''), db')"
proof -
  define g where "g r = (if qr_id r = rid \<and> qr_status r = eligible then activate t now r else r)" for r :: QueryRun
  have rs: "query_runs db' = map g (query_runs db)" and "filter (\<lambda>r. qr_id r = rid \<and> qr_status r = eligible) (query_runs db) \<noteq> []"
    using assms(1) by (auto simp: claim_run_def claim_row_def update_runs_def g_def split: if_splits option.splits)
  then obtain r where r: "r \<in> set (query_runs db)" "qr_id r = rid" "qr_status r = eligible"
    by (auto simp: filter_empty_conv)
  have only: "x = activate t now r" if "x \<in> set (query_runs db')" "qr_id x = rid" for x
  proof -
    from that(1) obtain y where y: "y \<in> set (query_runs db)" "x = g y" by (auto simp: rs)
    then have "qr_id y = rid" using that(2) by (simp add: g_def activate_def split: if_splits)
    then have "y = r" using assms(2) y(1) r(1,2) by (auto simp: runs_unique_def distinct_map inj_on_def)
    with y(2) r show ?thesis by (simp add: g_def)
  qed
  have "activate t now r \<in> set (query_runs db')" using r by (force simp: rs g_def)
  then have found: "find_run db' rid = Some (activate t now r)"
  proof (cases "find_run db' rid")
    case None
    from find_NoneD [OF None [unfolded find_run_def] \<open>activate t now r \<in> set (query_runs db')\<close>] r(2)
    show ?thesis by (simp add: activate_def)
  next
    case (Some x)
    from find_SomeD [OF Some [unfolded find_run_def]] only Some show ?thesis by auto
  qed
  have "qr_status x = ''running''" if "x \<in> set (query_runs db')" "qr_id x = rid" for x
    using only [OF that] by (simp add: activate_def)
  then have "filter (\<lambda>r. qr_id r = rid \<and> qr_status r = eligible') (query_runs db') = []"
    using assms(3) by (auto simp: filter_empty_conv)
  moreover from this have "map (\<lambda>r. if qr_id r = rid \<and> qr_status r = eligible' then activate t' now' r else r)
      (query_runs db') = query_runs db'"
    by (intro map_idI) (auto simp: filter_empty_conv)
  ultimately have "claim_row rid eligible' t' now' db' = (None, db')"
    by (simp add: claim_row_def update_runs_def)
  with found show ?thesis by (simp add: claim_run_def activate_def)
qed

theorem claim_is_exclusive_witness:
  "claim_run (u ''r'') ''retryable'' (u ''t2'') demo_time
     (snd (claim_run (u ''r'') ''retryable'' (u ''t1'') demo_time (demo_db [demo_row ''retryable'' None]))) =
   (Inl (Run_not_eligible ''running''),
    snd (claim_run (u ''r'') ''retryable'' (u ''t1'') demo_time (demo_db [demo_row ''retryable'' None])))"
  by (rule claim_is_exclusive [of "u ''r''" "''retryable''" "u ''t1''" demo_time "demo_db [demo_row ''retryable'' None]" "u ''t1''"])
    (simp_all add: claim_run_def claim_row_def update_runs_def demo_table_simps runs_unique_def)



text \<open>Reservations are balanced and bounded: at every moment the number of reserved slots is
  the number of retained tasks and does not exceed the configured limit.\<close>

theorem reservations_bounded:
  assumes "service_reachable limit s"
  shows "active_reservations s = length (run_tasks s) \<and> active_reservations s \<le> limit"
  by (rule service_balanced [OF assms])

theorem reservations_bounded_witness:
  "active_reservations \<lparr>active_reservations = 1, shutting_down = False, run_tasks = [u ''r'']\<rparr> = 1 \<and>
   active_reservations \<lparr>active_reservations = 1, shutting_down = False, run_tasks = [u ''r'']\<rparr> \<le> 2"
  using reservations_bounded [OF service_schedule [OF service_start, of 2 "u ''r''" "Inr ()"],
      of "\<lparr>active_reservations = 1, shutting_down = False, run_tasks = [u ''r'']\<rparr>"]
  by (simp add: schedule_run_def try_reserve_run_def)

end
