(* ===== verification/Cron.thy ===== *)
theory Cron
  imports Semantic
begin

text \<open>
  The day-of-week field of five-field cron expressions (\<open>subscriptions/service.py\<close>): tokens with
  Sunday as 0 or 7 are expanded to weekday names, with the source's checks in order.
\<close>

datatype cron_error =
    Invalid_day_value nat | Invalid_day_name pystr | Invalid_token pystr
  | Step_not_positive | Step_exceeds_week | Mixed_endpoints | Inverted_range | Step_exceeds_range

definition STANDARD_CRON_WEEKDAYS :: "pystr list" where
  "STANDARD_CRON_WEEKDAYS =
     [u ''sun'', u ''mon'', u ''tue'', u ''wed'', u ''thu'', u ''fri'', u ''sat'']"

text \<open>\<open>weekday_name\<close>.\<close>

definition weekday_name :: "nat \<Rightarrow> cron_error + pystr" where
  "weekday_name value =
     (let v = (if value = 7 then 0 else value)
      in if v \<le> 6 then Inr (STANDARD_CRON_WEEKDAYS ! v) else Inl (Invalid_day_value v))"

definition is_alpha :: "nat \<Rightarrow> bool" where
  "is_alpha c \<longleftrightarrow> (65 \<le> c \<and> c \<le> 90) \<or> (97 \<le> c \<and> c \<le> 122)"

text \<open>\<open>_NAMED_CRON_WEEKDAYS.get(raw.lower())\<close>; matched raw names are ASCII letters.\<close>

definition named_weekday :: "pystr \<Rightarrow> nat option" where
  "named_weekday raw =
     find (\<lambda>i. STANDARD_CRON_WEEKDAYS ! i = ascii_lower raw) [0..<7]"

definition numeric :: "pystr \<Rightarrow> bool" where
  "numeric raw \<longleftrightarrow> raw \<noteq> [] \<and> list_all is_digit raw"

definition endpoint_value :: "pystr \<Rightarrow> cron_error + nat" where
  "endpoint_value raw =
     (if numeric raw
      then (let v = digits_value 0 raw in if v \<le> 7 then Inr v else Inl (Invalid_day_value v))
      else (case named_weekday raw of None \<Rightarrow> Inl (Invalid_day_name raw) | Some v \<Rightarrow> Inr v))"

text \<open>\<open>_DOW_VALUE\<close>: a run of digits or a run of letters at the front.\<close>

definition take_value :: "pystr \<Rightarrow> (pystr \<times> pystr) option" where
  "take_value s =
     (case s of
        [] \<Rightarrow> None
      | c # cs \<Rightarrow>
          if is_digit c then Some (takeWhile is_digit s, dropWhile is_digit s)
          else if is_alpha c then Some (takeWhile is_alpha s, dropWhile is_alpha s)
          else None)"

text \<open>An optional \<open>/step\<close>, then the end of the token.\<close>

definition take_step :: "pystr \<Rightarrow> nat option option" where
  "take_step s =
     (case s of
        [] \<Rightarrow> Some None
      | c # cs \<Rightarrow> if c = 47 \<and> numeric cs then Some (Some (digits_value 0 cs)) else None)"

record dow_token =
  dow_start :: pystr
  dow_end :: "pystr option"
  dow_step :: "nat option"

text \<open>\<open>_DOW_TOKEN.fullmatch\<close> and \<open>_DOW_ALL_TOKEN.fullmatch\<close>.\<close>

definition match_dow_token :: "pystr \<Rightarrow> dow_token option" where
  "match_dow_token s =
     (case take_value s of
        None \<Rightarrow> None
      | Some (start, r) \<Rightarrow>
          (case r of
             c # r' \<Rightarrow>
               if c = 45
               then (case take_value r' of
                       None \<Rightarrow> None
                     | Some (end, r'') \<Rightarrow>
                         map_option (\<lambda>st. \<lparr>dow_start = start, dow_end = Some end, dow_step = st\<rparr>) (take_step r''))
               else map_option (\<lambda>st. \<lparr>dow_start = start, dow_end = None, dow_step = st\<rparr>) (take_step r)
           | [] \<Rightarrow> Some \<lparr>dow_start = start, dow_end = None, dow_step = None\<rparr>))"

definition match_all_token :: "pystr \<Rightarrow> nat option option" where
  "match_all_token s = (case s of [] \<Rightarrow> None | c # r \<Rightarrow> if c = 42 then take_step r else None)"

text \<open>\<open>range(a, b, step)\<close> for a positive step.\<close>

definition py_range :: "nat \<Rightarrow> nat \<Rightarrow> nat \<Rightarrow> nat list" where
  "py_range a b step = filter (\<lambda>v. (v - a) mod step = 0) [a..<b]"

definition check_step :: "nat \<Rightarrow> cron_error + unit" where
  "check_step step =
     (if step = 0 then Inl Step_not_positive else if 7 < step then Inl Step_exceeds_week else Inr ())"

definition star :: pystr where "star = u ''*''"

definition token_end :: "dow_token \<Rightarrow> nat \<Rightarrow> cron_error + nat" where
  "token_end t start =
     (case dow_end t of
        Some e \<Rightarrow> endpoint_value e
      | None \<Rightarrow> Inr (if dow_step t \<noteq> None then 7 else start))"

definition expand_token :: "pystr \<Rightarrow> cron_error + pystr list" where
  "expand_token token =
     (case match_all_token token of
        Some None \<Rightarrow> Inr [star]
      | Some (Some step) \<Rightarrow>
          bind_res (check_step step) (\<lambda>_. map_res weekday_name (py_range 0 7 step))
      | None \<Rightarrow>
          (case match_dow_token token of
             None \<Rightarrow> Inl (Invalid_token token)
           | Some t \<Rightarrow>
               bind_res (endpoint_value (dow_start t)) (\<lambda>start.
               if (case dow_end t of None \<Rightarrow> False | Some e \<Rightarrow> numeric (dow_start t) \<noteq> numeric e)
               then Inl Mixed_endpoints
               else bind_res (token_end t start) (\<lambda>end.
               (let step = (case dow_step t of None \<Rightarrow> 1 | Some st \<Rightarrow> st)
                in bind_res (check_step step) (\<lambda>_.
                   if end < start then Inl Inverted_range
                   else if end - start + 1 < step then Inl Step_exceeds_range
                   else map_res weekday_name (py_range start (end + 1) step)))))))"

text \<open>The accumulation loop: stars are kept, weekday names only at their first occurrence.\<close>

fun add_names :: "pystr list \<Rightarrow> pystr list \<Rightarrow> pystr list \<Rightarrow> pystr list \<times> pystr list" where
  "add_names tokens seen [] = (tokens, seen)"
| "add_names tokens seen (name # names) =
     (if name = star then add_names (tokens @ [name]) seen names
      else if name \<notin> set seen then add_names (tokens @ [name]) (name # seen) names
      else add_names tokens seen names)"

fun normalize_tokens :: "pystr list \<Rightarrow> pystr list \<Rightarrow> pystr list \<Rightarrow> cron_error + pystr list" where
  "normalize_tokens tokens seen [] = Inr tokens"
| "normalize_tokens tokens seen (t # ts) =
     (case expand_token t of
        Inl e \<Rightarrow> Inl e
      | Inr names \<Rightarrow> (case add_names tokens seen names of (tokens', seen') \<Rightarrow> normalize_tokens tokens' seen' ts))"

definition normalize_field :: "pystr \<Rightarrow> cron_error + pystr" where
  "normalize_field field = bind_res (normalize_tokens [] [] (py_split_on 44 field)) (\<lambda>ts. Inr (py_join [44] ts))"

definition normalize_crontab_day_of_week :: "pystr \<Rightarrow> cron_error + pystr" where
  "normalize_crontab_day_of_week expr =
     (let fields = py_split_ws expr
      in if length fields \<noteq> 5 then Inr expr
         else bind_res (normalize_field (fields ! 4)) (\<lambda>f. Inr (py_join [32] (fields[4 := f]))))"

section \<open>Weekday sets\<close>

text \<open>The reference: the weekdays a token denotes, Sunday as 0.\<close>

definition range_days :: "nat \<Rightarrow> nat \<Rightarrow> nat \<Rightarrow> nat set" where
  "range_days a b step = (\<lambda>v. v mod 7) ` {v. a \<le> v \<and> v \<le> b \<and> (v - a) mod step = 0}"

lemma weekday_name_Inr:
  "v \<le> 7 \<Longrightarrow> weekday_name v = Inr (STANDARD_CRON_WEEKDAYS ! (v mod 7))"
  by (cases "v = 7") (auto simp: weekday_name_def)

lemma set_py_range: "set (py_range a b step) = {v. a \<le> v \<and> v < b \<and> (v - a) mod step = 0}"
  by (auto simp: py_range_def)

lemma map_res_weekday:
  "\<forall>v\<in>set vs. v \<le> 7 \<Longrightarrow> map_res weekday_name vs = Inr (map (\<lambda>v. STANDARD_CRON_WEEKDAYS ! (v mod 7)) vs)"
  by (rule map_res_Inr) (simp add: weekday_name_Inr)

lemma endpoint_bound: "endpoint_value raw = Inr v \<Longrightarrow> v \<le> 7"
  by (auto simp: endpoint_value_def named_weekday_def Let_def split: if_splits option.splits dest: find_SomeD)

lemma endpoint_name: "endpoint_value raw = Inr v \<Longrightarrow> \<not> numeric raw \<Longrightarrow> ascii_lower raw = STANDARD_CRON_WEEKDAYS ! v"
  by (auto simp: endpoint_value_def named_weekday_def split: option.splits dest: find_SomeD)

text \<open>A token that expands without a star denotes the days its bounds and step select.\<close>

lemma expand_token_days:
  assumes "expand_token token = Inr names"
  shows "names = [star] \<or> (\<exists>a b step. a \<le> b \<and> b \<le> 7 \<and> 0 < step \<and>
     set names = (!) STANDARD_CRON_WEEKDAYS ` range_days a b step)"
proof (cases "match_all_token token")
  case None
  with assms obtain t start "end" step where t: "match_dow_token token = Some t"
    and se: "endpoint_value (dow_start t) = Inr start" "token_end t start = Inr end"
    and st: "step = (case dow_step t of None \<Rightarrow> 1 | Some st \<Rightarrow> st)" "check_step step = Inr ()"
    and le: "start \<le> end" and r: "map_res weekday_name (py_range start (end + 1) step) = Inr names"
    by (auto simp: expand_token_def bind_res_Inr Let_def split: option.splits if_splits)
  have e: "end \<le> 7"
    using se endpoint_bound by (auto simp: token_end_def split: option.splits if_splits)
  have "map_res weekday_name (py_range start (end + 1) step) =
      Inr (map (\<lambda>v. STANDARD_CRON_WEEKDAYS ! (v mod 7)) (py_range start (end + 1) step))"
    by (rule map_res_weekday) (use e in \<open>auto simp: set_py_range\<close>)
  with r have names: "names = map (\<lambda>v. STANDARD_CRON_WEEKDAYS ! (v mod 7)) (py_range start (end + 1) step)"
    by simp
  have "set names = (!) STANDARD_CRON_WEEKDAYS ` range_days start end step"
    unfolding names by (simp add: set_py_range range_days_def less_Suc_eq_le image_image)
  moreover have "0 < step" using st(2) by (auto simp: check_step_def split: if_splits)
  ultimately show ?thesis using le e by blast
next
  case (Some s)
  show ?thesis
  proof (cases s)
    case None
    with Some assms show ?thesis by (simp add: expand_token_def)
  next
    case (Some step)
    with \<open>match_all_token token = Some s\<close> assms have st: "check_step step = Inr ()"
      and r: "map_res weekday_name (py_range 0 7 step) = Inr names"
      by (auto simp: expand_token_def bind_res_Inr)
    have "map_res weekday_name (py_range 0 7 step) =
        Inr (map (\<lambda>v. STANDARD_CRON_WEEKDAYS ! (v mod 7)) (py_range 0 7 step))"
      by (rule map_res_weekday) (auto simp: set_py_range)
    with r have names: "names = map (\<lambda>v. STANDARD_CRON_WEEKDAYS ! (v mod 7)) (py_range 0 7 step)" by simp
    have "set names = (!) STANDARD_CRON_WEEKDAYS ` range_days 0 6 step"
      unfolding names by (simp add: set_py_range range_days_def image_image less_Suc_eq_le [of _ 6, simplified])
    moreover have "0 < step" using st by (auto simp: check_step_def split: if_splits)
    ultimately show ?thesis
      by (intro disjI2 exI [of _ 0] exI [of _ 6] exI [of _ step]) simp
  qed
qed

section \<open>Normalised fields\<close>

definition weekday_or_star :: "pystr \<Rightarrow> bool" where
  "weekday_or_star n \<longleftrightarrow> n = star \<or> n \<in> set STANDARD_CRON_WEEKDAYS"

lemma expand_token_names:
  assumes "expand_token token = Inr names"
  shows "names \<noteq> [] \<and> list_all weekday_or_star names"
  using expand_token_days [OF assms]
proof
  assume "names = [star]"
  then show ?thesis by (simp add: weekday_or_star_def)
next
  assume "\<exists>a b step. a \<le> b \<and> b \<le> 7 \<and> 0 < step \<and>
     set names = (!) STANDARD_CRON_WEEKDAYS ` range_days a b step"
  then obtain a b step where n: "a \<le> b" "set names = (!) STANDARD_CRON_WEEKDAYS ` range_days a b step" by blast
  from n(1) have "a mod 7 \<in> range_days a b step" by (force simp: range_days_def)
  with n(2) have "names \<noteq> []" by auto
  moreover have "STANDARD_CRON_WEEKDAYS ! i \<in> set STANDARD_CRON_WEEKDAYS" if "i < 7" for i
    using that by (intro nth_mem) (simp add: STANDARD_CRON_WEEKDAYS_def)
  then have "list_all weekday_or_star names"
    unfolding list_all_iff n(2) by (auto simp: range_days_def weekday_or_star_def)
  ultimately show ?thesis ..
qed

lemma add_names_spec:
  assumes "add_names tokens seen names = (tokens', seen')" "set seen = set tokens - {star}"
    "distinct (filter (\<lambda>n. n \<noteq> star) tokens)"
  shows "set seen' = set tokens' - {star} \<and> distinct (filter (\<lambda>n. n \<noteq> star) tokens') \<and>
     set tokens' = set tokens \<union> set names"
  using assms
proof (induction tokens seen names arbitrary: tokens' seen' rule: add_names.induct)
  case (1 tokens seen)
  then show ?case by simp
next
  case (2 tokens seen name names)
  consider "name = star" | "name \<noteq> star" "name \<notin> set seen" | "name \<noteq> star" "name \<in> set seen" by blast
  then show ?case
  proof cases
    case 1
    with "2.IH"(1) [OF 1] "2.prems" show ?thesis by auto
  next
    case 2
    have run: "add_names (tokens @ [name]) (name # seen) names = (tokens', seen')" using "2.prems"(1) 2 by simp
    have "set (name # seen) = set (tokens @ [name]) - {star}" using "2.prems"(2) 2 by auto
    moreover have "distinct (filter (\<lambda>n. n \<noteq> star) (tokens @ [name]))"
      using "2.prems"(2,3) 2 by simp
    ultimately show ?thesis using "2.IH"(2) [OF 2 run] by simp
  next
    case 3
    then have "add_names tokens seen names = (tokens', seen')" using "2.prems"(1) by simp
    note spec = "2.IH"(3) [OF 3(1) _ this "2.prems"(2,3)]
    have "\<not> name \<notin> set seen" using 3(2) by simp
    note spec = spec [OF this]
    have "name \<in> set tokens" using 3(2) unfolding "2.prems"(2) by blast
    then have "set tokens \<union> set (name # names) = set tokens \<union> set names"
      by (simp add: insert_absorb)
    with spec show ?thesis by (simp only: simp_thms)
  qed
qed

lemma normalize_tokens_spec:
  assumes "normalize_tokens tokens seen toks = Inr out" "set seen = set tokens - {star}"
    "distinct (filter (\<lambda>n. n \<noteq> star) tokens)"
  shows "distinct (filter (\<lambda>n. n \<noteq> star) out) \<and>
     (\<exists>nss. list_all2 (\<lambda>t ns. expand_token t = Inr ns) toks nss \<and> set out = set tokens \<union> set (concat nss))"
  using assms
proof (induction tokens seen toks arbitrary: out rule: normalize_tokens.induct)
  case (1 tokens seen)
  then show ?case by (auto intro: exI [of _ "[]"])
next
  case (2 tokens seen t ts)
  from "2.prems"(1) obtain names tokens' seen' where
    e: "expand_token t = Inr names" and a: "add_names tokens seen names = (tokens', seen')"
    and n: "normalize_tokens tokens' seen' ts = Inr out"
    by (auto split: sum.splits prod.splits)
  note spec = add_names_spec [OF a "2.prems"(2,3)]
  with "2.IH" [OF e a [symmetric] n] obtain nss where
    "distinct (filter (\<lambda>n. n \<noteq> star) out)" "list_all2 (\<lambda>t ns. expand_token t = Inr ns) ts nss"
    "set out = set tokens' \<union> set (concat nss)"
    by auto
  with spec e show ?case
    by (auto intro!: exI [of _ "names # nss"])
qed

lemma normalize_field_names:
  assumes "normalize_tokens [] [] toks = Inr out" "toks \<noteq> []"
  shows "out \<noteq> [] \<and> list_all weekday_or_star out \<and> distinct (filter (\<lambda>n. n \<noteq> star) out)"
proof -
  from normalize_tokens_spec [OF assms(1)] obtain nss where n: "distinct (filter (\<lambda>n. n \<noteq> star) out)"
    "list_all2 (\<lambda>t ns. expand_token t = Inr ns) toks nss" "set out = set (concat nss)" by auto
  have all: "ns \<noteq> [] \<and> list_all weekday_or_star ns" if "ns \<in> set nss" for ns
    using n(2) that expand_token_names by (force simp: list_all2_conv_all_nth in_set_conv_nth)
  have "nss \<noteq> []" using n(2) assms(2) by auto
  then have "out \<noteq> []" using all n(3) by (cases nss) auto
  moreover have "list_all weekday_or_star out" using all unfolding list_all_iff n(3) by auto
  ultimately show ?thesis using n(1) by simp
qed

lemma is_digit_ascii: "c < 128 \<Longrightarrow> is_digit c \<longleftrightarrow> 48 \<le> c \<and> c \<le> 57"
  by (auto simp: is_digit_def digit_value_def nd_zeros_def)

lemma digit_value_ascii: "48 \<le> c \<Longrightarrow> c \<le> 57 \<Longrightarrow> digit_value c = Some (c - 48)"
  by (simp add: digit_value_def nd_zeros_def)

lemmas token_simps =
  expand_token_def match_all_token_def match_dow_token_def take_value_def take_step_def is_digit_ascii
  digit_value_ascii is_alpha_def numeric_def endpoint_value_def named_weekday_def ascii_lower_def
  token_end_def check_step_def py_range_def weekday_name_def upt_rec

text \<open>A weekday name or a star is its own expansion.\<close>

lemma expand_name: "weekday_or_star n \<Longrightarrow> expand_token n = Inr [n]"
  by (auto simp: weekday_or_star_def STANDARD_CRON_WEEKDAYS_def star_def token_simps)

lemma normalize_names:
  assumes "list_all weekday_or_star names" "distinct (filter (\<lambda>n. n \<noteq> star) names)"
    "set seen \<inter> set (filter (\<lambda>n. n \<noteq> star) names) = {}"
  shows "normalize_tokens tokens seen names = Inr (tokens @ names)"
  using assms
proof (induction names arbitrary: tokens seen)
  case (Cons n names)
  then have "expand_token n = Inr [n]" by (simp add: expand_name)
  with Cons show ?case by (cases "n = star") auto
qed simp

lemma split_ws_word:
  "\<forall>c\<in>set w. \<not> py_isspace c \<Longrightarrow> split_ws_acc cur (w @ r) = split_ws_acc (rev w @ cur) r"
  by (induction w arbitrary: cur) auto

lemma py_split_ws_join:
  assumes "\<forall>w\<in>set ws. w \<noteq> [] \<and> (\<forall>c\<in>set w. \<not> py_isspace c)"
  shows "py_split_ws (py_join [32] ws) = ws"
proof -
  have sp: "py_isspace 32" by (simp add: py_isspace_def)
  have word: "split_ws_acc [] w = [w]" if "w \<noteq> []" "\<forall>c\<in>set w. \<not> py_isspace c" for w
    using split_ws_word [OF that(2), of "[]" "[]"] that(1) by simp
  have app: "split_ws_acc [] (w @ 32 # r) = w # split_ws_acc [] r" if "w \<noteq> []" "\<forall>c\<in>set w. \<not> py_isspace c" for w r
    using split_ws_word [OF that(2), of "[]" "32 # r"] that(1) sp by simp
  have "split_ws_acc [] (py_join [32] ws) = ws"
    using assms
  proof (induction "[32 :: nat]" ws rule: py_join.induct)
    case (3 w v ws)
    then show ?case using app [of w "py_join [32] (v # ws)"] by simp
  qed (auto simp: word)
  then show ?thesis by (simp add: py_split_ws_def)
qed

lemma split_ws_words:
  "(\<forall>c\<in>set cur. \<not> py_isspace c) \<Longrightarrow> w \<in> set (split_ws_acc cur s) \<Longrightarrow> w \<noteq> [] \<and> (\<forall>c\<in>set w. \<not> py_isspace c)"
proof (induction cur s rule: split_ws_acc.induct)
  case (1 cur)
  then show ?case by (cases "cur = []") simp_all
next
  case (2 cur c cs)
  show ?case
  proof (cases "py_isspace c")
    case True
    show ?thesis
    proof (cases "cur = []")
      case True
      with \<open>py_isspace c\<close> "2.IH"(1) "2.prems" show ?thesis by simp
    next
      case False
      with \<open>py_isspace c\<close> "2.prems" consider "w = rev cur" | "w \<in> set (split_ws_acc [] cs)" by auto
      then show ?thesis
      proof cases
        case 1
        with False "2.prems"(1) show ?thesis by simp
      next
        case 2
        with "2.IH"(2) \<open>py_isspace c\<close> False show ?thesis by simp
      qed
    qed
  next
    case False
    with "2.IH"(3) "2.prems" show ?thesis by simp
  qed
qed

lemma py_split_ws_words: "w \<in> set (py_split_ws s) \<Longrightarrow> w \<noteq> [] \<and> (\<forall>c\<in>set w. \<not> py_isspace c)"
  using split_ws_words [of "[]" w s] by (simp add: py_split_ws_def)

lemma joined_names:
  assumes "out \<noteq> []" "list_all weekday_or_star out"
  shows "py_join [44] out \<noteq> [] \<and> (\<forall>c\<in>set (py_join [44] out). \<not> py_isspace c) \<and> (\<forall>w\<in>set out. 44 \<notin> set w)"
proof -
  have "\<forall>n \<in> set (star # STANDARD_CRON_WEEKDAYS). n \<noteq> [] \<and> (\<forall>c\<in>set n. \<not> py_isspace c) \<and> 44 \<notin> set n"
    by (simp add: star_def STANDARD_CRON_WEEKDAYS_def py_isspace_def)
  then have name: "n \<noteq> [] \<and> (\<forall>c\<in>set n. \<not> py_isspace c) \<and> 44 \<notin> set n" if "weekday_or_star n" for n
    using that by (auto simp: weekday_or_star_def)
  have "\<not> py_isspace 44" by (simp add: py_isspace_def)
  with assms name show ?thesis
    by (induction "[44 :: nat]" out rule: py_join.induct) auto
qed

section \<open>Properties\<close>

text \<open>Soundness of day-of-week normalisation: the names it lists are exactly those its
  comma-separated tokens expand to, each weekday once, and every token stands either for
  everything or for the weekdays its bounds and step select, with 7 as Sunday.\<close>

theorem normalize_field_expands:
  assumes "normalize_tokens [] [] tokens = Inr out"
  shows "distinct (filter (\<lambda>n. n \<noteq> star) out) \<and>
     (\<exists>nss. list_all2 (\<lambda>t ns. expand_token t = Inr ns \<and> (ns = [star] \<or>
         (\<exists>a b step. a \<le> b \<and> b \<le> 7 \<and> 0 < step \<and>
            set ns = (!) STANDARD_CRON_WEEKDAYS ` range_days a b step))) tokens nss \<and>
        set out = set (concat nss))"
proof -
  from normalize_tokens_spec [OF assms] obtain nss where n: "distinct (filter (\<lambda>n. n \<noteq> star) out)"
    "list_all2 (\<lambda>t ns. expand_token t = Inr ns) tokens nss" "set out = set (concat nss)" by auto
  from n(2) have "list_all2 (\<lambda>t ns. expand_token t = Inr ns \<and> (ns = [star] \<or>
         (\<exists>a b step. a \<le> b \<and> b \<le> 7 \<and> 0 < step \<and>
            set ns = (!) STANDARD_CRON_WEEKDAYS ` range_days a b step))) tokens nss"
    by (rule list_all2_mono) (use expand_token_days in blast)
  with n(1,3) show ?thesis by blast
qed

theorem normalize_field_expands_witness:
  "normalize_tokens [] [] [u ''1-3'', u ''7'', u ''0''] = Inr [u ''mon'', u ''tue'', u ''wed'', u ''sun''] \<and>
   distinct (filter (\<lambda>n. n \<noteq> star) [u ''mon'', u ''tue'', u ''wed'', u ''sun''])"
proof -
  have "normalize_tokens [] [] [u ''1-3'', u ''7'', u ''0''] = Inr [u ''mon'', u ''tue'', u ''wed'', u ''sun'']"
    by (simp add: token_simps STANDARD_CRON_WEEKDAYS_def star_def Let_def)
  from this normalize_field_expands [OF this] show ?thesis by blast
qed

text \<open>Normalisation is idempotent: a normalised expression is accepted and unchanged.\<close>

theorem normalize_crontab_idempotent:
  assumes "normalize_crontab_day_of_week expr = Inr out"
  shows "normalize_crontab_day_of_week out = Inr out"
proof (cases "length (py_split_ws expr) = 5")
  case False
  with assms show ?thesis by (simp add: normalize_crontab_day_of_week_def)
next
  case True
  let ?fields = "py_split_ws expr"
  from assms True obtain names where n: "normalize_tokens [] [] (py_split_on 44 (?fields ! 4)) = Inr names"
    and out: "out = py_join [32] (?fields[4 := py_join [44] names])"
    unfolding normalize_crontab_day_of_week_def normalize_field_def Let_def
    by (auto simp: bind_res_Inr simp del: py_split_on.simps)
  note names = normalize_field_names [OF n py_split_on_nonempty]
  note joined = joined_names [of names]
  let ?new = "?fields[4 := py_join [44] names]"
  have "\<forall>w\<in>set ?new. w \<noteq> [] \<and> (\<forall>c\<in>set w. \<not> py_isspace c)"
  proof
    fix w assume "w \<in> set ?new"
    with set_update_subset_insert [of ?fields 4 "py_join [44] names"]
    consider "w = py_join [44] names" | "w \<in> set ?fields" by blast
    then show "w \<noteq> [] \<and> (\<forall>c\<in>set w. \<not> py_isspace c)"
    proof cases
      case 1
      with joined names show ?thesis by simp
    next
      case 2
      then show ?thesis by (rule py_split_ws_words)
    qed
  qed
  then have split: "py_split_ws out = ?new" unfolding out by (rule py_split_ws_join)
  have "normalize_field (py_join [44] names) = Inr (py_join [44] names)"
    using names joined normalize_names [of names "[]" "[]"]
    by (simp add: normalize_field_def py_split_on_join)
  with split True show ?thesis
    by (simp add: normalize_crontab_day_of_week_def out)
qed

theorem normalize_crontab_idempotent_witness:
  "normalize_crontab_day_of_week (u ''0 9 * * mon,tue,wed,sun'') = Inr (u ''0 9 * * mon,tue,wed,sun'')"
  by (rule normalize_crontab_idempotent [of "u ''0  9 * * 1-3,sun''"])
    (simp add: normalize_crontab_day_of_week_def normalize_field_def py_split_ws_def py_isspace_def
      token_simps STANDARD_CRON_WEEKDAYS_def star_def Let_def)

end
