(* ===== verification/Utc.thy ===== *)
theory Utc
  imports PyTime
begin

text \<open>
  Conversion to UTC (\<open>t.astimezone(UTC)\<close>): from an instant back to calendar fields.  The
  conversion keeps the instant, yields a valid value, and raises \<open>OverflowError\<close> when the
  instant falls outside the years 1 to 9999.
\<close>

section \<open>From a day number to a date\<close>

definition year_of :: "int \<Rightarrow> int" where
  "year_of n =
     (case find (\<lambda>y. n \<le> days_before_year (y + 1)) [max 1 (n div 366)..n div 365 + 1] of
        Some y \<Rightarrow> y
      | None \<Rightarrow> 0)"

definition month_of :: "int \<Rightarrow> int \<Rightarrow> int" where
  "month_of y d =
     (case find (\<lambda>m. d \<le> days_before_month y (m + 1)) [1, 2, 3, 4, 5, 6, 7, 8, 9, 10, 11] of
        Some m \<Rightarrow> m
      | None \<Rightarrow> 12)"

definition MAX_ORDINAL :: int where "MAX_ORDINAL = 3652059"

datatype time_error = Overflow

definition utc_of_micros :: "int \<Rightarrow> time_error + datetime" where
  "utc_of_micros i =
     (let n = i div 86400000000; r = i mod 86400000000; y = year_of n; d = n - days_before_year y;
          m = month_of y d
      in if n < 1 \<or> MAX_ORDINAL < n then Inl Overflow
         else Inr \<lparr>dt_year = y, dt_month = m, dt_day = d - days_before_month y m,
                dt_hour = r div 3600000000, dt_minute = r div 60000000 mod 60,
                dt_second = r div 1000000 mod 60, dt_micro = r mod 1000000, dt_offset = Some 0\<rparr>)"

text \<open>\<open>_normalize_scheduled_at\<close> and \<open>_as_utc\<close>: a naive value is taken as UTC.\<close>

definition as_utc :: "datetime \<Rightarrow> time_error + datetime" where
  "as_utc t = (if dt_aware t then utc_of_micros (instant t) else Inr (replace_utc t))"

section \<open>Facts\<close>

lemma days_before_year_bounds:
  assumes "1 \<le> y"
  shows "365 * (y - 1) \<le> days_before_year y" and "days_before_year y \<le> 366 * (y - 1)"
proof -
  have "365 * (int n) \<le> days_before_year (int n + 1) \<and> days_before_year (int n + 1) \<le> 366 * int n" for n
  proof (induction n)
    case 0
    then show ?case by (simp add: days_before_year_def)
  next
    case (Suc n)
    then show ?case using days_before_year_Suc [of "int n + 1"] by (simp add: add.commute)
  qed
  from this [of "nat (y - 1)"] assms
  show "365 * (y - 1) \<le> days_before_year y" "days_before_year y \<le> 366 * (y - 1)" by simp_all
qed

lemma find_first_upto:
  fixes a b :: int
  assumes "a \<le> b" "P b"
  shows "\<exists>y. find P [a..b] = Some y \<and> P y \<and> a \<le> y \<and> y \<le> b \<and> (\<forall>z. a \<le> z \<and> z < y \<longrightarrow> \<not> P z)"
  using assms(1)
proof (induction "nat (b - a)" arbitrary: a)
  case 0
  then have "a = b" by simp
  with assms(2) show ?case by auto
next
  case (Suc n)
  show ?case
  proof (cases "P a")
    case True
    with Suc.prems show ?thesis by (auto simp: upto_rec1 [of a b])
  next
    case False
    have ab: "a < b" using Suc.hyps(2) by simp
    then have "n = nat (b - (a + 1))" "a + 1 \<le> b" using Suc.hyps(2) by linarith+
    from Suc.hyps(1) [OF this] obtain y where
      y: "find P [a + 1..b] = Some y" "P y" "a + 1 \<le> y" "y \<le> b" "\<forall>z. a + 1 \<le> z \<and> z < y \<longrightarrow> \<not> P z"
      by blast
    have "\<forall>z. a \<le> z \<and> z < y \<longrightarrow> \<not> P z"
    proof (intro allI impI)
      fix z assume "a \<le> z \<and> z < y"
      with y(5) False show "\<not> P z" by (cases "z = a") auto
    qed
    with y False ab show ?thesis by (auto simp: upto_rec1 [of a b])
  qed
qed

lemma year_of:
  assumes "1 \<le> n"
  shows "1 \<le> year_of n" "days_before_year (year_of n) < n" "n \<le> days_before_year (year_of n + 1)"
proof -
  let ?P = "\<lambda>y. n \<le> days_before_year (y + 1)"
  let ?a = "max 1 (n div 366)" and ?b = "n div 365 + 1"
  have b: "1 \<le> ?b" using assms by (simp add: pos_imp_zdiv_nonneg_iff)
  have "?P ?b"
  proof -
    have "365 * (?b + 1 - 1) \<le> days_before_year (?b + 1)"
      by (rule days_before_year_bounds) (use b in simp)
    moreover have "n < 365 * ?b"
      using pos_mod_bound [of 365 n] div_mult_mod_eq [of n 365] by simp
    ultimately show ?thesis by simp
  qed
  moreover have "?a \<le> ?b"
    using assms zdiv_mono2 [of n 365 366] b by simp
  ultimately obtain y where y: "find ?P [?a..?b] = Some y" "?P y" "?a \<le> y"
    "\<forall>z. ?a \<le> z \<and> z < y \<longrightarrow> \<not> ?P z"
    using find_first_upto [of ?a ?b ?P] by blast
  have "days_before_year y < n"
  proof (cases "y = ?a")
    case True
    have "days_before_year ?a \<le> 366 * (?a - 1)" by (rule days_before_year_bounds) simp
    moreover have "366 * (?a - 1) < n"
      using assms pos_mod_sign [of 366 n] div_mult_mod_eq [of n 366] by (auto simp: max_def)
    ultimately show ?thesis using True by simp
  next
    case False
    with y(3) have "?a \<le> y - 1 \<and> y - 1 < y" by linarith
    with y(4) have "\<not> n \<le> days_before_year (y - 1 + 1)" by blast
    then show ?thesis by simp
  qed
  with y show "1 \<le> year_of n" "days_before_year (year_of n) < n" "n \<le> days_before_year (year_of n + 1)"
    by (simp_all add: year_of_def)
qed

lemma month_of:
  assumes "1 \<le> d" "d \<le> (if is_leap y then 366 else 365)"
  shows "1 \<le> month_of y d \<and> month_of y d \<le> 12 \<and> days_before_month y (month_of y d) < d \<and>
     d - days_before_month y (month_of y d) \<le> days_in_month y (month_of y d)"
  using assms by (cases "is_leap y") (simp_all add: month_of_def days_before_month_def days_in_month_def)

lemma year_of_max:
  assumes "1 \<le> n" "n \<le> MAX_ORDINAL"
  shows "year_of n \<le> 9999"
proof (rule ccontr)
  assume "\<not> year_of n \<le> 9999"
  then have "days_before_year 10000 \<le> days_before_year (year_of n)"
    by (intro days_before_year_mono) simp
  with year_of(2) [OF assms(1)] assms(2) show False
    by (simp add: MAX_ORDINAL_def days_before_year_def)
qed

lemma split_micros:
  "((r div 3600000000 * 60 + r div 60000000 mod 60) * 60 + r div 1000000 mod 60) * 1000000 + r mod 1000000 = (r :: int)"
proof -
  define s where "s = r div 1000000"
  have "r div 60000000 = s div 60" "r div 3600000000 = s div 60 div 60"
    by (simp_all add: s_def zdiv_zmult2_eq [symmetric])
  then have "(r div 3600000000 * 60 + r div 60000000 mod 60) * 60 + r div 1000000 mod 60 = s"
    by (simp add: s_def [symmetric])
  then show ?thesis by (simp add: s_def)
qed

lemma clock_of_micros:
  fixes r :: int
  assumes "0 \<le> r" "r < 86400000000"
  shows "0 \<le> r div 3600000000" "r div 3600000000 \<le> 23"
    "0 \<le> r div 60000000 mod 60" "r div 60000000 mod 60 \<le> 59"
    "0 \<le> r div 1000000 mod 60" "r div 1000000 mod 60 \<le> 59" "0 \<le> r mod 1000000" "r mod 1000000 \<le> 999999"
proof -
  have le: "x mod k \<le> k - 1" if "0 < k" for x k :: int
    using pos_mod_bound [OF that, of x] by simp
  show "0 \<le> r div 3600000000" using assms(1) by (rule pos_imp_zdiv_nonneg_iff [THEN iffD2, rotated]) simp
  have "r div 3600000000 \<le> 86399999999 div 3600000000" using assms(2) by (intro zdiv_mono1) simp_all
  then show "r div 3600000000 \<le> 23" by simp
  show "r div 60000000 mod 60 \<le> 59" using le [of 60 "r div 60000000"] by simp
  show "r div 1000000 mod 60 \<le> 59" using le [of 60 "r div 1000000"] by simp
  show "r mod 1000000 \<le> 999999" using le [of 1000000 r] by simp
qed (simp_all only: pos_mod_sign zero_less_numeral)

lemma utc_of_micros:
  assumes "utc_of_micros i = Inr t"
  shows "valid_datetime t \<and> dt_offset t = Some 0 \<and> instant t = i"
proof -
  define n where "n = i div 86400000000"
  define r where "r = i mod 86400000000"
  define y where "y = year_of n"
  define d where "d = n - days_before_year y"
  define m where "m = month_of y d"
  have nm: "1 \<le> n" "n \<le> MAX_ORDINAL"
    and t: "t = \<lparr>dt_year = y, dt_month = m, dt_day = d - days_before_month y m,
                dt_hour = r div 3600000000, dt_minute = r div 60000000 mod 60,
                dt_second = r div 1000000 mod 60, dt_micro = r mod 1000000, dt_offset = Some 0\<rparr>"
    using assms unfolding utc_of_micros_def Let_def n_def [symmetric] r_def [symmetric] y_def [symmetric]
      d_def [symmetric] m_def [symmetric]
    by (simp_all split: if_splits)
  have d: "1 \<le> d" "d \<le> (if is_leap y then 366 else 365)"
    using year_of(2,3) [OF nm(1)] days_before_year_Suc [of y] by (simp_all add: d_def y_def)
  have r: "0 \<le> r" "r < 86400000000" unfolding r_def by simp_all
  have date: "1 \<le> y" "y \<le> 9999" "1 \<le> m" "m \<le> 12" "1 \<le> d - days_before_month y m"
    "d - days_before_month y m \<le> days_in_month y m"
    using month_of [OF d] year_of(1) [OF nm(1)] year_of_max [OF nm] by (simp_all add: m_def y_def)
  have "valid_datetime t"
    using date clock_of_micros [OF r]
    by (simp only: t valid_datetime_def datetime.select_convs simp_thms)
  moreover have "instant t = i"
  proof -
    have sum: "(((N * 24 + h) * 60 + mi) * 60 + se) * 1000000 + us = N * 86400000000 + (((h * 60 + mi) * 60 + se) * 1000000 + us)"
      for N h mi se us :: int by (simp add: algebra_simps)
    have "ymd2ord y m (d - days_before_month y m) = n" by (simp add: ymd2ord_def d_def)
    then have "instant t = n * 86400000000 + r"
      unfolding instant_def local_micros_def local_minutes_def t datetime.select_convs option.case
      by (simp only: sum split_micros diff_zero)
    then show ?thesis by (simp only: n_def r_def div_mult_mod_eq)
  qed
  ultimately show ?thesis by (simp only: t datetime.select_convs simp_thms)
qed

lemma as_utc_aware:
  assumes "as_utc t = Inr v" "dt_aware t"
  shows "valid_datetime v \<and> dt_offset v = Some 0 \<and> instant v = instant t"
  using assms utc_of_micros by (simp add: as_utc_def)

lemma as_utc_valid:
  assumes "as_utc t = Inr v" "valid_datetime t"
  shows "valid_datetime v \<and> dt_offset v = Some 0"
  using assms utc_of_micros by (auto simp: as_utc_def replace_utc_def valid_datetime_def split: if_splits)

lemma ordinal_bounds:
  assumes "valid_datetime t"
  shows "1 \<le> ymd2ord (dt_year t) (dt_month t) (dt_day t)" "ymd2ord (dt_year t) (dt_month t) (dt_day t) \<le> MAX_ORDINAL"
proof -
  have v: "1 \<le> dt_year t" "dt_year t \<le> 9999" "1 \<le> dt_month t" "dt_month t \<le> 12" "1 \<le> dt_day t"
    "dt_day t \<le> days_in_month (dt_year t) (dt_month t)"
    using assms by (simp_all add: valid_datetime_def)
  have "0 \<le> 365 * (dt_year t - 1)" using v(1) by simp
  then have "0 \<le> days_before_year (dt_year t)" using days_before_year_bounds(1) [OF v(1)] by (rule order_trans)
  with day_of_year_bounds(1) [OF v(3-6)]
  show "1 \<le> ymd2ord (dt_year t) (dt_month t) (dt_day t)" by (simp add: ymd2ord_def)
  have "days_before_year (dt_year t + 1) \<le> days_before_year 10000"
    using v(2) by (intro days_before_year_mono) simp
  with day_of_year_bounds(2) [OF v(3-6)] days_before_year_Suc [of "dt_year t"]
  show "ymd2ord (dt_year t) (dt_month t) (dt_day t) \<le> MAX_ORDINAL"
    by (simp add: ymd2ord_def MAX_ORDINAL_def days_before_year_def split: if_splits)
qed

lemma local_micros_day:
  assumes "valid_datetime t"
  shows "local_micros t div 86400000000 = ymd2ord (dt_year t) (dt_month t) (dt_day t)"
proof -
  let ?r = "((dt_hour t * 60 + dt_minute t) * 60 + dt_second t) * 1000000 + dt_micro t"
  have "local_micros t = 86400000000 * ymd2ord (dt_year t) (dt_month t) (dt_day t) + ?r"
    by (simp add: local_micros_def local_minutes_def algebra_simps)
  moreover have "0 \<le> ?r" "?r < 86400000000" using assms by (simp_all add: valid_datetime_def)
  ultimately show ?thesis by (intro int_div_pos_eq) simp_all
qed

lemma local_micros_inject:
  assumes "valid_datetime s" "valid_datetime t" "local_micros s = local_micros t" "dt_offset s = dt_offset t"
  shows "s = t"
proof -
  have split: "local_micros x = local_minutes x * 60000000 + (dt_second x * 1000000 + dt_micro x) \<and>
      0 \<le> dt_second x * 1000000 + dt_micro x \<and> dt_second x * 1000000 + dt_micro x < 60000000 \<and>
      0 \<le> dt_micro x \<and> dt_micro x < 1000000" if "valid_datetime x" for x
    using that by (auto simp: valid_datetime_def local_micros_def)
  have m: "local_minutes s = local_minutes t \<and>
      dt_second s * 1000000 + dt_micro s = dt_second t * 1000000 + dt_micro t"
    by (rule radix_inject [where b = 60000000]) (use split [OF assms(1)] split [OF assms(2)] assms(3) in simp_all)
  have "dt_second s = dt_second t \<and> dt_micro s = dt_micro t"
    by (rule radix_inject [where b = 1000000]) (use split [OF assms(1)] split [OF assms(2)] m in simp_all)
  with local_minutes_inject [OF assms(1,2)] m assms(4) show ?thesis by simp
qed

text \<open>A UTC value is its own conversion.\<close>

lemma as_utc_id:
  assumes "valid_datetime t" "dt_offset t = Some 0"
  shows "as_utc t = Inr t"
proof -
  have i: "instant t = local_micros t" using assms(2) by (simp add: instant_def)
  have "as_utc t \<noteq> Inl Overflow"
    using local_micros_day [OF assms(1)] ordinal_bounds [OF assms(1)] assms(2)
    by (simp add: as_utc_def dt_aware_def utc_of_micros_def Let_def i)
  then obtain v where v: "as_utc t = Inr v" by (cases "as_utc t") (auto intro: time_error.exhaust)
  with as_utc_aware [OF v] assms have "valid_datetime v" "dt_offset v = Some 0" "instant v = instant t"
    by (simp_all add: dt_aware_def)
  then have "v = t" using assms i by (intro local_micros_inject) (simp_all add: instant_def)
  with v show ?thesis by simp
qed

end
