(* ===== verification/Notice_Tables.thy ===== *)
theory Notice_Tables
  imports Deduplication
begin

text \<open>
  The notice tables (\<open>persistence/models.py\<close>) as other components read them: source notices,
  their versions and the evidence rows, and the two ways a version becomes the \<open>NoticeView\<close> the
  pure comparators work on.  A primary key of an evidence row is its numeric value, because the
  rows are read in key order.
\<close>

record SourceNotice =
  sn_id :: pystr
  sn_source :: pystr
  sn_external_id :: pystr
  sn_source_url :: pystr
  sn_project_number :: "pystr option"
  sn_canonical_notice_id :: pystr
  sn_first_seen_at :: datetime
  sn_latest_seen_at :: datetime
  sn_content_hash :: pystr

record NoticeVersion =
  ver_id :: pystr
  ver_source_notice_id :: pystr
  ver_content_hash :: pystr
  ver_title :: "pystr option"
  ver_purchaser :: "pystr option"
  ver_region :: "pystr option"
  ver_deadline :: "datetime option"
  ver_budget_minor_units :: "int option"
  ver_budget_currency :: "pystr option"
  ver_cancellation :: bool
  ver_created_at :: int
  ver_payload_object_key :: pystr
  ver_capture_kind :: CaptureKind
  ver_parser_version :: pystr
  ver_publish_date :: "datetime option"
  ver_summary :: "pystr option"
  ver_raw_fields :: jobject

record EvidenceRow =
  evr_id :: nat
  evr_notice_version_id :: pystr
  evr_text :: pystr
  evr_start :: int
  evr_end :: int
  evr_span_hash :: pystr

record NoticeTables =
  source_notices :: "SourceNotice list"
  notice_versions :: "NoticeVersion list"
  evidence_rows :: "EvidenceRow list"

text \<open>\<open>SELECT text \<dots> WHERE notice_version_id = \<dots> ORDER BY id\<close>.\<close>

definition evidence_texts :: "NoticeTables \<Rightarrow> pystr \<Rightarrow> pystr list" where
  "evidence_texts tables vid =
     map evr_text (sort_key evr_id (filter (\<lambda>e. evr_notice_version_id e = vid) (evidence_rows tables)))"

definition find_source :: "NoticeTables \<Rightarrow> pystr \<Rightarrow> SourceNotice option" where
  "find_source tables sid = find (\<lambda>s. sn_id s = sid) (source_notices tables)"

section \<open>Views\<close>

text \<open>\<open>_build_notice_view\<close> of \<open>subscriptions/service.py\<close>; the procurement scope keeps its default.\<close>

definition build_notice_view :: "SourceNotice \<Rightarrow> NoticeVersion \<Rightarrow> pystr list \<Rightarrow> validation_error + NoticeView" where
  "build_notice_view source version texts =
     make_notice_view \<lparr>nv_source = sn_source source, nv_external_id = sn_external_id source,
       nv_canonical_url = sn_source_url source, nv_project_number = sn_project_number source,
       nv_content_hash = ver_content_hash version, nv_title = ver_title version,
       nv_purchaser = ver_purchaser version, nv_region = ver_region version,
       nv_budget_minor_units = ver_budget_minor_units version,
       nv_budget_currency = ver_budget_currency version, nv_deadline = ver_deadline version,
       nv_procurement_scope = None, nv_cancellation = ver_cancellation version,
       nv_claim_supporting_texts = texts\<rparr>"

text \<open>\<open>_load_notice_views\<close> of \<open>api/dependencies.py\<close>: the views the workflow graph is given.\<close>

definition graph_notice_view :: "NoticeTables \<Rightarrow> NoticeVersion \<Rightarrow> validation_error + NoticeView" where
  "graph_notice_view tables version =
     make_notice_view \<lparr>nv_source = u ''synthetic_demo'', nv_external_id = ver_id version,
       nv_canonical_url = u ''https://example.invalid/'' @ ver_id version, nv_project_number = None,
       nv_content_hash = ver_content_hash version, nv_title = ver_title version,
       nv_purchaser = ver_purchaser version, nv_region = ver_region version,
       nv_budget_minor_units = ver_budget_minor_units version,
       nv_budget_currency = ver_budget_currency version, nv_deadline = ver_deadline version,
       nv_procurement_scope = None, nv_cancellation = ver_cancellation version,
       nv_claim_supporting_texts = evidence_texts tables (ver_id version)\<rparr>"

fun collect_views ::
  "NoticeTables \<Rightarrow> NoticeVersion list \<Rightarrow> (pystr \<times> NoticeView) list \<Rightarrow> validation_error + (pystr \<times> NoticeView) list" where
  "collect_views tables [] views = Inr views"
| "collect_views tables (v # vs) views =
     bind_res (graph_notice_view tables v) (\<lambda>view. collect_views tables vs (dict_set (ver_id v) view views))"

definition load_views :: "NoticeTables \<Rightarrow> pystr list \<Rightarrow> validation_error + (pystr \<times> NoticeView) list" where
  "load_views tables ids =
     (if ids = [] then Inr []
      else collect_views tables (filter (\<lambda>v. ver_id v \<in> set ids) (notice_versions tables)) [])"

section \<open>Versions\<close>

text \<open>\<open>_latest_versions\<close>: the join on the latest creation time, collected into a dictionary.\<close>

definition is_latest :: "NoticeTables \<Rightarrow> NoticeVersion \<Rightarrow> bool" where
  "is_latest tables v \<longleftrightarrow>
     list_all (\<lambda>w. ver_source_notice_id w = ver_source_notice_id v \<longrightarrow> ver_created_at w \<le> ver_created_at v)
       (notice_versions tables)"

definition latest_versions :: "NoticeTables \<Rightarrow> pystr list \<Rightarrow> (pystr \<times> NoticeVersion) list" where
  "latest_versions tables source_ids =
     fold (\<lambda>v. dict_set (ver_source_notice_id v) v)
       (filter (\<lambda>v. ver_source_notice_id v \<in> set source_ids \<and> is_latest tables v) (notice_versions tables)) []"

text \<open>\<open>ORDER BY created_at DESC LIMIT 1\<close> over the versions of one notice with one content hash.\<close>

fun newest :: "NoticeVersion list \<Rightarrow> NoticeVersion option \<Rightarrow> NoticeVersion option" where
  "newest [] best = best"
| "newest (v # vs) best =
     newest vs (case best of None \<Rightarrow> Some v | Some b \<Rightarrow> if ver_created_at b < ver_created_at v then Some v else best)"

definition version_with_hash :: "NoticeTables \<Rightarrow> pystr \<Rightarrow> pystr \<Rightarrow> NoticeVersion option" where
  "version_with_hash tables sid h =
     newest (filter (\<lambda>v. ver_source_notice_id v = sid \<and> ver_content_hash v = h) (notice_versions tables)) None"

section \<open>Facts\<close>

lemma newest_in: "newest vs best = Some v \<Longrightarrow> v \<in> set vs \<or> best = Some v"
  by (induction vs best rule: newest.induct) (fastforce split: option.splits if_splits)+

lemma newest_None: "newest vs best = None \<longleftrightarrow> vs = [] \<and> best = None"
  by (induction vs best rule: newest.induct) (auto split: option.splits)

lemma version_with_hash_Some:
  "version_with_hash tables sid h = Some v \<Longrightarrow>
     v \<in> set (notice_versions tables) \<and> ver_source_notice_id v = sid \<and> ver_content_hash v = h"
  by (auto simp: version_with_hash_def dest: newest_in)

lemma version_with_hash_exists:
  "v \<in> set (notice_versions tables) \<Longrightarrow> version_with_hash tables (ver_source_notice_id v) (ver_content_hash v) \<noteq> None"
  by (auto simp: version_with_hash_def newest_None filter_empty_conv)

lemma distinct_dict_set: "distinct (map fst d) \<Longrightarrow> distinct (map fst (dict_set k v d))"
  by (simp only: keys_dict_set) (simp add: image_iff)

lemma latest_fold_keys:
  "distinct (map fst d) \<Longrightarrow> distinct (map fst (fold (\<lambda>v. dict_set (ver_source_notice_id v) v) vs d))"
  by (induction vs arbitrary: d) (simp_all add: distinct_dict_set)

lemma latest_fold:
  "map_of (fold (\<lambda>v. dict_set (ver_source_notice_id v) v) vs d) sid = Some v \<Longrightarrow>
     map_of d sid = Some v \<or> (v \<in> set vs \<and> ver_source_notice_id v = sid)"
proof (induction vs arbitrary: d)
  case (Cons w vs)
  from Cons.prems have "map_of (fold (\<lambda>v. dict_set (ver_source_notice_id v) v) vs
      (dict_set (ver_source_notice_id w) w d)) sid = Some v" by simp
  from Cons.IH [OF this] show ?case by (cases "sid = ver_source_notice_id w") auto
qed simp

lemma latest_versions_entry:
  assumes "(sid, v) \<in> set (latest_versions tables ids)"
  shows "v \<in> set (notice_versions tables)" "ver_source_notice_id v = sid" "sid \<in> set ids"
proof -
  have "distinct (map fst (latest_versions tables ids))"
    unfolding latest_versions_def by (rule latest_fold_keys) simp
  with assms have "map_of (latest_versions tables ids) sid = Some v" by simp
  from latest_fold [OF this [unfolded latest_versions_def]]
  show "v \<in> set (notice_versions tables)" "ver_source_notice_id v = sid" "sid \<in> set ids" by auto
qed

lemma latest_versions_distinct: "distinct (map fst (latest_versions tables ids))"
  unfolding latest_versions_def by (rule latest_fold_keys) simp

end
