(* ===== verification/Subscriptions.thy ===== *)
theory Subscriptions
  imports Cron Utc Notice_Tables Run_Service
begin

text \<open>
  Subscriptions (\<open>subscriptions/service.py\<close>, \<open>subscriptions/scheduler.py\<close>): the stored intent, the
  schedule, one locked cycle (run, report gate, diff, cursor), and the scheduler tick.  The run
  service is used through the operations of its protocol \<open>RunServiceLike\<close>, which may raise; the
  third-party cron trigger is a parameter.  A transaction that raises leaves the tables alone.
\<close>

section \<open>Tables\<close>

text \<open>The values of \<open>normalized_intent\<close> the code looks at.\<close>

datatype json = J_str pystr | J_num int | J_other

type_synonym json_dict = "(string \<times> json) list"

definition KEY_NEXT_RUN_AT :: string where "KEY_NEXT_RUN_AT = ''__next_run_at''"
definition KEY_CONSECUTIVE_FAILURES :: string where "KEY_CONSECUTIVE_FAILURES = ''__consecutive_failures''"
definition KEY_SOURCE_RUN_ID :: string where "KEY_SOURCE_RUN_ID = ''__source_run_id''"
definition KEY_USER_REQUEST :: string where "KEY_USER_REQUEST = ''__user_request''"

record Subscription =
  sub_id :: pystr
  sub_cron_expression :: pystr
  sub_timezone :: pystr
  normalized_intent :: "json_dict option"
  last_successful_run_at :: "datetime option"
  sub_status :: string
  trigger_key :: pystr

record SeenItem =
  seen_subscription_id :: pystr
  seen_notice_id :: pystr
  seen_content_hash :: pystr
  seen_at :: datetime

record InboxEvent =
  inbox_subscription_id :: pystr
  inbox_event_type :: InboxEventType
  inbox_notice_id :: pystr
  inbox_title :: "pystr option"
  inbox_message :: pystr

record SubDb =
  subscriptions :: "Subscription list"
  seen_items :: "SeenItem list"
  inbox_events :: "InboxEvent list"

datatype subscription_error =
    Source_run_missing pystr | Source_run_not_completed string | Intent_empty | Intent_corrupted validation_error
  | Intent_without_schedule | Bad_crontab cron_error | Trigger_rejects | No_next_run | Time_overflow
  | Subscription_not_found pystr | Bad_failure_counter | Run_port_failure pystr | Bad_view validation_error

definition find_subscription :: "SubDb \<Rightarrow> pystr \<Rightarrow> Subscription option" where
  "find_subscription db sid = find (\<lambda>s. sub_id s = sid) (subscriptions db)"

definition update_subscription :: "pystr \<Rightarrow> (Subscription \<Rightarrow> Subscription) \<Rightarrow> SubDb \<Rightarrow> SubDb" where
  "update_subscription sid f db =
     db\<lparr>subscriptions := map (\<lambda>s. if sub_id s = sid then f s else s) (subscriptions db)\<rparr>"

section \<open>The schedule\<close>

text \<open>
  \<open>_compute_next_run\<close>.  \<open>fire expr tz ref\<close> is \<open>CronTrigger.from_crontab(expr, tz).get_next_fire_time(ref, ref)\<close>:
  \<open>None\<close> when the trigger cannot be built, \<open>Some None\<close> when nothing is left to fire.
\<close>

type_synonym cron_trigger = "pystr \<Rightarrow> pystr \<Rightarrow> datetime \<Rightarrow> datetime option option"

definition compute_next_run ::
  "cron_trigger \<Rightarrow> datetime \<Rightarrow> pystr \<Rightarrow> pystr \<Rightarrow> datetime option \<Rightarrow> subscription_error + datetime" where
  "compute_next_run fire now expr tz after =
     (let reference = (case after of None \<Rightarrow> now | Some a \<Rightarrow> a);
          reference = (if dt_aware reference then reference else replace_utc reference)
      in case normalize_crontab_day_of_week expr of
           Inl e \<Rightarrow> Inl (Bad_crontab e)
         | Inr expression \<Rightarrow>
             (case fire expression tz reference of
                None \<Rightarrow> Inl Trigger_rejects
              | Some None \<Rightarrow> Inl No_next_run
              | Some (Some t) \<Rightarrow> Inr t))"

text \<open>The persisted occurrence: malformed text is ignored, an unrepresentable instant raises.\<close>

definition stored_next_run :: "Subscription \<Rightarrow> time_error + datetime option" where
  "stored_next_run sub =
     (case normalized_intent sub of
        None \<Rightarrow> Inr None
      | Some intent \<Rightarrow>
          (case map_of intent KEY_NEXT_RUN_AT of
             Some (J_str raw) \<Rightarrow>
               (case fromisoformat raw of
                  None \<Rightarrow> Inr None
                | Some parsed \<Rightarrow> bind_res (as_utc parsed) (\<lambda>t. Inr (Some t)))
           | _ \<Rightarrow> Inr None))"

definition matches_scheduled_occurrence :: "Subscription \<Rightarrow> datetime \<Rightarrow> time_error + bool" where
  "matches_scheduled_occurrence sub scheduled_at =
     (if sub_status sub \<noteq> ''active'' then Inr False
      else (case normalized_intent sub of
        None \<Rightarrow> Inr False
      | Some intent \<Rightarrow>
          (case map_of intent KEY_NEXT_RUN_AT of
             Some (J_str stored) \<Rightarrow>
               (case fromisoformat stored of
                  None \<Rightarrow> Inr False
                | Some parsed \<Rightarrow> bind_res (as_utc parsed) (\<lambda>t. Inr (dt_eq t scheduled_at)))
           | _ \<Rightarrow> Inr False)))"

definition bucket :: "datetime \<Rightarrow> pystr" where
  "bucket scheduled_at = isoformat (floor_minute scheduled_at)"

definition scheduled_run_key :: "pystr \<Rightarrow> datetime \<Rightarrow> pystr" where
  "scheduled_run_key sid scheduled_at = u ''subscription:'' @ sid @ u '':'' @ bucket scheduled_at"

definition subscription_lock_key :: "pystr \<Rightarrow> pystr \<Rightarrow> int" where
  "subscription_lock_key sid scheduled_time =
     from_bytes_signed (take 8 (sha256 (utf8_encode (sid @ u ''::'' @ scheduled_time))))"

section \<open>Creation from a confirmed run\<close>

text \<open>\<open>_resolve_intent\<close>; \<open>dump\<close> is pydantic's \<open>model_dump(mode='json')\<close>.\<close>

definition resolve_intent :: "QueryRun \<Rightarrow> subscription_error + SearchIntent" where
  "resolve_intent run =
     (case qr_search_intent run of
        None \<Rightarrow> Inl Intent_empty
      | Some stored \<Rightarrow>
          (case make_search_intent stored of
             Inl e \<Rightarrow> Inl (Intent_corrupted e)
           | Inr i \<Rightarrow> Inr i))"

definition create_from_run ::
  "cron_trigger \<Rightarrow> (SearchIntent \<Rightarrow> json_dict) \<Rightarrow> datetime \<Rightarrow> pystr \<Rightarrow> pystr \<Rightarrow> pystr \<Rightarrow> RunDb \<Rightarrow> SubDb \<Rightarrow>
     (subscription_error + Subscription) \<times> SubDb" where
  "create_from_run fire dump now fresh_id fresh_trigger_key rid runs db =
     (case find_run runs rid of
        None \<Rightarrow> (Inl (Source_run_missing rid), db)
      | Some run \<Rightarrow>
          if qr_status run \<noteq> ''completed'' then (Inl (Source_run_not_completed (qr_status run)), db)
          else (case resolve_intent run of
             Inl e \<Rightarrow> (Inl e, db)
           | Inr intent \<Rightarrow>
               (case schedule intent of
                  None \<Rightarrow> (Inl Intent_without_schedule, db)
                | Some sch \<Rightarrow>
                    (case compute_next_run fire now (cron_expression sch) (sched_timezone sch) None of
                       Inl e \<Rightarrow> (Inl e, db)
                     | Inr next_run \<Rightarrow>
                         (let stored = dict_set KEY_CONSECUTIVE_FAILURES (J_num 0)
                                (dict_set KEY_NEXT_RUN_AT (J_str (isoformat next_run))
                                  (dict_set KEY_USER_REQUEST (J_str (qr_user_request run))
                                    (dict_set KEY_SOURCE_RUN_ID (J_str rid) (dump intent))));
                              sub = \<lparr>sub_id = fresh_id, sub_cron_expression = cron_expression sch,
                                sub_timezone = sched_timezone sch, normalized_intent = Some stored,
                                last_successful_run_at = None, sub_status = ''active'',
                                trigger_key = fresh_trigger_key\<rparr>
                          in (Inr sub, db\<lparr>subscriptions := subscriptions db @ [sub]\<rparr>))))))"

section \<open>The failure policy\<close>

text \<open>\<open>int(\<dots>)\<close> of the stored counter, which is only ever written as a number.\<close>

definition failure_count :: "json_dict \<Rightarrow> subscription_error + int" where
  "failure_count intent =
     (case map_of intent KEY_CONSECUTIVE_FAILURES of
        None \<Rightarrow> Inr 0
      | Some (J_num n) \<Rightarrow> Inr n
      | Some (J_str s) \<Rightarrow>
          (let t = py_strip s in if numeric t then Inr (int (digits_value 0 t)) else Inl Bad_failure_counter)
      | Some J_other \<Rightarrow> Inl Bad_failure_counter)"

definition intent_dict :: "Subscription \<Rightarrow> json_dict" where
  "intent_dict sub = (case normalized_intent sub of None \<Rightarrow> [] | Some d \<Rightarrow> d)"

text \<open>The loaded object \<open>sub\<close> is written back to its row.\<close>

definition record_failure :: "Subscription \<Rightarrow> SubDb \<Rightarrow> subscription_error + SubDb" where
  "record_failure sub db =
     bind_res (failure_count (intent_dict sub)) (\<lambda>n.
       Inr (update_subscription (sub_id sub)
         (\<lambda>row. row\<lparr>normalized_intent := Some (dict_set KEY_CONSECUTIVE_FAILURES (J_num (n + 1)) (intent_dict sub)),
                    sub_status := (if 3 \<le> n + 1 then ''paused'' else sub_status row)\<rparr>) db))"

section \<open>The diff against what was seen\<close>

record NoticesMatch =
  nm_source_id :: pystr
  nm_view :: NoticeView

text \<open>\<open>_notice_views_from_report\<close>: the latest version of every cited notice.\<close>

definition cited_sources :: "NoticeTables \<Rightarrow> Report \<Rightarrow> pystr list" where
  "cited_sources nt rep =
     (let ids = filter (\<lambda>i. i \<noteq> []) (map item_notice_id (rep_items rep))
      in map ver_source_notice_id (filter (\<lambda>v. ver_id v \<in> set ids) (notice_versions nt)))"

fun match_views ::
  "NoticeTables \<Rightarrow> (pystr \<times> NoticeVersion) list \<Rightarrow> subscription_error + NoticesMatch list" where
  "match_views nt [] = Inr []"
| "match_views nt ((sid, version) # rest) =
     (case find_source nt sid of
        None \<Rightarrow> match_views nt rest
      | Some source \<Rightarrow>
          (case build_notice_view source version (evidence_texts nt (ver_id version)) of
             Inl e \<Rightarrow> Inl (Bad_view e)
           | Inr view \<Rightarrow>
               bind_res (match_views nt rest) (\<lambda>ms. Inr (\<lparr>nm_source_id = sn_id source, nm_view = view\<rparr> # ms))))"

definition notice_views_from_report :: "NoticeTables \<Rightarrow> Report \<Rightarrow> subscription_error + NoticesMatch list" where
  "notice_views_from_report nt rep =
     (let sources = cited_sources nt rep
      in if sources = [] then Inr [] else match_views nt (latest_versions nt sources))"

text \<open>\<open>_load_seen_views\<close>: a seen item whose source or version is gone contributes nothing.\<close>

fun load_seen ::
  "NoticeTables \<Rightarrow> SeenItem list \<Rightarrow> (pystr \<times> NoticeView) list \<Rightarrow> subscription_error + (pystr \<times> NoticeView) list" where
  "load_seen nt [] views = Inr views"
| "load_seen nt (item # rest) views =
     (case (find_source nt (seen_notice_id item), version_with_hash nt (seen_notice_id item) (seen_content_hash item)) of
        (Some source, Some version) \<Rightarrow>
          (case build_notice_view source version (evidence_texts nt (ver_id version)) of
             Inl e \<Rightarrow> Inl (Bad_view e)
           | Inr view \<Rightarrow> load_seen nt rest (dict_set (seen_notice_id item) view views))
      | _ \<Rightarrow> load_seen nt rest views)"

definition load_seen_views :: "NoticeTables \<Rightarrow> pystr \<Rightarrow> SubDb \<Rightarrow> subscription_error + (pystr \<times> NoticeView) list" where
  "load_seen_views nt sid db =
     load_seen nt (filter (\<lambda>i. seen_subscription_id i = sid) (seen_items db)) []"

record stats =
  new_notices :: nat
  material_changes :: nat
  unchanged :: nat
  failed :: bool
  skipped :: bool

definition failed_outcome :: stats where
  "failed_outcome = \<lparr>new_notices = 0, material_changes = 0, unchanged = 0, failed = True, skipped = False\<rparr>"

definition skipped_outcome :: stats where
  "skipped_outcome = \<lparr>new_notices = 0, material_changes = 0, unchanged = 0, failed = False, skipped = True\<rparr>"

datatype diff_verdict = New_notice | Materially_changed | Unchanged

text \<open>
  One notice against the previous views.  The stored hashes are those of the views, so the branch
  for a hash without a view cannot be taken; it is kept as the code has it.
\<close>

definition diff_notice :: "text_tables \<Rightarrow> (pystr \<times> NoticeView) list \<Rightarrow> NoticesMatch \<Rightarrow> diff_verdict" where
  "diff_notice tab previous_views m =
     (let seen_hashes = map (\<lambda>(nid, v). (nid, nv_content_hash v)) previous_views
      in case map_of seen_hashes (nm_source_id m) of
           None \<Rightarrow> New_notice
         | Some h \<Rightarrow>
             if h \<noteq> nv_content_hash (nm_view m)
             then (case map_of previous_views (nm_source_id m) of
                     Some previous \<Rightarrow>
                       if detect_material_changes tab previous (nm_view m) \<noteq> [] then Materially_changed else Unchanged
                   | None \<Rightarrow> Materially_changed)
             else Unchanged)"

definition shown_title :: "NoticeView \<Rightarrow> pystr" where
  "shown_title v = (case nv_title v of None \<Rightarrow> u ''None'' | Some t \<Rightarrow> t)"

definition diff_event :: "pystr \<Rightarrow> NoticesMatch \<Rightarrow> diff_verdict \<Rightarrow> InboxEvent list" where
  "diff_event sid m d =
     (case d of
        New_notice \<Rightarrow> [\<lparr>inbox_subscription_id = sid, inbox_event_type = NEW_NOTICE, inbox_notice_id = nm_source_id m,
           inbox_title = nv_title (nm_view m), inbox_message = u ''New notice: '' @ shown_title (nm_view m)\<rparr>]
      | Materially_changed \<Rightarrow> [\<lparr>inbox_subscription_id = sid, inbox_event_type = MATERIAL_CHANGE,
           inbox_notice_id = nm_source_id m, inbox_title = nv_title (nm_view m),
           inbox_message = u ''Material change in: '' @ shown_title (nm_view m)\<rparr>]
      | Unchanged \<Rightarrow> [])"

fun count_verdict :: "diff_verdict \<Rightarrow> stats \<Rightarrow> stats" where
  "count_verdict New_notice s = s\<lparr>new_notices := new_notices s + 1\<rparr>"
| "count_verdict Materially_changed s = s\<lparr>material_changes := material_changes s + 1\<rparr>"
| "count_verdict Unchanged s = s\<lparr>unchanged := unchanged s + 1\<rparr>"

definition diff_and_emit ::
  "text_tables \<Rightarrow> NoticeTables \<Rightarrow> pystr \<Rightarrow> NoticesMatch list \<Rightarrow> SubDb \<Rightarrow> subscription_error + stats \<times> SubDb" where
  "diff_and_emit tab nt sid notices db =
     bind_res (load_seen_views nt sid db) (\<lambda>previous_views.
       let verdicts = map (\<lambda>m. (m, diff_notice tab previous_views m)) notices
       in Inr (fold (\<lambda>(m, d). count_verdict d) verdicts
                 \<lparr>new_notices = 0, material_changes = 0, unchanged = 0, failed = False, skipped = False\<rparr>,
               db\<lparr>inbox_events := inbox_events db @ concat (map (\<lambda>(m, d). diff_event sid m d) verdicts)\<rparr>))"

text \<open>\<open>_advance_seen\<close>: the cursor of every notice in the report moves to its latest hash.\<close>

definition advance_one :: "pystr \<Rightarrow> datetime \<Rightarrow> NoticesMatch \<Rightarrow> SeenItem list \<Rightarrow> SeenItem list" where
  "advance_one sid now m items =
     (if list_ex (\<lambda>i. seen_subscription_id i = sid \<and> seen_notice_id i = nm_source_id m) items
      then map (\<lambda>i. if seen_subscription_id i = sid \<and> seen_notice_id i = nm_source_id m
                    then i\<lparr>seen_content_hash := nv_content_hash (nm_view m), seen_at := now\<rparr> else i) items
      else items @ [\<lparr>seen_subscription_id = sid, seen_notice_id = nm_source_id m,
                     seen_content_hash = nv_content_hash (nm_view m), seen_at = now\<rparr>])"

definition advance_seen :: "pystr \<Rightarrow> datetime \<Rightarrow> NoticesMatch list \<Rightarrow> SubDb \<Rightarrow> SubDb" where
  "advance_seen sid now notices db = db\<lparr>seen_items := fold (advance_one sid now) notices (seen_items db)\<rparr>"

section \<open>One cycle under the lock\<close>

text \<open>\<open>RunServiceLike\<close>, the report gate and the notice tables, over the state of the other tables.\<close>

record 'w RunPort =
  rp_create_run :: "pystr \<Rightarrow> pystr \<Rightarrow> 'w \<Rightarrow> (pystr + pystr \<times> bool) \<times> 'w"
  rp_execute_run :: "pystr \<Rightarrow> pystr \<Rightarrow> 'w \<Rightarrow> (pystr + string option) \<times> 'w"
  rp_confirm :: "pystr \<Rightarrow> 'w \<Rightarrow> (pystr + string option) \<times> 'w"
  rp_load_report :: "pystr \<Rightarrow> 'w \<Rightarrow> pystr + Report option"
  rp_tables :: "'w \<Rightarrow> NoticeTables"

text \<open>Executing a freshly created run; an interrupt is confirmed at once.\<close>

definition drive_run :: "'w RunPort \<Rightarrow> pystr \<Rightarrow> pystr \<Rightarrow> 'w \<Rightarrow> (pystr + string option) \<times> 'w" where
  "drive_run port rid request w =
     (case rp_execute_run port rid request w of
        (Inr st, w1) \<Rightarrow> if st = Some ''awaiting_confirmation'' then rp_confirm port rid w1 else (Inr st, w1)
      | r \<Rightarrow> r)"

definition fail_cycle :: "Subscription \<Rightarrow> SubDb \<Rightarrow> (subscription_error + stats) \<times> SubDb" where
  "fail_cycle sub db =
     (case record_failure sub db of Inl e \<Rightarrow> (Inl e, db) | Inr db' \<Rightarrow> (Inr failed_outcome, db'))"

text \<open>Steps 3 to 5, one transaction: views, diff, cursor, and the reset of the failure counter.\<close>

definition settle_cycle ::
  "text_tables \<Rightarrow> cron_trigger \<Rightarrow> datetime \<Rightarrow> NoticeTables \<Rightarrow> Subscription \<Rightarrow> datetime \<Rightarrow> bool \<Rightarrow> Report \<Rightarrow> SubDb \<Rightarrow>
     subscription_error + stats \<times> SubDb" where
  "settle_cycle tab fire now nt sub scheduled_at advance_schedule rep db =
     bind_res (notice_views_from_report nt rep) (\<lambda>notices.
     bind_res (diff_and_emit tab nt (sub_id sub) notices db) (\<lambda>(st, db1).
     let db2 = advance_seen (sub_id sub) now notices db1;
         intent = dict_set KEY_CONSECUTIVE_FAILURES (J_num 0) (intent_dict sub)
     in bind_res
          (if advance_schedule
           then bind_res (compute_next_run fire now (sub_cron_expression sub) (sub_timezone sub) (Some scheduled_at))
                  (\<lambda>t. Inr (dict_set KEY_NEXT_RUN_AT (J_str (isoformat t)) intent))
           else Inr intent) (\<lambda>intent.
        Inr (st, update_subscription (sub_id sub)
               (\<lambda>row. row\<lparr>last_successful_run_at := Some scheduled_at, normalized_intent := Some intent\<rparr>) db2))))"

definition run_locked ::
  "text_tables \<Rightarrow> cron_trigger \<Rightarrow> datetime \<Rightarrow> 'w RunPort \<Rightarrow> bool \<Rightarrow> Subscription \<Rightarrow> datetime \<Rightarrow> bool \<Rightarrow>
     SubDb \<Rightarrow> 'w \<Rightarrow> (subscription_error + stats) \<times> SubDb \<times> 'w" where
  "run_locked tab fire now port fail_every_run sub scheduled_at advance_schedule db w =
     (if fail_every_run then (case fail_cycle sub db of (r, db') \<Rightarrow> (r, db', w))
      else (case map_of (intent_dict sub) KEY_USER_REQUEST of
        Some (J_str request) \<Rightarrow>
          if request = [] then (case fail_cycle sub db of (r, db') \<Rightarrow> (r, db', w))
          else (case rp_create_run port request (scheduled_run_key (sub_id sub) scheduled_at) w of
             (Inl e, w1) \<Rightarrow> (Inl (Run_port_failure e), db, w1)
           | (Inr (rid, created), w1) \<Rightarrow>
               (case (if created then drive_run port rid request w1 else (Inr (Some ''completed''), w1)) of
                  (Inl e, w2) \<Rightarrow> (Inl (Run_port_failure e), db, w2)
                | (Inr st, w2) \<Rightarrow>
                    if st \<noteq> Some ''completed'' then (case fail_cycle sub db of (r, db') \<Rightarrow> (r, db', w2))
                    else (case rp_load_report port rid w2 of
                       Inl e \<Rightarrow> (Inl (Run_port_failure e), db, w2)
                     | Inr None \<Rightarrow> (case fail_cycle sub db of (r, db') \<Rightarrow> (r, db', w2))
                     | Inr (Some rep) \<Rightarrow>
                         (case settle_cycle tab fire now (rp_tables port w2) sub scheduled_at advance_schedule rep db of
                            Inl e \<Rightarrow> (Inl e, db, w2)
                          | Inr (s, db') \<Rightarrow> (Inr s, db', w2)))))
      | _ \<Rightarrow> (case fail_cycle sub db of (r, db') \<Rightarrow> (r, db', w))))"

text \<open>\<open>run_subscription\<close>; \<open>locked\<close> are the advisory lock keys other sessions hold.\<close>

definition run_subscription ::
  "text_tables \<Rightarrow> cron_trigger \<Rightarrow> datetime \<Rightarrow> 'w RunPort \<Rightarrow> bool \<Rightarrow> (int \<Rightarrow> bool) \<Rightarrow> pystr \<Rightarrow> datetime option \<Rightarrow> bool \<Rightarrow>
     SubDb \<Rightarrow> 'w \<Rightarrow> (subscription_error + stats) \<times> SubDb \<times> 'w" where
  "run_subscription tab fire now port fail_every_run locked sid scheduled advance_schedule db w =
     (case as_utc (case scheduled of None \<Rightarrow> now | Some t \<Rightarrow> t) of
        Inl Overflow \<Rightarrow> (Inl Time_overflow, db, w)
      | Inr scheduled_at \<Rightarrow>
          if locked (subscription_lock_key sid (bucket scheduled_at)) then (Inr skipped_outcome, db, w)
          else (case find_subscription db sid of
             None \<Rightarrow>
               if advance_schedule then (Inr skipped_outcome, db, w)
               else (Inl (Subscription_not_found sid), db, w)
           | Some sub \<Rightarrow>
               if advance_schedule
               then (case matches_scheduled_occurrence sub scheduled_at of
                       Inl Overflow \<Rightarrow> (Inl Time_overflow, db, w)
                     | Inr False \<Rightarrow> (Inr skipped_outcome, db, w)
                     | Inr True \<Rightarrow> run_locked tab fire now port fail_every_run sub scheduled_at True db w)
               else run_locked tab fire now port fail_every_run sub scheduled_at False db w))"

text \<open>
  \<open>RunService.create_run\<close> as the port's first operation: \<open>supply\<close> holds the fresh values of one
  call (random key, id, time, and what other callers commit meanwhile).
\<close>

type_synonym run_supply = "pystr \<times> pystr \<times> datetime \<times> (RunDb \<Rightarrow> RunDb)"

definition service_create_run ::
  "(run_error \<Rightarrow> pystr) \<Rightarrow> run_supply \<Rightarrow> pystr \<Rightarrow> pystr \<Rightarrow> RunDb \<Rightarrow> (pystr + pystr \<times> bool) \<times> RunDb" where
  "service_create_run describe supply request key w =
     (case supply of (fresh_key, fresh_id, now, others) \<Rightarrow>
        (case create_run request (Some key) fresh_key fresh_id now others w of
           (Inl e, w') \<Rightarrow> (Inl (describe e), w')
         | (Inr r, w') \<Rightarrow> (Inr r, w')))"

section \<open>The scheduler (scheduler.py)\<close>

fun due_from :: "datetime \<Rightarrow> Subscription list \<Rightarrow> time_error + Subscription list" where
  "due_from reference [] = Inr []"
| "due_from reference (s # ss) =
     bind_res (stored_next_run s) (\<lambda>next_run.
     bind_res (due_from reference ss) (\<lambda>rest.
       Inr ((case next_run of
               None \<Rightarrow> []
             | Some t \<Rightarrow> if instant t \<le> instant reference then [s] else []) @ rest)))"

definition list_due_subscriptions :: "datetime \<Rightarrow> SubDb \<Rightarrow> time_error + Subscription list" where
  "list_due_subscriptions now db =
     bind_res (as_utc now) (\<lambda>reference.
       due_from reference (filter (\<lambda>s. sub_status s = ''active'') (subscriptions db)))"

record tick_counters =
  tick_due :: nat
  tick_ran :: nat
  tick_skipped :: nat
  tick_failed :: nat

text \<open>\<open>_run_due_subscriptions\<close>: a cycle that raises is counted and does not stop the others.\<close>

fun run_due ::
  "text_tables \<Rightarrow> cron_trigger \<Rightarrow> datetime \<Rightarrow> 'w RunPort \<Rightarrow> (int \<Rightarrow> bool) \<Rightarrow> Subscription list \<Rightarrow> tick_counters \<Rightarrow>
     SubDb \<Rightarrow> 'w \<Rightarrow> (time_error + tick_counters) \<times> SubDb \<times> 'w" where
  "run_due tab fire now port locked [] c db w = (Inr c, db, w)"
| "run_due tab fire now port locked (s # ss) c db w =
     (case stored_next_run s of
        Inl e \<Rightarrow> (Inl e, db, w)
      | Inr None \<Rightarrow> run_due tab fire now port locked ss (c\<lparr>tick_failed := tick_failed c + 1\<rparr>) db w
      | Inr (Some scheduled_at) \<Rightarrow>
          (case run_subscription tab fire now port False locked (sub_id s) (Some scheduled_at) True db w of
             (Inl e, db', w') \<Rightarrow> run_due tab fire now port locked ss (c\<lparr>tick_failed := tick_failed c + 1\<rparr>) db' w'
           | (Inr outcome, db', w') \<Rightarrow>
               if failed outcome then run_due tab fire now port locked ss (c\<lparr>tick_failed := tick_failed c + 1\<rparr>) db' w'
               else if skipped outcome
               then run_due tab fire now port locked ss (c\<lparr>tick_skipped := tick_skipped c + 1\<rparr>) db' w'
               else run_due tab fire now port locked ss (c\<lparr>tick_ran := tick_ran c + 1\<rparr>) db' w'))"

definition run_scheduler_tick ::
  "text_tables \<Rightarrow> cron_trigger \<Rightarrow> datetime \<Rightarrow> 'w RunPort \<Rightarrow> (int \<Rightarrow> bool) \<Rightarrow> SubDb \<Rightarrow> 'w \<Rightarrow>
     (time_error + tick_counters) \<times> SubDb \<times> 'w" where
  "run_scheduler_tick tab fire now port locked db w =
     (case list_due_subscriptions now db of
        Inl e \<Rightarrow> (Inl e, db, w)
      | Inr due \<Rightarrow>
          if due = [] then (Inr \<lparr>tick_due = 0, tick_ran = 0, tick_skipped = 0, tick_failed = 0\<rparr>, db, w)
          else run_due tab fire now port locked due
                 \<lparr>tick_due = length due, tick_ran = 0, tick_skipped = 0, tick_failed = 0\<rparr> db w)"

definition advance_subscription_next_run ::
  "cron_trigger \<Rightarrow> datetime \<Rightarrow> pystr \<Rightarrow> SubDb \<Rightarrow> subscription_error + SubDb" where
  "advance_subscription_next_run fire now sid db =
     (case find_subscription db sid of
        None \<Rightarrow> Inr db
      | Some sub \<Rightarrow>
          if sub_status sub \<noteq> ''active'' then Inr db
          else bind_res (compute_next_run fire now (sub_cron_expression sub) (sub_timezone sub) (Some now)) (\<lambda>t.
            Inr (update_subscription sid
              (\<lambda>row. row\<lparr>normalized_intent := Some (dict_set KEY_NEXT_RUN_AT (J_str (isoformat t)) (intent_dict sub))\<rparr>) db)))"

end
