(* ===== verification/Subscription_Properties.thy ===== *)
theory Subscription_Properties
  imports Subscriptions
begin

text \<open>
  What the subscription cycle guarantees: the accounting of a diff, that a notice is announced
  once, that an unsuccessful cycle moves no cursor, that an occurrence is consumed once, and what
  a scheduled run that did not deliver does to its subscription.
\<close>

section \<open>Failures and skips\<close>

text \<open>All that a cycle may not touch unless it succeeds.\<close>

definition cursors_kept :: "SubDb \<Rightarrow> SubDb \<Rightarrow> bool" where
  "cursors_kept db db' \<longleftrightarrow>
     seen_items db' = seen_items db \<and> inbox_events db' = inbox_events db \<and>
     map (\<lambda>s. (sub_id s, last_successful_run_at s, stored_next_run s)) (subscriptions db') =
     map (\<lambda>s. (sub_id s, last_successful_run_at s, stored_next_run s)) (subscriptions db)"


lemma cursors_kept_refl [simp]: "cursors_kept db db"
  by (simp add: cursors_kept_def)

lemma find_subscription_Some:
  assumes "find_subscription db sid = Some sub"
  shows "sub \<in> set (subscriptions db)" "sub_id sub = sid"
  using assms by (auto simp: find_subscription_def dest: find_SomeD)


lemma find_update_subscription:
  assumes "\<And>s. sub_id (f s) = sub_id s"
  shows "find_subscription (update_subscription sid f db) sid = map_option f (find_subscription db sid)"
proof -
  have "find (\<lambda>s. sub_id s = sid) (map (\<lambda>s. if sub_id s = sid then f s else s) xs) =
      map_option f (find (\<lambda>s. sub_id s = sid) xs)" for xs
    using assms by (induction xs) auto
  then show ?thesis by (simp add: find_subscription_def update_subscription_def)
qed





lemma diff_and_emit_cases:
  assumes "diff_and_emit tab nt sid notices db = Inr (st, db')"
  obtains previous where "load_seen_views nt sid db = Inr previous"
    and "st = fold (\<lambda>(m, d). count_verdict d) (map (\<lambda>m. (m, diff_notice tab previous m)) notices)
                 \<lparr>new_notices = 0, material_changes = 0, unchanged = 0, failed = False, skipped = False\<rparr>"
    and "db' = db\<lparr>inbox_events := inbox_events db @
           concat (map (\<lambda>m. diff_event sid m (diff_notice tab previous m)) notices)\<rparr>"
  using assms by (auto simp: diff_and_emit_def bind_res_Inr Let_def comp_def)

lemma settle_cycle_cases:
  assumes "settle_cycle tab fire now nt sub due adv rep db = Inr (st, db')"
  obtains notices db1 intent where "notice_views_from_report nt rep = Inr notices"
    and "diff_and_emit tab nt (sub_id sub) notices db = Inr (st, db1)"
    and "if adv then (\<exists>t. compute_next_run fire now (sub_cron_expression sub) (sub_timezone sub) (Some due) = Inr t \<and>
             intent = dict_set KEY_NEXT_RUN_AT (J_str (isoformat t))
               (dict_set KEY_CONSECUTIVE_FAILURES (J_num 0) (intent_dict sub)))
         else intent = dict_set KEY_CONSECUTIVE_FAILURES (J_num 0) (intent_dict sub)"
    and "db' = update_subscription (sub_id sub)
           (\<lambda>row. row\<lparr>last_successful_run_at := Some due, normalized_intent := Some intent\<rparr>)
           (advance_seen (sub_id sub) now notices db1)"
  using assms by (auto simp: settle_cycle_def bind_res_Inr Let_def split: if_splits prod.splits)


text \<open>One cycle either fails through \<open>fail_cycle\<close>, raises, or settles.\<close>

lemma run_locked_cases:
  assumes "run_locked tab fire now port fail_every sub due adv db w = (r, db', w')"
  shows "fail_cycle sub db = (r, db') \<or> (db' = db \<and> (\<exists>e. r = Inl e)) \<or>
    (\<exists>rep st. settle_cycle tab fire now (rp_tables port w') sub due adv rep db = Inr (st, db') \<and> r = Inr st)"
  using assms unfolding run_locked_def
  by (auto split: prod.splits sum.splits option.splits json.splits if_splits)


section \<open>Diff accounting\<close>

lemma length_diff_event: "length (diff_event sid m d) = (if d = Unchanged then 0 else 1)"
  by (cases d) (simp_all add: diff_event_def)

lemma fold_count_total:
  "new_notices (fold (\<lambda>(m, d). count_verdict d) vs s) + material_changes (fold (\<lambda>(m, d). count_verdict d) vs s) =
     new_notices s + material_changes s + length (concat (map (\<lambda>(m, d). diff_event sid m d) vs)) \<and>
   unchanged (fold (\<lambda>(m, d). count_verdict d) vs s) +
     length (concat (map (\<lambda>(m, d). diff_event sid m d) vs)) = unchanged s + length vs"
proof (induction vs arbitrary: s)
  case (Cons v vs)
  obtain m d where v: "v = (m, d)" by (cases v)
  from Cons [of "count_verdict d s"] show ?case by (cases d) (simp_all add: v length_diff_event)
qed simp

lemma verdicts_total:
  fixes vs :: "(NoticesMatch \<times> diff_verdict) list"
  shows
  "new_notices (fold (\<lambda>(m, d). count_verdict d) vs s) + material_changes (fold (\<lambda>(m, d). count_verdict d) vs s) +
     unchanged (fold (\<lambda>(m, d). count_verdict d) vs s) =
   new_notices s + material_changes s + unchanged s + length vs"
  using fold_count_total [of vs s "[]"] by linarith

lemma fold_count_new:
  "new_notices (fold (\<lambda>(m, d). count_verdict d) vs s) =
     new_notices s + length (filter (\<lambda>(m, d). d = New_notice) vs)"
proof (induction vs arbitrary: s)
  case (Cons v vs)
  obtain m d where v: "v = (m, d)" by (cases v)
  from Cons [of "count_verdict d s"] show ?case by (cases d) (simp_all add: v)
qed simp

section \<open>A notice is announced once\<close>

text \<open>The deadline column is a timestamp with a time zone.\<close>

definition deadlines_aware :: "NoticeTables \<Rightarrow> bool" where
  "deadlines_aware nt \<longleftrightarrow>
     list_all (\<lambda>v. case ver_deadline v of None \<Rightarrow> True | Some d \<Rightarrow> dt_aware d) (notice_versions nt)"

lemma build_notice_view_Inr:
  "build_notice_view source version texts = Inr view \<Longrightarrow>
     nv_content_hash view = ver_content_hash version \<and> nv_procurement_scope view = None"
  by (auto simp: build_notice_view_def make_notice_view_def split: option.splits if_splits)

lemma build_notice_view_total:
  assumes "deadlines_aware nt" "version \<in> set (notice_versions nt)"
  shows "\<exists>view. build_notice_view source version texts = Inr view"
  using assms by (force simp: build_notice_view_def make_notice_view_def deadlines_aware_def list_all_iff split: option.splits)

lemma match_views_entries:
  assumes "match_views nt entries = Inr ms"
  shows "set (map nm_source_id ms) \<subseteq> fst ` set entries \<and>
    (\<forall>m\<in>set ms. \<exists>version. (nm_source_id m, version) \<in> set entries \<and>
       nv_content_hash (nm_view m) = ver_content_hash version \<and> find_source nt (nm_source_id m) \<noteq> None)"
  using assms
proof (induction entries arbitrary: ms)
  case (Cons e rest)
  obtain sid version where e: "e = (sid, version)" by (cases e)
  show ?case
  proof (cases "find_source nt sid")
    case None
    with Cons.prems have "match_views nt rest = Inr ms" by (simp add: e)
    from Cons.IH [OF this] show ?thesis by (force simp: e)
  next
    case (Some source)
    then have sn: "sn_id source = sid" by (auto simp: find_source_def dest: find_SomeD)
    from Cons.prems Some obtain view ms' where
      v: "build_notice_view source version (evidence_texts nt (ver_id version)) = Inr view"
      and r: "match_views nt rest = Inr ms'" and ms: "ms = \<lparr>nm_source_id = sn_id source, nm_view = view\<rparr> # ms'"
      by (auto simp: e bind_res_Inr split: sum.splits)
    from Cons.IH [OF r] build_notice_view_Inr [OF v] Some show ?thesis by (force simp: e ms sn)
  qed
qed simp

lemma match_views_distinct:
  assumes "match_views nt entries = Inr ms" "distinct (map fst entries)"
  shows "distinct (map nm_source_id ms)"
  using assms
proof (induction entries arbitrary: ms)
  case (Cons e rest)
  obtain sid version where e: "e = (sid, version)" by (cases e)
  show ?case
  proof (cases "find_source nt sid")
    case None
    with Cons show ?thesis by (simp add: e)
  next
    case (Some source)
    then have sn: "sn_id source = sid" by (auto simp: find_source_def dest: find_SomeD)
    from Cons.prems Some obtain view ms' where
      r: "match_views nt rest = Inr ms'" and ms: "ms = \<lparr>nm_source_id = sn_id source, nm_view = view\<rparr> # ms'"
      by (auto simp: e bind_res_Inr split: sum.splits)
    from match_views_entries [OF r] have "set (map nm_source_id ms') \<subseteq> fst ` set rest" by blast
    with Cons.IH [OF r] Cons.prems(2) show ?thesis by (auto simp: e ms sn)
  qed
qed simp

lemma notice_views_spec:
  assumes "notice_views_from_report nt rep = Inr ms"
  shows "distinct (map nm_source_id ms)"
    and "m \<in> set ms \<Longrightarrow> find_source nt (nm_source_id m) \<noteq> None \<and>
      version_with_hash nt (nm_source_id m) (nv_content_hash (nm_view m)) \<noteq> None"
proof -
  let ?entries = "latest_versions nt (cited_sources nt rep)"
  have ms: "ms = [] \<or> match_views nt ?entries = Inr ms"
    using assms by (auto simp: notice_views_from_report_def Let_def split: if_splits)
  show "distinct (map nm_source_id ms)"
    using ms match_views_distinct [OF _ latest_versions_distinct] by auto
  show "find_source nt (nm_source_id m) \<noteq> None \<and>
      version_with_hash nt (nm_source_id m) (nv_content_hash (nm_view m)) \<noteq> None" if "m \<in> set ms"
  proof -
    from ms that have "match_views nt ?entries = Inr ms" by auto
    from match_views_entries [OF this] that obtain version where
      v: "(nm_source_id m, version) \<in> set ?entries" "nv_content_hash (nm_view m) = ver_content_hash version"
        "find_source nt (nm_source_id m) \<noteq> None" by blast
    from version_with_hash_exists [OF latest_versions_entry(1) [OF v(1)]] latest_versions_entry(2) [OF v(1)] v
    show ?thesis by simp
  qed
qed

text \<open>The seen items of one subscription and notice.\<close>

definition seen_for :: "pystr \<Rightarrow> pystr \<Rightarrow> SeenItem list \<Rightarrow> SeenItem list" where
  "seen_for sid n items = filter (\<lambda>i. seen_subscription_id i = sid \<and> seen_notice_id i = n) items"

lemma seen_for_advance_one:
  "seen_for sid n (advance_one sid now m items) =
     (if n = nm_source_id m
      then (if seen_for sid n items = [] then
              [\<lparr>seen_subscription_id = sid, seen_notice_id = n, seen_content_hash = nv_content_hash (nm_view m), seen_at = now\<rparr>]
            else map (\<lambda>i. i\<lparr>seen_content_hash := nv_content_hash (nm_view m), seen_at := now\<rparr>) (seen_for sid n items))
      else seen_for sid n items)"
proof -
  have neq: "filter (\<lambda>i. seen_subscription_id i = sid \<and> seen_notice_id i = n)
      (map (\<lambda>i. if seen_subscription_id i = sid \<and> seen_notice_id i = k then f i else i) items) =
    (if n = k then map f (filter (\<lambda>i. seen_subscription_id i = sid \<and> seen_notice_id i = n) items)
     else filter (\<lambda>i. seen_subscription_id i = sid \<and> seen_notice_id i = n) items)"
    if "\<And>i. seen_subscription_id (f i) = seen_subscription_id i" "\<And>i. seen_notice_id (f i) = seen_notice_id i"
    for f k n and items :: "SeenItem list"
    using that by (induction items) auto
  have ex: "list_ex (\<lambda>i. seen_subscription_id i = sid \<and> seen_notice_id i = nm_source_id m) items \<longleftrightarrow>
      filter (\<lambda>i. seen_subscription_id i = sid \<and> seen_notice_id i = nm_source_id m) items \<noteq> []"
    by (simp add: list_ex_iff filter_empty_conv)
  show ?thesis
    unfolding advance_one_def seen_for_def ex
    by (cases "n = nm_source_id m") (simp_all add: neq)
qed

lemma seen_for_advance:
  assumes "distinct (map nm_source_id ms)" "m \<in> set ms"
  shows "seen_for sid (nm_source_id m) (fold (advance_one sid now) ms items) \<noteq> [] \<and>
    (\<forall>i\<in>set (seen_for sid (nm_source_id m) (fold (advance_one sid now) ms items)).
       seen_content_hash i = nv_content_hash (nm_view m))"
  using assms
proof (induction ms arbitrary: items)
  case (Cons k ms)
  have other: "seen_for sid n (fold (advance_one sid now) ms items') = seen_for sid n items'"
    if "n \<notin> set (map nm_source_id ms)" for n items'
    using that by (induction ms arbitrary: items') (simp_all add: seen_for_advance_one)
  show ?case
  proof (cases "m = k")
    case True
    with Cons.prems(1) have "nm_source_id m \<notin> set (map nm_source_id ms)" by simp
    from other [OF this] True show ?thesis by (simp add: seen_for_advance_one)
  next
    case False
    with Cons.IH [of "advance_one sid now k items"] Cons.prems show ?thesis by simp
  qed
qed simp

lemma load_seen_total:
  assumes "deadlines_aware nt"
  shows "\<exists>vs. load_seen nt items views = Inr vs"
proof (induction items arbitrary: views)
  case (Cons item rest)
  show ?case
  proof (cases "version_with_hash nt (seen_notice_id item) (seen_content_hash item)")
    case None
    with Cons show ?thesis by (simp split: option.splits)
  next
    case (Some version)
    from build_notice_view_total [OF assms] version_with_hash_Some [OF Some]
    have b: "\<exists>view. build_notice_view source version texts = Inr view" for source texts by blast
    show ?thesis
    proof (cases "find_source nt (seen_notice_id item)")
      case None
      with Cons Some show ?thesis by simp
    next
      case (Some source)
      with b [of source "evidence_texts nt (ver_id version)"] \<open>version_with_hash nt (seen_notice_id item) (seen_content_hash item) = Some version\<close> Cons
      show ?thesis by auto
    qed
  qed
qed simp

lemma load_seen_spec:
  assumes "load_seen nt items views = Inr vs"
    and "find_source nt n \<noteq> None" "version_with_hash nt n h \<noteq> None"
    and "\<forall>i\<in>set items. seen_notice_id i = n \<longrightarrow> seen_content_hash i = h"
    and "(\<exists>i\<in>set items. seen_notice_id i = n) \<or> (\<exists>v. map_of views n = Some v \<and> nv_content_hash v = h)"
  shows "\<exists>v. map_of vs n = Some v \<and> nv_content_hash v = h"
  using assms(1,4,5)
proof (induction items arbitrary: views)
  case (Cons item rest)
  note rest = Cons.IH [OF _ _ ]
  show ?case
  proof (cases "seen_notice_id item = n")
    case True
    with Cons.prems(2) have h: "seen_content_hash item = h" by simp
    from assms(2,3) obtain source version where
      sv: "find_source nt n = Some source" "version_with_hash nt n h = Some version" by auto
    from Cons.prems(1) sv h True obtain view where
      b: "build_notice_view source version (evidence_texts nt (ver_id version)) = Inr view"
      and l: "load_seen nt rest (dict_set n view views) = Inr vs" by (auto split: sum.splits)
    from build_notice_view_Inr [OF b] version_with_hash_Some [OF sv(2)] have "nv_content_hash view = h" by simp
    with Cons.IH [OF l] Cons.prems(2) show ?thesis by simp
  next
    case False
    from Cons.prems(1) obtain views' where l: "load_seen nt rest views' = Inr vs"
      and views': "views' = views \<or> (\<exists>view. views' = dict_set (seen_notice_id item) view views)"
      by (auto split: option.splits sum.splits)
    from views' False have "map_of views' n = map_of views n" by auto
    with Cons.IH [OF l] Cons.prems(2,3) False show ?thesis by auto
  qed
qed simp

text \<open>A notice whose cursor is at its latest version is unchanged.\<close>

lemma diff_notice_same_hash:
  "map_of previous (nm_source_id m) = Some v \<Longrightarrow> nv_content_hash v = nv_content_hash (nm_view m) \<Longrightarrow>
     diff_notice tab previous m = Unchanged"
  by (simp add: diff_notice_def Let_def map_of_map)

lemma all_unchanged:
  assumes "\<And>m. m \<in> set notices \<Longrightarrow> diff_notice tab previous m = Unchanged"
  shows "concat (map (\<lambda>m. diff_event sid m (diff_notice tab previous m)) notices) = [] \<and>
    fold (\<lambda>(m, d). count_verdict d) (map (\<lambda>m. (m, diff_notice tab previous m)) notices) s =
      s\<lparr>unchanged := unchanged s + length notices\<rparr>"
  using assms
proof (induction notices arbitrary: s)
  case (Cons m ms)
  then have "diff_notice tab previous m = Unchanged" by simp
  with Cons.IH [of "count_verdict Unchanged s"] Cons.prems show ?case by (simp add: diff_event_def)
qed simp

section \<open>Occurrences\<close>

text \<open>What the schedule trigger promises: the next fire time lies strictly after the reference, and
  is a representable time with an offset.\<close>

definition fires_later :: "cron_trigger \<Rightarrow> bool" where
  "fires_later fire \<longleftrightarrow> (\<forall>e z ref n. fire e z ref = Some (Some n) \<longrightarrow>
     instant ref < instant n \<and> valid_datetime n \<and> (\<exists>off. dt_offset n = Some off \<and> - 86400000000 < off \<and> off < 86400000000) \<and>
     (\<exists>v. as_utc n = Inr v))"

lemma as_utc_is_aware: "as_utc t = Inr v \<Longrightarrow> dt_aware v"
  using utc_of_micros by (auto simp: as_utc_def dt_aware_def replace_utc_def split: if_splits)

lemma next_run_not_due:
  assumes "fires_later fire" "compute_next_run fire now e z (Some due) = Inr t" "dt_aware due"
    and "normalized_intent s = Some (dict_set KEY_NEXT_RUN_AT (J_str (isoformat t)) d)"
  shows "matches_scheduled_occurrence s due = Inr False"
proof -
  from assms(2,3) obtain expression where "fire expression z due = Some (Some t)"
    by (auto simp: compute_next_run_def Let_def split: sum.splits option.splits)
  with assms(1) obtain off v where t: "instant due < instant t" "valid_datetime t" "dt_offset t = Some off"
    "- 86400000000 < off" "off < 86400000000" "as_utc t = Inr v"
    unfolding fires_later_def by blast
  have "fromisoformat (isoformat t) = Some t"
    by (rule fromisoformat_isoformat) (use t in simp_all)
  moreover have "instant v = instant t" using as_utc_aware [OF t(6)] t(3) by (simp add: dt_aware_def)
  ultimately show ?thesis
    using t(1,6) assms(4) by (simp add: matches_scheduled_occurrence_def dt_eq_def)
qed

lemma settle_cycle_consumes:
  assumes "settle_cycle tab fire now nt sub due True rep db = Inr (st, db')"
    and "fires_later fire" "dt_aware due" "find_subscription db (sub_id sub) = Some sub"
  shows "\<exists>row. find_subscription db' (sub_id sub) = Some row \<and> matches_scheduled_occurrence row due = Inr False"
proof -
  from assms(1) obtain notices db1 intent t where
    d: "diff_and_emit tab nt (sub_id sub) notices db = Inr (st, db1)"
    and t: "compute_next_run fire now (sub_cron_expression sub) (sub_timezone sub) (Some due) = Inr t"
      "intent = dict_set KEY_NEXT_RUN_AT (J_str (isoformat t)) (dict_set KEY_CONSECUTIVE_FAILURES (J_num 0) (intent_dict sub))"
    and db': "db' = update_subscription (sub_id sub)
           (\<lambda>row. row\<lparr>last_successful_run_at := Some due, normalized_intent := Some intent\<rparr>)
           (advance_seen (sub_id sub) now notices db1)"
    by (rule settle_cycle_cases) auto
  have "find_subscription (advance_seen (sub_id sub) now notices db1) (sub_id sub) = Some sub"
    using d assms(4) by (auto elim!: diff_and_emit_cases simp: find_subscription_def advance_seen_def)
  then have "find_subscription db' (sub_id sub) =
      Some (sub\<lparr>last_successful_run_at := Some due, normalized_intent := Some intent\<rparr>)"
    unfolding db' by (subst find_update_subscription) simp_all
  moreover have "matches_scheduled_occurrence
      (sub\<lparr>last_successful_run_at := Some due, normalized_intent := Some intent\<rparr>) due = Inr False"
    by (rule next_run_not_due [OF assms(2) t(1) assms(3)]) (simp add: t(2))
  ultimately show ?thesis by blast
qed

lemma fail_cycle_Inr: "fail_cycle sub db = (Inr st, db') \<Longrightarrow> failed st"
  by (auto simp: fail_cycle_def failed_outcome_def split: sum.splits)

lemma run_subscription_cases:
  assumes "run_subscription tab fire now port fail_every locked sid scheduled adv db w = (r, db', w')"
  shows "(db' = db \<and> (r = Inr skipped_outcome \<or> (\<exists>e. r = Inl e))) \<or>
    (\<exists>due sub. as_utc (case scheduled of None \<Rightarrow> now | Some t \<Rightarrow> t) = Inr due \<and> find_subscription db sid = Some sub \<and>
       run_locked tab fire now port fail_every sub due adv db w = (r, db', w'))"
  using assms unfolding run_subscription_def
  by (auto split: sum.splits time_error.splits option.splits if_splits bool.splits)

section \<open>A run that did not deliver\<close>

text \<open>What the bridge relies on in the creation of runs by key.\<close>

locale keyed_runs =
  fixes create :: "'s \<Rightarrow> pystr \<Rightarrow> pystr \<Rightarrow> 'w \<Rightarrow> (pystr + pystr \<times> bool) \<times> 'w"
    and run_of :: "'w \<Rightarrow> pystr \<Rightarrow> pystr option"
  assumes create_loads: "key \<noteq> [] \<Longrightarrow> run_of w key = Some rid \<Longrightarrow> create s request key w = (Inr (rid, False), w)"
    and create_stores: "key \<noteq> [] \<Longrightarrow> create s request key w = (Inr (rid, c), w') \<Longrightarrow> run_of w' key = Some rid"
begin

lemma created_once:
  "key \<noteq> [] \<Longrightarrow> create s request key w = (Inr (rid, c), w') \<Longrightarrow> create s' request' key w' = (Inr (rid, False), w')"
  by (rule create_loads [OF _ create_stores])

text \<open>A later cycle for an occurrence whose run has no report fails without executing anything.\<close>

lemma undelivered_cycle:
  assumes "rp_create_run port = create s" "run_of w (scheduled_run_key (sub_id sub) due) = Some rid"
    and "rp_load_report port rid w = Inr None"
    and "map_of (intent_dict sub) KEY_USER_REQUEST = Some (J_str request)" "request \<noteq> []"
  shows "run_locked tab fire now port False sub due adv db w = (case fail_cycle sub db of (r, db') \<Rightarrow> (r, db', w))"
proof -
  have "scheduled_run_key (sub_id sub) due \<noteq> []" by (simp add: scheduled_run_key_def)
  from create_loads [OF this assms(2)] assms show ?thesis by (simp add: run_locked_def)
qed

end

interpretation executor_runs: keyed_runs "service_create_run describe" "\<lambda>db key. map_option qr_id (find_run_key db key)"
  for describe
proof unfold_locales
  fix key :: pystr and w rid and s :: run_supply and request
  assume key: "key \<noteq> []" and found: "map_option qr_id (find_run_key w key) = Some rid"
  obtain fk fid now others where s: "s = (fk, fid, now, others)" by (cases s)
  from found obtain r where "find_run_key w key = Some r" "qr_id r = rid" by auto
  with key show "service_create_run describe s request key w = (Inr (rid, False), w)"
    by (simp add: service_create_run_def s create_run_def)
next
  fix key :: pystr and s :: run_supply and request w rid c w'
  assume key: "key \<noteq> []" and res: "service_create_run describe s request key w = (Inr (rid, c), w')"
  obtain fk fid now others where s: "s = (fk, fid, now, others)" by (cases s)
  from res have run: "create_run request (Some key) fk fid now others w = (Inr (rid, c), w')"
    by (auto simp: service_create_run_def s split: prod.splits sum.splits)
  show "map_option qr_id (find_run_key w' key) = Some rid"
  proof (cases "find_run_key w key")
    case (Some r)
    with run key show ?thesis by (auto simp: create_run_def)
  next
    case None
    let ?w2 = "others w\<lparr>query_runs := query_runs (others w) @ [pending_run fid key request now]\<rparr>"
    show ?thesis
    proof (cases "runs_unique ?w2")
      case True
      then have "key \<notin> qr_run_key ` set (query_runs (others w))" by (simp add: runs_unique_def pending_run_def)
      then have "find (\<lambda>r. qr_run_key r = key) (query_runs (others w)) = None" by (auto simp: find_None_iff)
      then have "find_run_key ?w2 key = Some (pending_run fid key request now)"
        by (simp add: find_run_key_def find_append_None pending_run_def)
      with run key None True show ?thesis by (auto simp: create_run_def Let_def pending_run_def)
    next
      case False
      with run key None show ?thesis by (auto simp: create_run_def Let_def split: option.splits)
    qed
  qed
qed

text \<open>A subscription after one more failure.\<close>

definition failed_row :: "int \<Rightarrow> Subscription \<Rightarrow> Subscription" where
  "failed_row n sub = sub\<lparr>
     normalized_intent := Some (dict_set KEY_CONSECUTIVE_FAILURES (J_num (n + 1)) (intent_dict sub)),
     sub_status := (if 3 \<le> n + 1 then ''paused'' else sub_status sub)\<rparr>"

lemma fail_cycle_row:
  assumes "find_subscription db sid = Some sub" "failure_count (intent_dict sub) = Inr n"
  shows "\<exists>db'. fail_cycle sub db = (Inr failed_outcome, db') \<and> find_subscription db' sid = Some (failed_row n sub)"
  using assms find_subscription_Some(2) [OF assms(1)]
  by (auto simp: fail_cycle_def record_failure_def failed_row_def find_update_subscription)

lemma failed_row_simps:
  "sub_id (failed_row n sub) = sub_id sub"
  "intent_dict (failed_row n sub) = dict_set KEY_CONSECUTIVE_FAILURES (J_num (n + 1)) (intent_dict sub)"
  "sub_status (failed_row n sub) = (if 3 \<le> n + 1 then ''paused'' else sub_status sub)"
  "normalized_intent (failed_row n sub) = Some (intent_dict (failed_row n sub))"
  by (simp_all add: failed_row_def intent_dict_def)

lemma failed_row_kept:
  assumes "n < 2"
  shows "matches_scheduled_occurrence (failed_row n sub) due = matches_scheduled_occurrence sub due"
    and "map_of (intent_dict (failed_row n sub)) KEY_USER_REQUEST = map_of (intent_dict sub) KEY_USER_REQUEST"
    and "failure_count (intent_dict (failed_row n sub)) = Inr (n + 1)"
  using assms
  by (auto simp: matches_scheduled_occurrence_def failed_row_simps intent_dict_def KEY_CONSECUTIVE_FAILURES_def
      KEY_NEXT_RUN_AT_def KEY_USER_REQUEST_def failure_count_def failed_row_def split: option.splits)

text \<open>One tick of the scheduler for one subscription, as a step on all tables.\<close>

definition tick_one ::
  "text_tables \<Rightarrow> cron_trigger \<Rightarrow> datetime \<Rightarrow> 'w RunPort \<Rightarrow> pystr \<Rightarrow> datetime \<Rightarrow> SubDb \<times> 'w \<Rightarrow> SubDb \<times> 'w" where
  "tick_one tab fire now port sid t = (\<lambda>(db, w).
     case run_subscription tab fire now port False (\<lambda>_. False) sid (Some t) True db w of (r, db', w') \<Rightarrow> (db', w'))"

lemma tick_one_failing:
  assumes "as_utc t = Inr due" "find_subscription db sid = Some sub" "matches_scheduled_occurrence sub due = Inr True"
    and "failure_count (intent_dict sub) = Inr n"
    and "run_locked tab fire now port False sub due True db w = (case fail_cycle sub db of (r, db') \<Rightarrow> (r, db', w'))"
  shows "\<exists>db'. tick_one tab fire now port sid t (db, w) = (db', w') \<and> find_subscription db' sid = Some (failed_row n sub)"
  using fail_cycle_row [OF assms(2,4)] assms by (auto simp: tick_one_def run_subscription_def)

section \<open>A small instance\<close>

definition demo_tab :: text_tables where
  "demo_tab = \<lparr>nfkc = (\<lambda>s. s), lower = ascii_lower, netloc_ok = (\<lambda>n. True)\<rparr>"

definition demo_due :: datetime where
  "demo_due = \<lparr>dt_year = 2026, dt_month = 1, dt_day = 5, dt_hour = 9, dt_minute = 0, dt_second = 0, dt_micro = 0, dt_offset = Some 0\<rparr>"

definition demo_next :: datetime where "demo_next = demo_due\<lparr>dt_day := 6\<rparr>"

definition demo_fire :: cron_trigger where
  "demo_fire e z ref = (if instant ref < instant demo_next then Some (Some demo_next) else Some None)"

definition demo_sub :: Subscription where
  "demo_sub = \<lparr>sub_id = u ''s'', sub_cron_expression = u ''0 9 * * *'', sub_timezone = u ''UTC'',
     normalized_intent = Some [(KEY_NEXT_RUN_AT, J_str (isoformat demo_due)), (KEY_USER_REQUEST, J_str (u ''q'')),
       (KEY_CONSECUTIVE_FAILURES, J_num 0)],
     last_successful_run_at = None, sub_status = ''active'', trigger_key = u ''t''\<rparr>"

definition demo_subs :: SubDb where
  "demo_subs = \<lparr>subscriptions = [demo_sub], seen_items = [], inbox_events = []\<rparr>"

definition demo_tables :: NoticeTables where
  "demo_tables = \<lparr>
     source_notices = [\<lparr>sn_id = u ''n'', sn_source = u ''ccgp'', sn_external_id = u ''e'', sn_source_url = u ''x'',
       sn_project_number = None, sn_canonical_notice_id = u ''c'', sn_first_seen_at = demo_due, sn_latest_seen_at = demo_due,
       sn_content_hash = u ''h''\<rparr>],
     notice_versions = [\<lparr>ver_id = u ''v'', ver_source_notice_id = u ''n'', ver_content_hash = u ''h'', ver_title = None,
       ver_purchaser = None, ver_region = None, ver_deadline = None, ver_budget_minor_units = None,
       ver_budget_currency = None, ver_cancellation = False, ver_created_at = 0,
       ver_payload_object_key = u ''k'', ver_capture_kind = RAW_RESPONSE, ver_parser_version = u ''p'', ver_publish_date = None,
       ver_summary = None, ver_raw_fields = []\<rparr>],
     evidence_rows = []\<rparr>"

definition demo_report :: Report where
  "demo_report = \<lparr>rep_run_id = u ''r'', generated_at = demo_due, query_conditions = [], freshness_window = None,
     source_availability = [], completeness_warning = None,
     rep_items = [\<lparr>item_notice_id = u ''v'', item_title = u ''t'', known_fields = [], unknown_fields = [],
       relevance_reason = None, risk_note = None, item_citations = [], item_claims = []\<rparr>]\<rparr>"

definition demo_port :: "unit RunPort" where
  "demo_port = \<lparr>rp_create_run = (\<lambda>request key w. (Inr (u ''r'', True), w)),
     rp_execute_run = (\<lambda>rid request w. (Inr (Some ''completed''), w)),
     rp_confirm = (\<lambda>rid w. (Inr (Some ''completed''), w)),
     rp_load_report = (\<lambda>rid w. Inr (Some demo_report)), rp_tables = (\<lambda>w. demo_tables)\<rparr>"

lemma demo_valid: "valid_datetime demo_due" "valid_datetime demo_next" "dt_offset demo_due = Some 0" "dt_offset demo_next = Some 0"
  by (simp_all add: demo_due_def demo_next_def valid_datetime_def days_in_month_def)

lemma demo_utc: "as_utc demo_due = Inr demo_due" "as_utc demo_next = Inr demo_next"
  by (simp_all add: as_utc_id demo_valid)

lemma demo_iso: "fromisoformat (isoformat demo_due) = Some demo_due"
  by (rule fromisoformat_isoformat) (simp_all add: demo_valid)

lemma demo_matches: "matches_scheduled_occurrence demo_sub demo_due = Inr True"
  by (simp add: matches_scheduled_occurrence_def demo_sub_def demo_iso demo_utc dt_eq_def)

lemma demo_fires_later: "fires_later demo_fire"
  using demo_valid demo_utc by (auto simp: fires_later_def demo_fire_def split: if_splits)

lemma demo_settle:
  "\<exists>db'. settle_cycle tab demo_fire demo_due demo_tables demo_sub demo_due True demo_report demo_subs =
     Inr (\<lparr>new_notices = 1, material_changes = 0, unchanged = 0, failed = False, skipped = False\<rparr>, db')"
proof -
  have lt: "instant demo_due < instant demo_next"
    by (simp add: demo_due_def demo_next_def instant_def local_micros_def local_minutes_def ymd2ord_def)
  have c: "compute_next_run demo_fire now (sub_cron_expression demo_sub) z (Some demo_due) = Inr demo_next" for now z
    using lt by (simp add: demo_sub_def compute_next_run_def dt_aware_def demo_valid demo_fire_def normalize_crontab_day_of_week_def
        normalize_field_def py_split_ws_def py_isspace_def expand_token_def match_all_token_def take_step_def star_def Let_def)
  have n: "notice_views_from_report demo_tables demo_report = Inr [\<lparr>nm_source_id = u ''n'', nm_view =
      \<lparr>nv_source = u ''ccgp'', nv_external_id = u ''e'', nv_canonical_url = u ''x'', nv_project_number = None,
       nv_content_hash = u ''h'', nv_title = None, nv_purchaser = None, nv_region = None, nv_budget_minor_units = None,
       nv_budget_currency = None, nv_deadline = None, nv_procurement_scope = None, nv_cancellation = False,
       nv_claim_supporting_texts = []\<rparr>\<rparr>]"
    by (simp add: notice_views_from_report_def cited_sources_def demo_tables_def demo_report_def latest_versions_def
        is_latest_def find_source_def build_notice_view_def make_notice_view_def evidence_texts_def Let_def)
  show ?thesis
    by (simp add: settle_cycle_def n diff_and_emit_def load_seen_views_def demo_subs_def c
        diff_notice_def Let_def)
qed

section \<open>Properties\<close>



text \<open>C27: A due occurrence is consumed at most once: after a cycle of the scheduler succeeded, every
  later cycle for the same occurrence, by this or another worker, is skipped and changes nothing.\<close>

theorem occurrence_consumed_once:
  assumes "run_subscription tab fire now port fail_every locked sid (Some t) True db w = (Inr st, db', w')"
    and "\<not> failed st" "\<not> skipped st" "fires_later fire"
  shows "run_subscription tab' fire' now' port' fail_every' locked' sid (Some t) True db' w'' =
     (Inr skipped_outcome, db', w'')"
proof -
  from run_subscription_cases [OF assms(1)] assms(3) obtain due sub where
    due: "as_utc t = Inr due" and sub: "find_subscription db sid = Some sub"
    and run: "run_locked tab fire now port fail_every sub due True db w = (Inr st, db', w')"
    by (auto simp: skipped_outcome_def)
  from run_locked_cases [OF run] assms(2) fail_cycle_Inr obtain rep where
    "settle_cycle tab fire now (rp_tables port w') sub due True rep db = Inr (st, db')" by blast
  from settle_cycle_consumes [OF this assms(4) as_utc_is_aware [OF due]] sub find_subscription_Some(2) [OF sub]
  obtain row where "find_subscription db' sid = Some row" "matches_scheduled_occurrence row due = Inr False" by auto
  with due show ?thesis by (simp add: run_subscription_def)
qed

theorem occurrence_consumed_once_witness:
  "let db' = fst (snd (run_subscription demo_tab demo_fire demo_due demo_port False (\<lambda>_. False) (u ''s'') (Some demo_due) True demo_subs ()))
   in run_subscription demo_tab demo_fire demo_due demo_port False (\<lambda>_. False) (u ''s'') (Some demo_due) True db' () =
     (Inr skipped_outcome, db', ())"
proof -
  obtain db' where settle: "settle_cycle demo_tab demo_fire demo_due demo_tables demo_sub demo_due True demo_report demo_subs =
     Inr (\<lparr>new_notices = 1, material_changes = 0, unchanged = 0, failed = False, skipped = False\<rparr>, db')"
    using demo_settle by blast
  have "find_subscription demo_subs (u ''s'') = Some demo_sub"
    by (simp add: find_subscription_def demo_subs_def demo_sub_def)
  moreover have "run_locked demo_tab demo_fire demo_due demo_port False demo_sub demo_due True demo_subs () =
      (Inr \<lparr>new_notices = 1, material_changes = 0, unchanged = 0, failed = False, skipped = False\<rparr>, db', ())"
    using settle by (simp add: run_locked_def demo_port_def drive_run_def intent_dict_def demo_sub_def
        KEY_NEXT_RUN_AT_def KEY_USER_REQUEST_def)
  ultimately have run: "run_subscription demo_tab demo_fire demo_due demo_port False (\<lambda>_. False) (u ''s'') (Some demo_due) True demo_subs () =
      (Inr \<lparr>new_notices = 1, material_changes = 0, unchanged = 0, failed = False, skipped = False\<rparr>, db', ())"
    by (simp only: run_subscription_def demo_utc demo_matches option.case sum.case bool.case if_True if_False)
  have "run_subscription demo_tab demo_fire demo_due demo_port False (\<lambda>_. False) (u ''s'') (Some demo_due) True db' () =
     (Inr skipped_outcome, db', ())"
    by (rule occurrence_consumed_once [OF run _ _ demo_fires_later]) simp_all
  then show ?thesis by (simp only: run Let_def fst_conv snd_conv)
qed

text \<open>A notice is announced once: after a successful cycle, a further cycle over the same report
  and notices succeeds, counts every notice as unchanged, and adds no inbox event.\<close>

theorem rerun_announces_nothing:
  assumes "settle_cycle tab fire now nt sub due adv rep db = Inr (st, db')"
    and "deadlines_aware nt" "sub_id sub' = sub_id sub"
  shows "\<exists>db''. settle_cycle tab fire now' nt sub' due' False rep db' =
      Inr (\<lparr>new_notices = 0, material_changes = 0,
             unchanged = new_notices st + material_changes st + unchanged st, failed = False, skipped = False\<rparr>, db'') \<and>
    inbox_events db'' = inbox_events db'"
proof -
  from assms(1) obtain notices db1 intent where n: "notice_views_from_report nt rep = Inr notices"
    and d: "diff_and_emit tab nt (sub_id sub) notices db = Inr (st, db1)"
    and db': "db' = update_subscription (sub_id sub)
           (\<lambda>row. row\<lparr>last_successful_run_at := Some due, normalized_intent := Some intent\<rparr>)
           (advance_seen (sub_id sub) now notices db1)"
    by (rule settle_cycle_cases)
  let ?items = "filter (\<lambda>i. seen_subscription_id i = sub_id sub) (seen_items db')"
  obtain previous where p: "load_seen nt ?items [] = Inr previous"
    using load_seen_total [OF assms(2)] by blast
  have same: "diff_notice tab previous m = Unchanged" if m: "m \<in> set notices" for m
  proof -
    have items: "seen_for (sub_id sub) (nm_source_id m) (seen_items db') =
        filter (\<lambda>i. seen_notice_id i = nm_source_id m) ?items"
      by (simp add: seen_for_def conj_commute)
    have adv: "seen_items db' = fold (advance_one (sub_id sub) now) notices (seen_items db1)"
      by (simp add: db' update_subscription_def advance_seen_def)
    from seen_for_advance [OF notice_views_spec(1) [OF n] m, of "sub_id sub" now "seen_items db1"]
    have "(\<exists>i\<in>set ?items. seen_notice_id i = nm_source_id m) \<and>
        (\<forall>i\<in>set ?items. seen_notice_id i = nm_source_id m \<longrightarrow> seen_content_hash i = nv_content_hash (nm_view m))"
      unfolding adv [symmetric] items by (auto simp: filter_empty_conv)
    with load_seen_spec [OF p] notice_views_spec(2) [OF n m] obtain v where
      "map_of previous (nm_source_id m) = Some v" "nv_content_hash v = nv_content_hash (nm_view m)" by blast
    then show ?thesis by (rule diff_notice_same_hash)
  qed
  have total: "new_notices st + material_changes st + unchanged st = length notices"
    using d by (auto elim!: diff_and_emit_cases simp: verdicts_total)
  have "diff_and_emit tab nt (sub_id sub') notices db' =
      Inr (\<lparr>new_notices = 0, material_changes = 0, unchanged = length notices, failed = False, skipped = False\<rparr>, db')"
    using p all_unchanged [of notices tab previous] same assms(3)
    by (simp add: diff_and_emit_def load_seen_views_def comp_def)
  then show ?thesis
    by (simp add: settle_cycle_def n total advance_seen_def update_subscription_def)
qed

theorem rerun_announces_nothing_witness:
  "\<exists>db' db''. settle_cycle demo_tab demo_fire demo_due demo_tables demo_sub demo_due False demo_report db' =
      Inr (\<lparr>new_notices = 0, material_changes = 0, unchanged = 1, failed = False, skipped = False\<rparr>, db'') \<and>
    inbox_events db'' = inbox_events db'"
proof -
  obtain db' where settle: "settle_cycle demo_tab demo_fire demo_due demo_tables demo_sub demo_due True demo_report demo_subs =
     Inr (\<lparr>new_notices = 1, material_changes = 0, unchanged = 0, failed = False, skipped = False\<rparr>, db')"
    using demo_settle by blast
  from rerun_announces_nothing [OF settle _ refl, of demo_due demo_due] show ?thesis
    by (auto simp: deadlines_aware_def demo_tables_def)
qed

text \<open>A scheduled run that does not deliver is never executed again by the scheduler: the next
  ticks find the run by its key, find no report, and count a failure each, so three ticks pause
  the subscription although the run was executed only once.\<close>

theorem undelivered_run_pauses:
  assumes "as_utc t = Inr due" "find_subscription db sid = Some sub" "matches_scheduled_occurrence sub due = Inr True"
    and "failure_count (intent_dict sub) = Inr 0"
    and "map_of (intent_dict sub) KEY_USER_REQUEST = Some (J_str request)" "request \<noteq> []"
    and ports: "rp_create_run p1 = service_create_run describe s1" "rp_create_run p2 = service_create_run describe s2"
      "rp_create_run p3 = service_create_run describe s3"
    and first: "service_create_run describe s1 request (scheduled_run_key sid due) w = (Inr (rid, True), w1)"
      "drive_run p1 rid request w1 = (Inr st, w2)" "st \<noteq> Some ''completed''"
    and kept: "map_option qr_id (find_run_key w2 (scheduled_run_key sid due)) = Some rid"
    and no_report: "rp_load_report p2 rid w2 = Inr None" "rp_load_report p3 rid w2 = Inr None"
  shows "\<exists>db' row. tick_one tab fire now3 p3 sid t (tick_one tab fire now2 p2 sid t (tick_one tab fire now1 p1 sid t (db, w)))
       = (db', w2) \<and>
     find_subscription db' sid = Some row \<and> sub_status row = ''paused'' \<and> failure_count (intent_dict row) = Inr 3"
proof -
  have sid: "sub_id sub = sid" using find_subscription_Some(2) [OF assms(2)] .
  have "run_locked tab fire now1 p1 False sub due True db w = (case fail_cycle sub db of (r, db') \<Rightarrow> (r, db', w2))"
    using assms(5,6) first ports(1) sid by (simp add: run_locked_def)
  from tick_one_failing [OF assms(1-4) this] obtain db1 where
    t1: "tick_one tab fire now1 p1 sid t (db, w) = (db1, w2)" "find_subscription db1 sid = Some (failed_row 0 sub)" by blast
  let ?s1 = "failed_row 0 sub"
  have m1: "matches_scheduled_occurrence ?s1 due = Inr True" "failure_count (intent_dict ?s1) = Inr 1"
    "map_of (intent_dict ?s1) KEY_USER_REQUEST = Some (J_str request)" "sub_id ?s1 = sid"
    using failed_row_kept [of 0 sub] assms(3,5) sid by (simp_all add: failed_row_simps)
  have "run_locked tab fire now2 p2 False ?s1 due True db1 w2 = (case fail_cycle ?s1 db1 of (r, db') \<Rightarrow> (r, db', w2))"
    by (rule executor_runs.undelivered_cycle [OF ports(2) _ no_report(1) m1(3) assms(6)]) (simp add: m1(4) kept)
  from tick_one_failing [OF assms(1) t1(2) m1(1,2) this] obtain db2 where
    t2: "tick_one tab fire now2 p2 sid t (db1, w2) = (db2, w2)" "find_subscription db2 sid = Some (failed_row 1 ?s1)" by blast
  let ?s2 = "failed_row 1 ?s1"
  have m2: "matches_scheduled_occurrence ?s2 due = Inr True" "failure_count (intent_dict ?s2) = Inr 2"
    "map_of (intent_dict ?s2) KEY_USER_REQUEST = Some (J_str request)" "sub_id ?s2 = sid"
    using failed_row_kept [of 1 ?s1] m1 by (simp_all add: failed_row_simps)
  have "run_locked tab fire now3 p3 False ?s2 due True db2 w2 = (case fail_cycle ?s2 db2 of (r, db') \<Rightarrow> (r, db', w2))"
    by (rule executor_runs.undelivered_cycle [OF ports(3) _ no_report(2) m2(3) assms(6)]) (simp add: m2(4) kept)
  from tick_one_failing [OF assms(1) t2(2) m2(1,2) this] obtain db3 where
    t3: "tick_one tab fire now3 p3 sid t (db2, w2) = (db3, w2)" "find_subscription db3 sid = Some (failed_row 2 ?s2)" by blast
  have "sub_status (failed_row 2 ?s2) = ''paused''" "failure_count (intent_dict (failed_row 2 ?s2)) = Inr 3"
    by (simp_all add: failed_row_simps failure_count_def)
  with t1(1) t2(1) t3 show ?thesis by auto
qed

definition stuck_port :: "run_supply \<Rightarrow> RunDb RunPort" where
  "stuck_port supply = \<lparr>rp_create_run = service_create_run (\<lambda>e. []) supply,
     rp_execute_run = (\<lambda>rid request w. (Inr (Some ''retryable''), w)), rp_confirm = (\<lambda>rid w. (Inr None, w)),
     rp_load_report = (\<lambda>rid w. Inr None), rp_tables = (\<lambda>w. demo_tables)\<rparr>"

theorem undelivered_run_pauses_witness:
  "\<exists>db' w' row. tick_one demo_tab demo_fire demo_due (stuck_port ([], u ''r3'', demo_due, \<lambda>w. w)) (u ''s'') demo_due
      (tick_one demo_tab demo_fire demo_due (stuck_port ([], u ''r2'', demo_due, \<lambda>w. w)) (u ''s'') demo_due
      (tick_one demo_tab demo_fire demo_due (stuck_port ([], u ''r1'', demo_due, \<lambda>w. w)) (u ''s'') demo_due
        (demo_subs, \<lparr>query_runs = [], run_events = []\<rparr>))) = (db', w') \<and>
     find_subscription db' (u ''s'') = Some row \<and> sub_status row = ''paused'' \<and> failure_count (intent_dict row) = Inr 3"
proof -
  define w0 :: RunDb where "w0 = \<lparr>query_runs = [], run_events = []\<rparr>"
  let ?key = "scheduled_run_key (u ''s'') demo_due"
  have key: "?key \<noteq> []" by (simp add: scheduled_run_key_def)
  define w1 where "w1 = w0\<lparr>query_runs := [pending_run (u ''r1'') ?key (u ''q'') demo_due]\<rparr>"
  have first: "service_create_run (\<lambda>e. []) ([], u ''r1'', demo_due, \<lambda>w. w) (u ''q'') ?key w0 = (Inr (u ''r1'', True), w1)"
    using key by (simp add: service_create_run_def create_run_def find_run_key_def runs_unique_def w0_def w1_def Let_def)
  have kept: "map_option qr_id (find_run_key w1 ?key) = Some (u ''r1'')"
    by (rule executor_runs.create_stores [OF key first])
  have sub: "find_subscription demo_subs (u ''s'') = Some demo_sub"
    by (simp add: find_subscription_def demo_subs_def demo_sub_def)
  have req: "failure_count (intent_dict demo_sub) = Inr 0" "map_of (intent_dict demo_sub) KEY_USER_REQUEST = Some (J_str (u ''q''))"
    by (simp_all add: failure_count_def intent_dict_def demo_sub_def KEY_CONSECUTIVE_FAILURES_def KEY_NEXT_RUN_AT_def KEY_USER_REQUEST_def)
  have port: "rp_create_run (stuck_port s) = service_create_run (\<lambda>e. []) s" "rp_load_report (stuck_port s) rid w = Inr None"
    "drive_run (stuck_port s) rid q w = (Inr (Some ''retryable''), w)" for s rid q w
    by (simp_all add: stuck_port_def drive_run_def)
  have "u ''q'' \<noteq> []" "Some ''retryable'' \<noteq> Some ''completed''" by simp_all
  from undelivered_run_pauses [OF demo_utc(1) sub demo_matches req this(1) port(1) port(1) port(1) first port(3) this(2) kept
      port(2) port(2)]
  show ?thesis unfolding w0_def [symmetric] by blast
qed

text \<open>The key of a scheduled run names its occurrence exactly: two UTC occurrences share a key if
  and only if they belong to one subscription and lie in the same minute.\<close>

theorem scheduled_run_key_iff:
  assumes "58 \<notin> set sid" "58 \<notin> set sid'"
    and "valid_datetime s" "valid_datetime t" "dt_offset s = Some 0" "dt_offset t = Some 0"
  shows "scheduled_run_key sid s = scheduled_run_key sid' t \<longleftrightarrow>
     sid = sid' \<and> instant s div 60000000 = instant t div 60000000"
proof -
  have "sid @ 58 # a = sid' @ 58 # b \<longleftrightarrow> sid = sid' \<and> a = b" for a b
  proof
    assume eq: "sid @ 58 # a = sid' @ 58 # b"
    have "takeWhile (\<lambda>c. c \<noteq> 58) (x @ 58 # y) = x" if "58 \<notin> set x" for x y :: "nat list"
      using that by (induction x) auto
    with eq assms(1,2) have "sid = sid'" by metis
    with eq show "sid = sid' \<and> a = b" by simp
  qed simp
  then show ?thesis
    using isoformat_floor_inject [OF assms(3-6)] instant_minutes assms
    by (simp add: scheduled_run_key_def bucket_def)
qed

theorem scheduled_run_key_iff_witness:
  "scheduled_run_key (u ''s'') demo_due \<noteq> scheduled_run_key (u ''s'') demo_next"
proof -
  have "instant demo_due div 60000000 \<noteq> instant demo_next div 60000000"
    by (simp add: demo_due_def demo_next_def instant_def local_micros_def local_minutes_def ymd2ord_def
        days_before_year_def days_before_month_def)
  then show ?thesis
    using scheduled_run_key_iff [of "u ''s''" "u ''s''" demo_due demo_next] demo_valid by simp
qed

lemma run_due_counts:
  "run_due tab fire now port locked ss c db w = (Inr c', db', w') \<Longrightarrow>
     tick_due c' = tick_due c \<and>
     tick_ran c' + tick_skipped c' + tick_failed c' = tick_ran c + tick_skipped c + tick_failed c + length ss"
proof (induction ss arbitrary: c db w)
  case (Cons s ss)
  obtain next_run where n: "stored_next_run s = Inr next_run" using Cons.prems by (cases "stored_next_run s") simp_all
  show ?case
  proof (cases next_run)
    case None
    with Cons.prems n Cons.IH show ?thesis by fastforce
  next
    case (Some due)
    obtain r db1 w1 where run: "run_subscription tab fire now port False locked (sub_id s) (Some due) True db w = (r, db1, w1)"
      by (cases "run_subscription tab fire now port False locked (sub_id s) (Some due) True db w") auto
    have "\<exists>f. (f = c\<lparr>tick_failed := tick_failed c + 1\<rparr> \<or> f = c\<lparr>tick_skipped := tick_skipped c + 1\<rparr> \<or> f = c\<lparr>tick_ran := tick_ran c + 1\<rparr>) \<and>
        run_due tab fire now port locked ss f db1 w1 = (Inr c', db', w')"
    proof (cases r)
      case (Inl e)
      with Cons.prems n Some run show ?thesis by auto
    next
      case (Inr st)
      with Cons.prems n Some run show ?thesis by (cases "failed st"; cases "skipped st") auto
    qed
    with Cons.IH show ?thesis by fastforce
  qed
qed simp

text \<open>A scheduler tick accounts for every due subscription: each is counted once, as run, skipped
  or failed.\<close>

theorem tick_counters_balanced:
  assumes "run_scheduler_tick tab fire now port locked db w = (Inr c, db', w')"
  shows "tick_due c = tick_ran c + tick_skipped c + tick_failed c"
proof -
  obtain due where "list_due_subscriptions now db = Inr due"
    using assms by (cases "list_due_subscriptions now db") (auto simp: run_scheduler_tick_def)
  with assms show ?thesis
    by (auto simp: run_scheduler_tick_def split: if_splits dest!: run_due_counts)
qed

theorem tick_counters_balanced_witness:
  "\<exists>c db'. run_scheduler_tick demo_tab demo_fire demo_due demo_port (\<lambda>_. True) demo_subs () = (Inr c, db', ()) \<and>
     tick_due c = 1 \<and> tick_due c = tick_ran c + tick_skipped c + tick_failed c"
proof -
  have next_run: "stored_next_run demo_sub = Inr (Some demo_due)"
    by (simp add: stored_next_run_def demo_sub_def demo_iso demo_utc)
  have tick: "run_scheduler_tick demo_tab demo_fire demo_due demo_port (\<lambda>_. True) demo_subs () =
      (Inr \<lparr>tick_due = 1, tick_ran = 0, tick_skipped = 1, tick_failed = 0\<rparr>, demo_subs, ())"
  proof -
    have "sub_status demo_sub = ''active''" by (simp add: demo_sub_def)
    then have due: "list_due_subscriptions demo_due demo_subs = Inr [demo_sub]"
      by (simp add: list_due_subscriptions_def demo_subs_def next_run demo_utc)
    have run: "run_subscription demo_tab demo_fire demo_due demo_port False (\<lambda>_. True) (sub_id demo_sub) (Some demo_due) True demo_subs ()
        = (Inr skipped_outcome, demo_subs, ())"
      by (simp add: run_subscription_def demo_utc)
    show ?thesis by (simp add: run_scheduler_tick_def due next_run run skipped_outcome_def)
  qed
  from tick_counters_balanced [OF this] tick show ?thesis by auto
qed

text \<open>A stored next run that names no representable instant aborts the listing of all due
  subscriptions, although malformed state is meant to be ignored.\<close>

lemma overflow_aborts_listing:
  "as_utc now = Inr r \<Longrightarrow> s \<in> set (subscriptions db) \<Longrightarrow> sub_status s = ''active'' \<Longrightarrow> stored_next_run s = Inl e \<Longrightarrow>
     list_due_subscriptions now db = Inl Overflow"
proof -
  assume a: "as_utc now = Inr r" "s \<in> set (subscriptions db)" "sub_status s = ''active''" "stored_next_run s = Inl e"
  have any: "(x :: time_error) = Overflow" for x by (cases x)
  have "s \<in> set ss \<Longrightarrow> due_from r ss = Inl Overflow" for ss
  proof (induction ss)
    case (Cons x xs)
    show ?case
    proof (cases "x = s")
      case True
      with a(4) any [of e] show ?thesis by simp
    next
      case False
      with Cons have rest: "due_from r xs = Inl Overflow" by simp
      show ?thesis
      proof (cases "stored_next_run x")
        case (Inl e')
        with any [of e'] show ?thesis by simp
      qed (simp add: rest)
    qed
  qed simp
  with a show "list_due_subscriptions now db = Inl Overflow" by (simp add: list_due_subscriptions_def)
qed

section \<open>What a diff cannot see\<close>

lemma load_seen_missing:
  assumes "load_seen nt items views = Inr vs" "map_of views n = None"
    and "\<forall>i\<in>set items. seen_notice_id i = n \<longrightarrow> version_with_hash nt n (seen_content_hash i) = None"
  shows "map_of vs n = None"
  using assms
proof (induction items arbitrary: views)
  case (Cons item rest)
  show ?case
  proof (cases "seen_notice_id item = n")
    case True
    with Cons.prems have "load_seen nt rest views = Inr vs" by (auto split: option.splits)
    from Cons.IH [OF this Cons.prems(2)] Cons.prems(3) show ?thesis by simp
  next
    case False
    from Cons.prems(1) obtain views' where l: "load_seen nt rest views' = Inr vs"
      and views': "views' = views \<or> (\<exists>view. views' = dict_set (seen_notice_id item) view views)"
      by (auto split: option.splits sum.splits)
    from views' False Cons.prems(2) have "map_of views' n = None" by auto
    from Cons.IH [OF l this] Cons.prems(3) show ?thesis by simp
  qed
qed simp

text \<open>A notice that was seen in a version that is gone is announced as new: the seen item without
  its version contributes no previous view, so the comparison by hash alone never happens.\<close>

theorem lost_version_announced_as_new:
  assumes "load_seen_views nt sid db = Inr previous"
    and "\<forall>i\<in>set (seen_items db). seen_subscription_id i = sid \<and> seen_notice_id i = nm_source_id m \<longrightarrow>
           version_with_hash nt (nm_source_id m) (seen_content_hash i) = None"
  shows "diff_notice tab previous m = New_notice"
proof -
  have "map_of previous (nm_source_id m) = None"
    by (rule load_seen_missing [OF assms(1) [unfolded load_seen_views_def]]) (use assms(2) in auto)
  then show ?thesis by (simp add: diff_notice_def Let_def map_of_map)
qed

theorem lost_version_announced_as_new_witness:
  "\<forall>view. diff_notice demo_tab [] \<lparr>nm_source_id = u ''n'', nm_view = view\<rparr> = New_notice"
proof
  fix view
  let ?db = "\<lparr>subscriptions = [], seen_items = [\<lparr>seen_subscription_id = u ''s'', seen_notice_id = u ''n'',
    seen_content_hash = u ''old'', seen_at = demo_due\<rparr>], inbox_events = []\<rparr>"
  have none: "version_with_hash demo_tables (u ''n'') (u ''old'') = None"
    by (simp add: version_with_hash_def demo_tables_def)
  have views: "load_seen_views demo_tables (u ''s'') ?db = Inr []"
    using none by (simp add: load_seen_views_def split: option.splits)
  show "diff_notice demo_tab [] \<lparr>nm_source_id = u ''n'', nm_view = view\<rparr> = New_notice"
    by (rule lost_version_announced_as_new [OF views]) (use none in simp)
qed

text \<open>Views built from the tables carry no procurement scope, so a change of scope goes unnoticed.\<close>

lemma scope_never_reported:
  assumes "build_notice_view s v texts = Inr a" "build_notice_view s' v' texts' = Inr b"
  shows "SCOPE \<notin> mc_field ` set (detect_material_changes tab a b)"
  using build_notice_view_Inr [OF assms(1)] build_notice_view_Inr [OF assms(2)]
  by (auto simp: detect_material_changes_def change_if_def)

end
