(* ===== verification/Objects.thy ===== *)
theory Objects
  imports Prelude "HOL-Library.List_Lexorder"
begin

text \<open>
  Object stores (\<open>delivery/objects.py\<close>): \<open>LocalObjectStore\<close> over a directory tree without symbolic
  links, \<open>S3ObjectStore\<close> over one bucket of an S3 client, and the contract \<open>object_store\<close> both keep.
  Operating system errors other than those the tree itself causes, and failures of the network, are
  left out here; the clients of a store handle an operation that raises.
\<close>

type_synonym bytes = "nat list"

datatype store_error = Key_escapes | Null_byte | Not_found | Not_a_directory | Is_a_directory

section \<open>The local store\<close>

text \<open>A path below the root is its list of components; the root is the empty list.\<close>

record LocalFs =
  fs_files :: "(pystr list \<times> bytes) list"
  fs_dirs :: "pystr list list"

definition is_file :: "LocalFs \<Rightarrow> pystr list \<Rightarrow> bool" where
  "is_file fs cs \<longleftrightarrow> map_of (fs_files fs) cs \<noteq> None"

definition is_dir :: "LocalFs \<Rightarrow> pystr list \<Rightarrow> bool" where
  "is_dir fs cs \<longleftrightarrow> cs = [] \<or> cs \<in> set (fs_dirs fs)"

text \<open>Normalising a relative POSIX path: empty components and \<open>.\<close> are dropped.\<close>

definition path_parts :: "pystr \<Rightarrow> pystr list" where
  "path_parts key = filter (\<lambda>p. p \<noteq> [] \<and> p \<noteq> u ''.'') (py_split_on 47 key)"

text \<open>
  \<open>_resolve\<close>.  A key without \<open>..\<close> stays below the root, so the last comparison of the code never
  rejects one here; \<open>Path.resolve\<close> rejects a null byte.
\<close>

definition resolve_key :: "pystr \<Rightarrow> store_error + pystr list" where
  "resolve_key key =
     (if py_contains (u ''..'') key \<or> prefix (u ''/'') key then Inl Key_escapes
      else if 0 \<in> set key then Inl Null_byte
      else Inr (path_parts key))"

definition local_put :: "pystr \<Rightarrow> bytes \<Rightarrow> LocalFs \<Rightarrow> (store_error + unit) \<times> LocalFs" where
  "local_put key data fs =
     (case resolve_key key of
        Inl e \<Rightarrow> (Inl e, fs)
      | Inr cs \<Rightarrow>
          (let parents = filter (\<lambda>d. d \<noteq> []) (prefixes (butlast cs))
           in if list_ex (is_file fs) parents then (Inl Not_a_directory, fs)
              else (let fs1 = fs\<lparr>fs_dirs := fs_dirs fs @ filter (\<lambda>d. d \<notin> set (fs_dirs fs)) parents\<rparr>
                    in if is_dir fs1 cs then (Inl Is_a_directory, fs1)
                       else (Inr (), fs1\<lparr>fs_files := dict_set cs data (fs_files fs1)\<rparr>))))"

definition local_get :: "pystr \<Rightarrow> LocalFs \<Rightarrow> store_error + bytes" where
  "local_get key fs =
     bind_res (resolve_key key) (\<lambda>cs.
       case map_of (fs_files fs) cs of
         Some data \<Rightarrow> Inr data
       | None \<Rightarrow> if is_dir fs cs then Inl Is_a_directory else Inl Not_found)"

definition local_exists :: "pystr \<Rightarrow> LocalFs \<Rightarrow> store_error + bool" where
  "local_exists key fs =
     (case resolve_key key of Inl e \<Rightarrow> Inr False | Inr cs \<Rightarrow> Inr (is_file fs cs \<or> is_dir fs cs))"

definition local_list_keys :: "pystr \<Rightarrow> LocalFs \<Rightarrow> store_error + pystr list" where
  "local_list_keys pre fs =
     bind_res (resolve_key (if pre = [] then u ''.'' else pre)) (\<lambda>_.
       Inr (sort (filter (prefix pre) (map (\<lambda>(cs, _). py_join (u ''/'') cs) (fs_files fs)))))"

definition local_delete :: "pystr \<Rightarrow> LocalFs \<Rightarrow> (store_error + unit) \<times> LocalFs" where
  "local_delete key fs =
     (case resolve_key key of
        Inl e \<Rightarrow> (Inl e, fs)
      | Inr cs \<Rightarrow>
          if is_file fs cs then (Inr (), fs\<lparr>fs_files := filter (\<lambda>(p, _). p \<noteq> cs) (fs_files fs)\<rparr>)
          else if is_dir fs cs then (Inl Is_a_directory, fs)
          else (Inr (), fs))"

section \<open>The S3 store\<close>

text \<open>The configured bucket as the client presents it: a map from keys to objects.\<close>

type_synonym bucket_objects = "(pystr \<times> bytes) list"

definition strip_slashes :: "pystr \<Rightarrow> pystr" where
  "strip_slashes s = rev (dropWhile (\<lambda>c. c = 47) (rev (dropWhile (\<lambda>c. c = 47) s)))"

definition full_key :: "pystr \<Rightarrow> pystr \<Rightarrow> store_error + pystr" where
  "full_key pre key =
     (if py_contains (u ''..'') key \<or> prefix (u ''/'') key then Inl Key_escapes
      else Inr (if pre \<noteq> [] then pre @ u ''/'' @ key else key))"

definition logical_base :: "pystr \<Rightarrow> pystr" where
  "logical_base pre = (if pre \<noteq> [] then pre @ u ''/'' else [])"

definition full_prefix :: "pystr \<Rightarrow> pystr \<Rightarrow> store_error + pystr" where
  "full_prefix pre p =
     (if py_contains (u ''..'') p \<or> prefix (u ''/'') p then Inl Key_escapes
      else (let logical_prefix = strip_slashes p
            in Inr (logical_base pre @ logical_prefix)))"

definition s3_put :: "pystr \<Rightarrow> pystr \<Rightarrow> bytes \<Rightarrow> bucket_objects \<Rightarrow> (store_error + unit) \<times> bucket_objects" where
  "s3_put pre key data b =
     (case full_key pre key of Inl e \<Rightarrow> (Inl e, b) | Inr k \<Rightarrow> (Inr (), dict_set k data b))"

definition s3_get :: "pystr \<Rightarrow> pystr \<Rightarrow> bucket_objects \<Rightarrow> store_error + bytes" where
  "s3_get pre key b =
     bind_res (full_key pre key) (\<lambda>k. case map_of b k of None \<Rightarrow> Inl Not_found | Some d \<Rightarrow> Inr d)"

definition s3_exists :: "pystr \<Rightarrow> pystr \<Rightarrow> bucket_objects \<Rightarrow> store_error + bool" where
  "s3_exists pre key b = bind_res (full_key pre key) (\<lambda>k. Inr (map_of b k \<noteq> None))"

definition s3_delete :: "pystr \<Rightarrow> pystr \<Rightarrow> bucket_objects \<Rightarrow> (store_error + unit) \<times> bucket_objects" where
  "s3_delete pre key b =
     (case full_key pre key of Inl e \<Rightarrow> (Inl e, b) | Inr k \<Rightarrow> (Inr (), filter (\<lambda>(p, _). p \<noteq> k) b))"

text \<open>
  One response of \<open>list_objects_v2\<close>: the keys of a page (\<open>None\<close> for an item without a string key),
  the truncation flag and the continuation token.  \<open>page tok\<close> is the client's answer to the request
  with token \<open>tok\<close>; the loop follows the tokens and may not end for an arbitrary client.
\<close>

record s3_page =
  page_keys :: "pystr option list"
  is_truncated :: bool
  next_token :: "pystr option"

definition logical_keys :: "pystr \<Rightarrow> pystr option list \<Rightarrow> pystr list" where
  "logical_keys base ks =
     concat (map (\<lambda>k. case k of None \<Rightarrow> [] | Some s \<Rightarrow> if prefix base s then [drop (length base) s] else []) ks)"

partial_function (option) list_pages ::
  "(pystr option \<Rightarrow> s3_page) \<Rightarrow> pystr \<Rightarrow> pystr option \<Rightarrow> pystr list \<Rightarrow> pystr list option" where
  "list_pages page base tok keys =
     (let response = page tok;
          keys' = keys @ logical_keys base (page_keys response)
      in if \<not> is_truncated response then Some keys'
         else (case next_token response of
                 None \<Rightarrow> Some keys'
               | Some t \<Rightarrow> if t = [] then Some keys' else list_pages page base (Some t) keys'))"

text \<open>\<open>client pre tok\<close> answers for the prefix \<open>pre\<close>; \<open>None\<close> is a listing that never returns.\<close>

definition s3_list_keys ::
  "(pystr \<Rightarrow> pystr option \<Rightarrow> s3_page) \<Rightarrow> pystr \<Rightarrow> pystr \<Rightarrow> (store_error + pystr list) option" where
  "s3_list_keys client pre p =
     (case full_prefix pre p of
        Inl e \<Rightarrow> Some (Inl e)
      | Inr fp \<Rightarrow> map_option (\<lambda>ks. Inr (sort ks)) (list_pages (client fp) (logical_base pre) None []))"

section \<open>Facts about paths\<close>

text \<open>A component that names a file or directory inside its parent.\<close>

definition plain_part :: "pystr \<Rightarrow> bool" where
  "plain_part p \<longleftrightarrow> p \<noteq> [] \<and> p \<noteq> u ''.'' \<and> p \<noteq> u ''..'' \<and> 47 \<notin> set p \<and> 0 \<notin> set p"

lemma resolve_key_plain:
  assumes "resolve_key key = Inr cs"
  shows "list_all plain_part cs"
proof -
  have safe: "\<not> py_contains (u ''..'') key" "0 \<notin> set key" and cs: "cs = path_parts key"
    using assms by (auto simp: resolve_key_def split: if_splits)
  have "plain_part p" if "p \<in> set cs" for p
  proof -
    from that cs have "p \<in> set (py_split_on 47 key)" "p \<noteq> []" "p \<noteq> u ''.''" by (auto simp: path_parts_def)
    from split_on_part [OF this(1)] obtain a b where "47 \<notin> set p" and key: "key = a @ p @ b" by blast
    moreover from key safe(1) have "p \<noteq> u ''..''" using py_contains_middle by metis
    moreover from key safe(2) have "0 \<notin> set p" by simp
    ultimately show ?thesis using \<open>p \<noteq> []\<close> \<open>p \<noteq> u ''.''\<close> by (simp add: plain_part_def)
  qed
  then show ?thesis by (simp add: list_all_iff)
qed

lemma py_contains_sublist: "py_contains sub s \<longleftrightarrow> sublist sub s"
proof
  assume "py_contains sub s"
  then obtain i where "find_pos sub s = Some i" by (auto simp: py_contains_def)
  from find_pos_Some [OF this] have "s = take i s @ sub @ drop (length sub) (drop i s)"
    by (metis append_take_drop_id)
  then show "sublist sub s" unfolding sublist_def by blast
qed (auto simp: sublist_def py_contains_middle)

lemma sublist_around:
  assumes "sublist w (a @ x # b)" "x \<notin> set w"
  shows "sublist w a \<or> sublist w b"
proof -
  consider "sublist w a" | "sublist w (x # b)" | v y where "w = v @ y" "suffix v a" "prefix y (x # b)"
    using assms(1) unfolding sublist_append by blast
  then show ?thesis
  proof cases
    case 2
    then have "prefix w (x # b) \<or> sublist w b" by (simp add: sublist_Cons_right)
    with assms(2) show ?thesis by (auto simp: prefix_Cons)
  next
    case 3
    with assms(2) have "y = []" by (auto simp: prefix_Cons)
    with 3 show ?thesis using suffix_imp_sublist by auto
  qed simp
qed

lemma sublist_join:
  assumes "sublist w (py_join [x] ws)" "x \<notin> set w" "w \<noteq> []"
  shows "\<exists>p\<in>set ws. sublist w p"
  using assms(1)
proof (induction "[x]" ws rule: py_join.induct)
  case (3 p q ps)
  from sublist_around [of w p x "py_join [x] (q # ps)"] 3(2) assms(2)
  consider "sublist w p" | "sublist w (py_join [x] (q # ps))" by auto
  then show ?case using 3(1) by cases auto
qed (use assms in auto)

lemma resolve_key_no_dots:
  assumes "resolve_key key = Inr cs"
  shows "\<not> py_contains (u ''..'') (py_join (u ''/'') cs)"
proof
  assume "py_contains (u ''..'') (py_join (u ''/'') cs)"
  then obtain p where "p \<in> set cs" "sublist (u ''..'') p"
    using sublist_join [of "u ''..''" 47 cs] by (auto simp: py_contains_sublist)
  moreover from assms this(1) have "p \<in> set (py_split_on 47 key)" and safe: "\<not> sublist (u ''..'') key"
    by (auto simp: resolve_key_def path_parts_def py_contains_sublist split: if_splits)
  moreover from split_on_part [OF this(1)] have "sublist p key" by (auto simp: sublist_def)
  ultimately show False using sublist_order.order_trans by blast
qed

lemma resolve_key_join:
  assumes "list_all plain_part cs" "cs \<noteq> []" "\<not> py_contains (u ''..'') (py_join (u ''/'') cs)"
  shows "resolve_key (py_join (u ''/'') cs) = Inr cs"
proof -
  have plain: "\<forall>w\<in>set cs. 47 \<notin> set w \<and> 0 \<notin> set w \<and> w \<noteq> [] \<and> w \<noteq> u ''.''"
    using assms(1) by (auto simp: list_all_iff plain_part_def)
  have "py_split_on 47 (py_join (u ''/'') cs) = cs"
    using py_split_on_join [of cs 47] assms(2) plain by simp
  then have "path_parts (py_join (u ''/'') cs) = cs"
    using plain by (simp add: path_parts_def)
  moreover have "\<not> prefix (u ''/'') (py_join (u ''/'') cs)" "0 \<notin> set (py_join (u ''/'') cs)"
    using plain assms(2) by (induction "u ''/''" cs rule: py_join.induct) (auto simp: neq_Nil_conv)
  ultimately show ?thesis using assms(3) by (simp add: resolve_key_def)
qed

section \<open>The invariant of the local store\<close>

text \<open>Stored files have plain paths, all their parents are directories, and no directory is a file.\<close>

definition file_ok :: "pystr list set \<Rightarrow> pystr list \<Rightarrow> bool" where
  "file_ok dirs cs \<longleftrightarrow> list_all plain_part cs \<and> \<not> py_contains (u ''..'') (py_join (u ''/'') cs) \<and> cs \<noteq> [] \<and>
     cs \<notin> dirs \<and> (\<forall>d. strict_prefix d cs \<and> d \<noteq> [] \<longrightarrow> d \<in> dirs)"

definition fs_ok :: "LocalFs \<Rightarrow> bool" where
  "fs_ok fs \<longleftrightarrow> distinct (map fst (fs_files fs)) \<and> (\<forall>cs\<in>fst ` set (fs_files fs). file_ok (set (fs_dirs fs)) cs)"

lemma file_ok_mono: "file_ok D cs \<Longrightarrow> D \<subseteq> D' \<Longrightarrow> cs \<notin> D' \<Longrightarrow> file_ok D' cs"
  by (auto simp: file_ok_def)

lemma local_put_cases:
  assumes "local_put key data fs = (r, fs')"
  obtains (Refused) e where "r = Inl e" "fs' = fs"
  | (Made_dirs) cs where "r = Inl Is_a_directory" "resolve_key key = Inr cs"
      "fs_files fs' = fs_files fs" "set (fs_dirs fs') = set (fs_dirs fs) \<union> {d. prefix d (butlast cs) \<and> d \<noteq> []}"
      "\<forall>d. prefix d (butlast cs) \<and> d \<noteq> [] \<longrightarrow> \<not> is_file fs d"
  | (Stored) cs where "r = Inr ()" "resolve_key key = Inr cs" "cs \<noteq> []" "cs \<notin> set (fs_dirs fs')"
      "fs_files fs' = dict_set cs data (fs_files fs)"
      "set (fs_dirs fs') = set (fs_dirs fs) \<union> {d. prefix d (butlast cs) \<and> d \<noteq> []}"
      "\<forall>d. prefix d (butlast cs) \<and> d \<noteq> [] \<longrightarrow> \<not> is_file fs d"
proof (cases "resolve_key key")
  case (Inl e)
  with assms Refused show ?thesis by (auto simp: local_put_def)
next
  case (Inr cs)
  let ?parents = "filter (\<lambda>d. d \<noteq> []) (prefixes (butlast cs))"
  let ?fs1 = "fs\<lparr>fs_dirs := fs_dirs fs @ filter (\<lambda>d. d \<notin> set (fs_dirs fs)) ?parents\<rparr>"
  show ?thesis
  proof (cases "list_ex (is_file fs) ?parents")
    case True
    with assms Inr Refused show ?thesis by (auto simp: local_put_def Let_def)
  next
    case False
    have dirs: "set (fs_dirs ?fs1) = set (fs_dirs fs) \<union> {d. prefix d (butlast cs) \<and> d \<noteq> []}" by auto
    have free: "\<forall>d. prefix d (butlast cs) \<and> d \<noteq> [] \<longrightarrow> \<not> is_file fs d"
      using False by (auto simp: list_ex_iff)
    show ?thesis
    proof (cases "is_dir ?fs1 cs")
      case True
      with assms Inr False have "r = Inl Is_a_directory" "fs' = ?fs1" by (simp_all add: local_put_def Let_def)
      with Made_dirs [OF _ Inr] dirs free show ?thesis by simp
    next
      case dir: False
      with assms Inr False have "r = Inr ()" "fs' = ?fs1\<lparr>fs_files := dict_set cs data (fs_files fs)\<rparr>"
        by (simp_all add: local_put_def Let_def)
      moreover from this have "set (fs_dirs fs') = set (fs_dirs ?fs1)" "fs_files fs' = dict_set cs data (fs_files fs)" by simp_all
      moreover from dir have "cs \<noteq> []" "cs \<notin> set (fs_dirs ?fs1)" unfolding is_dir_def by blast+
      ultimately show ?thesis using Stored [OF _ Inr] dirs free by metis
    qed
  qed
qed

lemma strict_prefix_butlast: "cs \<noteq> [] \<Longrightarrow> strict_prefix d cs \<longleftrightarrow> prefix d (butlast cs)"
  by (cases cs rule: rev_cases) (auto simp: strict_prefix_def)

lemma fs_ok_put:
  assumes "fs_ok fs" "local_put key data fs = (r, fs')"
  shows "fs_ok fs'"
  using assms(2)
proof (cases rule: local_put_cases)
  case (Made_dirs cs)
  have "file_ok (set (fs_dirs fs')) c" if "c \<in> fst ` set (fs_files fs)" for c
  proof (rule file_ok_mono)
    show "file_ok (set (fs_dirs fs)) c" using assms(1) that by (auto simp: fs_ok_def)
    then show "c \<notin> set (fs_dirs fs')"
      using that Made_dirs(4,5) by (auto simp: file_ok_def is_file_def map_of_eq_None_iff)
  qed (use Made_dirs(4) in auto)
  with assms(1) Made_dirs(3) show ?thesis by (simp add: fs_ok_def)
next
  case (Stored cs)
  have old: "file_ok (set (fs_dirs fs')) c" if "c \<in> fst ` set (fs_files fs)" for c
  proof (rule file_ok_mono)
    show "file_ok (set (fs_dirs fs)) c" using assms(1) that by (auto simp: fs_ok_def)
    then show "c \<notin> set (fs_dirs fs')"
      using that Stored(6,7) by (auto simp: file_ok_def is_file_def map_of_eq_None_iff)
  qed (use Stored(6) in auto)
  have new: "file_ok (set (fs_dirs fs')) cs"
    unfolding file_ok_def
    using Stored(3,4,6) strict_prefix_butlast [OF Stored(3)] resolve_key_plain [OF Stored(2)]
      resolve_key_no_dots [OF Stored(2)] by auto
  have keys: "map fst (fs_files fs') =
      (if cs \<in> fst ` set (fs_files fs) then map fst (fs_files fs) else map fst (fs_files fs) @ [cs])"
    by (simp only: Stored(5) keys_dict_set)
  then have "set (map fst (fs_files fs')) \<subseteq> insert cs (fst ` set (fs_files fs))" by (auto split: if_splits)
  moreover have "distinct (map fst (fs_files fs'))"
    using assms(1) keys by (auto simp: fs_ok_def)
  ultimately show ?thesis using old new by (auto simp: fs_ok_def)
qed (use assms in simp)

text \<open>What is stored can be read, exists, and leaves every other path as it was.\<close>

lemma local_get_put:
  assumes "local_put key data fs = (Inr (), fs')"
  shows "local_get key fs' = Inr data" "local_exists key fs' = Inr True"
  using assms by (cases rule: local_put_cases; simp add: local_get_def local_exists_def is_file_def)+

lemma local_get_other:
  assumes "local_put key data fs = (r, fs')" "resolve_key k \<noteq> resolve_key key" "local_get k fs = Inr x"
  shows "local_get k fs' = Inr x"
  using assms(1)
proof (cases rule: local_put_cases)
  case (Made_dirs cs)
  with assms(3) show ?thesis by (auto simp: local_get_def bind_res_Inr split: option.splits if_splits)
next
  case (Stored cs)
  with assms(2,3) show ?thesis by (auto simp: local_get_def bind_res_Inr split: option.splits if_splits)
qed (use assms in simp)

section \<open>The contract of a store\<close>

text \<open>
  What the code relies on: storing keeps the store well formed, what was stored is read back and
  exists, and objects at other locations stay.
\<close>

locale object_store =
  fixes put :: "pystr \<Rightarrow> bytes \<Rightarrow> 's \<Rightarrow> (store_error + unit) \<times> 's"
    and get :: "pystr \<Rightarrow> 's \<Rightarrow> store_error + bytes"
    and ex :: "pystr \<Rightarrow> 's \<Rightarrow> store_error + bool"
    and loc :: "pystr \<Rightarrow> store_error + 'p"
    and ok :: "'s \<Rightarrow> bool"
  assumes put_ok: "ok s \<Longrightarrow> put k d s = (r, s') \<Longrightarrow> ok s'"
    and get_put: "put k d s = (Inr (), s') \<Longrightarrow> get k s' = Inr d"
    and ex_put: "put k d s = (Inr (), s') \<Longrightarrow> ex k s' = Inr True"
    and get_other: "put k d s = (r, s') \<Longrightarrow> loc k' \<noteq> loc k \<Longrightarrow> get k' s = Inr x \<Longrightarrow> get k' s' = Inr x"
    and get_failed: "put k d s = (Inl e, s') \<Longrightarrow> get k' s = Inr x \<Longrightarrow> get k' s' = Inr x"
begin

text \<open>A batch of objects, stored one after the other until one is refused.\<close>

fun put_all :: "(pystr \<times> bytes) list \<Rightarrow> 's \<Rightarrow> (store_error + unit) \<times> 's" where
  "put_all [] s = (Inr (), s)"
| "put_all ((k, d) # rest) s =
     (case put k d s of (Inl e, s1) \<Rightarrow> (Inl e, s1) | (Inr _, s1) \<Rightarrow> put_all rest s1)"

lemma put_all_ok: "ok s \<Longrightarrow> put_all kds s = (r, s') \<Longrightarrow> ok s'"
proof (induction kds arbitrary: s)
  case (Cons kd kds)
  obtain k d where kd: "kd = (k, d)" by (cases kd)
  obtain q s1 where p: "put k d s = (q, s1)" by (cases "put k d s")
  with Cons kd put_ok [OF Cons.prems(1) p] show ?case by (cases q) auto
qed simp

lemma put_all_keeps:
  "put_all kds s = (r, s') \<Longrightarrow> loc k' \<notin> (loc \<circ> fst) ` set kds \<Longrightarrow> get k' s = Inr x \<Longrightarrow> get k' s' = Inr x"
proof (induction kds arbitrary: s)
  case (Cons kd kds)
  obtain k d where kd: "kd = (k, d)" by (cases kd)
  obtain q s1 where p: "put k d s = (q, s1)" by (cases "put k d s")
  have "get k' s1 = Inr x" using get_other [OF p] Cons.prems kd by auto
  with Cons kd p show ?case by (cases q) auto
qed simp

lemma put_all_get:
  "put_all kds s = (Inr (), s') \<Longrightarrow> distinct (map (loc \<circ> fst) kds) \<Longrightarrow> (k, d) \<in> set kds \<Longrightarrow> get k s' = Inr d"
proof (induction kds arbitrary: s)
  case (Cons kd kds)
  obtain k1 d1 where kd: "kd = (k1, d1)" by (cases kd)
  obtain q s1 where p: "put k1 d1 s = (q, s1)" by (cases "put k1 d1 s")
  with Cons.prems kd obtain rest: "put_all kds s1 = (Inr (), s')" and q: "q = Inr ()" by (cases q) auto
  show ?case
  proof (cases "(k, d) = kd")
    case True
    with p q kd have "get k s1 = Inr d" by (auto dest: get_put)
    with put_all_keeps [OF rest] Cons.prems(2) True kd show ?thesis by auto
  next
    case False
    with Cons.IH [OF rest] Cons.prems show ?thesis by auto
  qed
qed simp

end

interpretation local_objects: object_store local_put local_get local_exists resolve_key fs_ok
proof
  show "fs_ok s \<Longrightarrow> local_put k d s = (r, s') \<Longrightarrow> fs_ok s'" for s k d r s' by (rule fs_ok_put)
  show "local_put k d s = (Inr (), s') \<Longrightarrow> local_get k s' = Inr d" for k d s s' by (rule local_get_put)
  show "local_put k d s = (Inr (), s') \<Longrightarrow> local_exists k s' = Inr True" for k d s s' by (rule local_get_put)
  show "local_put k d s = (r, s') \<Longrightarrow> resolve_key k' \<noteq> resolve_key k \<Longrightarrow> local_get k' s = Inr x \<Longrightarrow> local_get k' s' = Inr x"
    for k d s r s' k' x by (rule local_get_other)
  show "local_get k' s' = Inr x" if "local_put k d s = (Inl e, s')" "local_get k' s = Inr x" for k d s e s' k' x
    using that(1)
  proof (cases rule: local_put_cases)
    case (Made_dirs cs)
    with that(2) show ?thesis by (auto simp: local_get_def bind_res_Inr split: option.splits if_splits)
  qed (use that in simp_all)
qed

lemma full_key_inject: "full_key pre k = Inr x \<Longrightarrow> full_key pre k' = Inr x \<Longrightarrow> k' = k"
  by (auto simp: full_key_def split: if_splits)

interpretation s3_objects: object_store "s3_put pre" "s3_get pre" "s3_exists pre" "full_key pre" "\<lambda>b. True"
proof
  show "s3_put pre k d s = (r, s') \<Longrightarrow> full_key pre k' \<noteq> full_key pre k \<Longrightarrow> s3_get pre k' s = Inr x \<Longrightarrow> s3_get pre k' s' = Inr x"
    for k d s r s' k' x
    by (auto simp: s3_put_def s3_get_def bind_res_Inr split: sum.splits)
qed (auto simp: s3_put_def s3_get_def s3_exists_def bind_res_Inr split: sum.splits)

section \<open>Listings\<close>

text \<open>The documented paging of \<open>list_objects_v2\<close>: the pages from a token on hold the keys in turn.\<close>

inductive serves :: "(pystr option \<Rightarrow> s3_page) \<Rightarrow> pystr option \<Rightarrow> pystr option list \<Rightarrow> bool" for page where
  last_page: "\<not> is_truncated (page tok) \<Longrightarrow> serves page tok (page_keys (page tok))"
| more_pages: "is_truncated (page tok) \<Longrightarrow> next_token (page tok) = Some t \<Longrightarrow> t \<noteq> [] \<Longrightarrow> serves page (Some t) ks \<Longrightarrow>
    serves page tok (page_keys (page tok) @ ks)"

lemma logical_keys_append [simp]: "logical_keys base (xs @ ys) = logical_keys base xs @ logical_keys base ys"
  by (simp add: logical_keys_def)

lemma list_pages_serves: "serves page tok ks \<Longrightarrow> list_pages page base tok keys = Some (keys @ logical_keys base ks)"
  by (induction arbitrary: keys rule: serves.induct) (subst list_pages.simps, simp add: Let_def)+

lemma set_logical_keys: "set (logical_keys base (map Some ks)) = {k. base @ k \<in> set ks}"
  by (auto simp: logical_keys_def prefix_def)

text \<open>The S3 store lists completely: when the client pages through the bucket as documented, the
  listing returns the sorted logical keys, exactly those below the store's own prefix that start
  with the requested one.\<close>

theorem s3_list_keys_spec:
  assumes "full_prefix pre p = Inr fp" "serves (client fp) None (map Some (filter (prefix fp) (map fst b)))"
  shows "\<exists>ks. s3_list_keys client pre p = Some (Inr ks) \<and> sorted ks \<and>
     (\<forall>k. k \<in> set ks \<longleftrightarrow> prefix (strip_slashes p) k \<and> logical_base pre @ k \<in> fst ` set b)"
proof -
  have fp: "fp = logical_base pre @ strip_slashes p"
    using assms(1) by (auto simp: full_prefix_def split: if_splits)
  have "s3_list_keys client pre p =
      Some (Inr (sort (logical_keys (logical_base pre) (map Some (filter (prefix fp) (map fst b))))))"
    using assms(1) list_pages_serves [OF assms(2), of "logical_base pre" "[]"] by (simp add: s3_list_keys_def)
  then show ?thesis by (auto simp: set_logical_keys fp image_iff)
qed

definition demo_pages :: "pystr \<Rightarrow> pystr option \<Rightarrow> s3_page" where
  "demo_pages fp tok =
     (if tok = None
      then \<lparr>page_keys = [Some (u ''bid/b'')], is_truncated = True, next_token = Some (u ''t'')\<rparr>
      else \<lparr>page_keys = [Some (u ''bid/a'')], is_truncated = False, next_token = None\<rparr>)"

theorem s3_list_keys_spec_witness:
  "\<exists>ks. s3_list_keys demo_pages (u ''bid'') [] = Some (Inr ks) \<and> u ''a'' \<in> set ks \<and> u ''b'' \<in> set ks"
proof -
  let ?b = "[(u ''bid/b'', [1 :: nat]), (u ''other'', [2]), (u ''bid/a'', [3])]"
  have fp: "full_prefix (u ''bid'') [] = Inr (u ''bid/'')"
    by (simp add: full_prefix_def logical_base_def strip_slashes_def py_contains_def)
  have two: "serves (demo_pages fp) None ([Some (u ''bid/b'')] @ [Some (u ''bid/a'')])" for fp
    using more_pages [of "demo_pages fp" None "u ''t''" "[Some (u ''bid/a'')]"] last_page [of "demo_pages fp" "Some (u ''t'')"]
    by (simp add: demo_pages_def)
  have "filter (prefix (u ''bid/'')) (map fst ?b) = [u ''bid/b'', u ''bid/a'']" by simp
  with two have "serves (demo_pages (u ''bid/'')) None (map Some (filter (prefix (u ''bid/'')) (map fst ?b)))" by simp
  from s3_list_keys_spec [where client = demo_pages and b = ?b, OF fp this] show ?thesis by (auto simp: logical_base_def strip_slashes_def)
qed

text \<open>Every key the local store lists can be read back: the listed names resolve to the stored
  files, whatever spelling they were stored under.\<close>

theorem local_listing_readable:
  assumes "fs_ok fs" "local_list_keys pre fs = Inr ks" "k \<in> set ks"
  shows "\<exists>data. local_get k fs = Inr data"
proof -
  from assms(2,3) obtain cs data where f: "(cs, data) \<in> set (fs_files fs)" and k: "k = py_join (u ''/'') cs"
    by (auto simp: local_list_keys_def bind_res_Inr)
  then have "cs \<in> fst ` set (fs_files fs)" by force
  with assms(1) have "resolve_key k = Inr cs"
    unfolding k by (intro resolve_key_join) (auto simp: fs_ok_def file_ok_def)
  moreover have "map_of (fs_files fs) cs = Some data"
    using assms(1) f by (simp add: fs_ok_def)
  ultimately show ?thesis by (auto simp: local_get_def)
qed

theorem local_listing_readable_witness:
  "let fs = snd (local_put (u ''reports//a.docx'') [1, 2] \<lparr>fs_files = [], fs_dirs = []\<rparr>)
   in local_list_keys (u ''reports/'') fs = Inr [u ''reports/a.docx''] \<and> (\<exists>data. local_get (u ''reports/a.docx'') fs = Inr data)"
proof -
  let ?fs0 = "\<lparr>fs_files = [], fs_dirs = []\<rparr>"
  let ?fs = "snd (local_put (u ''reports//a.docx'') [1, 2] ?fs0)"
  have ok: "fs_ok ?fs"
    by (rule local_objects.put_ok [OF _ prod.collapse [symmetric]]) (simp add: fs_ok_def)
  have list: "local_list_keys (u ''reports/'') ?fs = Inr [u ''reports/a.docx'']"
    by (simp add: local_list_keys_def local_put_def resolve_key_def path_parts_def py_contains_def is_dir_def is_file_def Let_def)
  from local_listing_readable [OF ok list, of "u ''reports/a.docx''"] list show ?thesis by (simp add: Let_def)
qed

end
