(* ===== verification/Bundles.thy ===== *)
theory Bundles
  imports Deduplication Digest Objects
begin

text \<open>
  Snapshot bundles (\<open>domain/snapshots.py\<close>, \<open>snapshots/adapters.py\<close>): the validators of the manifest in
  the order they run, and the integrity inspection of a bundle directory.  The coercion of JSON into
  typed fields (pydantic) is a parameter; so are \<open>str.casefold\<close>, \<open>repr\<close> of a string and the JSON decoder.
\<close>

section \<open>The manifest (domain/snapshots.py)\<close>

record AuthorizedSourceContract =
  ac_contract_version :: pystr
  ac_authorization_ref :: pystr
  ac_data_owner :: pystr
  ac_regions :: "pystr list"
  ac_categories :: "pystr list"
  ac_review_status :: string
  ac_reviewed_at :: "datetime option"
  ac_retention_days :: int

record AuthorizedAcquisitionMetadata =
  am_response_sha256 :: pystr
  am_status_code :: int
  am_cursor_before :: "pystr option"
  am_cursor_after :: "pystr option"
  am_request_count :: int
  am_record_count :: int
  am_response_items_field :: pystr
  am_notice_field_map :: "(pystr \<times> pystr) list"
  am_extra :: "(pystr \<times> pystr) list"

record SnapshotManifest =
  mf_schema_version :: int
  mf_bundle_id :: pystr
  mf_source :: SourceName
  mf_capture_kind :: CaptureKind
  mf_source_urls :: "HttpUrl list"
  mf_retrieved_at :: datetime
  mf_retrieval_outcome :: pystr
  mf_parser_version :: pystr
  mf_files :: "(pystr \<times> pystr) list"
  mf_batch_id :: "pystr option"
  mf_data_contract :: "AuthorizedSourceContract option"
  mf_acquisition_metadata :: "AuthorizedAcquisitionMetadata option"

text \<open>
  One reported violation: a bound of a field, a missing field, an enumeration value or another type
  error, or the message of a validator that raised.
\<close>

datatype issue_kind = Out_of_bounds | Missing_field | Enum_error | Type_violation | Value_error pystr

type_synonym manifest_issue = "pystr list \<times> issue_kind"

text \<open>The text tables of Python that the validators rest on.\<close>

record bundle_env =
  be_tab :: text_tables
  be_casefold :: "pystr \<Rightarrow> pystr"
  be_repr :: "pystr \<Rightarrow> pystr"
  be_decode :: "bytes \<Rightarrow> jvalue option"
  be_coerce :: "jobject \<Rightarrow> manifest_issue list + SnapshotManifest"

section \<open>Patterns\<close>

definition hex_char :: "nat \<Rightarrow> bool" where
  "hex_char c \<longleftrightarrow> (48 \<le> c \<and> c \<le> 57) \<or> (65 \<le> c \<and> c \<le> 70) \<or> (97 \<le> c \<and> c \<le> 102)"

text \<open>\<open>_SHA256_RE.match\<close>: \<open>$\<close> also matches before a final newline.\<close>

definition sha256_match :: "pystr \<Rightarrow> bool" where
  "sha256_match s \<longleftrightarrow> 64 \<le> length s \<and> list_all hex_char (take 64 s) \<and> drop 64 s \<in> {[], [10]}"

definition lower_alnum :: "nat \<Rightarrow> bool" where
  "lower_alnum c \<longleftrightarrow> (48 \<le> c \<and> c \<le> 57) \<or> (97 \<le> c \<and> c \<le> 122)"

definition contract_version_match :: "pystr \<Rightarrow> bool" where
  "contract_version_match s \<longleftrightarrow>
     (let parts = py_split_on 45 s; tail = last parts
      in 2 \<le> length parts \<and> list_all (\<lambda>p. p \<noteq> [] \<and> list_all lower_alnum p) (butlast parts)
         \<and> 2 \<le> length tail \<and> hd tail = 118 \<and> list_all (\<lambda>c. 48 \<le> c \<and> c \<le> 57) (tl tail))"

definition batch_first :: "nat \<Rightarrow> bool" where
  "batch_first c \<longleftrightarrow> ascii_alpha c \<or> (48 \<le> c \<and> c \<le> 57)"

definition batch_id_match :: "pystr \<Rightarrow> bool" where
  "batch_id_match s \<longleftrightarrow>
     s \<noteq> [] \<and> length s \<le> 128 \<and> batch_first (hd s) \<and> list_all (\<lambda>c. batch_first c \<or> c \<in> set (u ''._-'')) (tl s)"

section \<open>Field validators\<close>

definition in_length :: "nat \<Rightarrow> nat \<Rightarrow> 'a list \<Rightarrow> bool" where
  "in_length lo hi s \<longleftrightarrow> lo \<le> length s \<and> length s \<le> hi"

text \<open>A field: its bound first, then its validator (\<open>None\<close> when it returns).\<close>

definition field_issues :: "pystr list \<Rightarrow> bool \<Rightarrow> pystr option \<Rightarrow> manifest_issue list" where
  "field_issues loc bound msg =
     (if \<not> bound then [(loc, Out_of_bounds)] else case msg of None \<Rightarrow> [] | Some m \<Rightarrow> [(loc, Value_error m)])"

definition check_labels :: "pystr list \<Rightarrow> pystr option" where
  "check_labels values =
     (if list_ex (\<lambda>s. py_strip s = [] \<or> list_ex (\<lambda>c. c \<le> 31 \<or> c = 127) s) values
      then Some (u ''contract labels must be non-blank and contain no control characters'') else None)"

definition label_list_issues :: "pystr list \<Rightarrow> pystr list \<Rightarrow> manifest_issue list" where
  "label_list_issues loc values =
     (let items = concat (map (\<lambda>(i, s). field_issues (loc @ [show_nat i]) (in_length 1 128 s) None) (enumerate 0 values))
      in if items \<noteq> [] then items else field_issues loc (in_length 1 50 values) (check_labels values))"

definition contract_issues :: "pystr list \<Rightarrow> AuthorizedSourceContract \<Rightarrow> manifest_issue list" where
  "contract_issues loc c =
     (let fields =
        field_issues (loc @ [u ''contract_version'']) (in_length 1 64 (ac_contract_version c))
          (if contract_version_match (ac_contract_version c) then None
           else Some (u ''contract_version must use a name-vN format'')) @
        field_issues (loc @ [u ''authorization_ref'']) (in_length 1 128 (ac_authorization_ref c))
          (check_labels [ac_authorization_ref c]) @
        field_issues (loc @ [u ''data_owner'']) (in_length 1 128 (ac_data_owner c)) (check_labels [ac_data_owner c]) @
        label_list_issues (loc @ [u ''regions'']) (ac_regions c) @
        label_list_issues (loc @ [u ''categories'']) (ac_categories c) @
        (if ac_review_status c \<in> {''approved'', ''pending'', ''rejected''} then []
         else [(loc @ [u ''review_status''], Type_violation)]) @
        field_issues (loc @ [u ''reviewed_at'']) True
          (if naive (ac_reviewed_at c) then Some (u ''datetime must be timezone-aware'') else None) @
        field_issues (loc @ [u ''retention_days'']) (0 < ac_retention_days c \<and> ac_retention_days c \<le> 3650) None
      in if fields \<noteq> [] then fields
         else if ac_review_status c = ''approved'' \<and> ac_reviewed_at c = None
         then [(loc, Value_error (u ''approved data_contract requires reviewed_at''))] else [])"

definition SAFE_ACQUISITION_EXTRA_KEYS :: "string list" where
  "SAFE_ACQUISITION_EXTRA_KEYS = [''operator_note'', ''content_type'', ''endpoint_version'']"

definition SENSITIVE_METADATA_PARTS :: "string list" where
  "SENSITIVE_METADATA_PARTS = [''secret'', ''password'', ''credential'', ''signing'', ''api_key'', ''apikey'',
     ''access_key'', ''authorization'', ''auth'', ''token'']"

definition CREDENTIAL_MARKERS :: "string list" where
  "CREDENTIAL_MARKERS = [''bearer '', ''basic '', ''password='', ''secret='', ''api-key'', ''api_key='',
     ''access_token='', ''auth='', ''token='', ''authorization:'']"

text \<open>\<open>s.casefold().replace("-", "_")\<close>.\<close>

definition normalized_key :: "bundle_env \<Rightarrow> pystr \<Rightarrow> pystr" where
  "normalized_key env k = map (\<lambda>c. if c = 45 then 95 else c) (be_casefold env k)"

fun check_extra :: "bundle_env \<Rightarrow> nat \<Rightarrow> (pystr \<times> pystr) list \<Rightarrow> pystr option" where
  "check_extra env seen [] = None"
| "check_extra env seen ((k, v) # kvs) =
     (if 64 < length k \<or> 256 < length v then Some (u ''acquisition metadata fields are too long'')
      else if 4096 < seen + length k + length v then Some (u ''acquisition metadata is too large'')
      else if k \<notin> set (map u SAFE_ACQUISITION_EXTRA_KEYS) then Some (u ''acquisition metadata field is not allowlisted'')
      else if list_ex (\<lambda>p. py_contains (u p) (normalized_key env k)) SENSITIVE_METADATA_PARTS
      then Some (u ''acquisition metadata contains credential-bearing fields'')
      else if list_ex (\<lambda>m. py_contains (u m) (be_casefold env v)) CREDENTIAL_MARKERS
      then Some (u ''acquisition metadata contains credential-bearing values'')
      else check_extra env (seen + length k + length v) kvs)"

definition NOTICE_FIELDS :: "string list" where
  "NOTICE_FIELDS = [''external_id'', ''title'', ''purchaser'', ''region'', ''publish_time'', ''deadline'', ''budget'']"

definition check_field_map :: "(pystr \<times> pystr) list \<Rightarrow> pystr option" where
  "check_field_map m =
     (if list_ex (\<lambda>(k, v). k \<notin> set (map u NOTICE_FIELDS) \<or> py_strip v = [] \<or> 64 < length v) m
      then Some (u ''notice field mapping is invalid'') else None)"

definition metadata_issues :: "bundle_env \<Rightarrow> pystr list \<Rightarrow> AuthorizedAcquisitionMetadata \<Rightarrow> manifest_issue list" where
  "metadata_issues env loc m =
     field_issues (loc @ [u ''response_sha256'']) (length (am_response_sha256 m) = 64)
       (if list_all hex_char (am_response_sha256 m) then None
        else Some (u ''response_sha256 must be a 64-character hex SHA-256'')) @
     field_issues (loc @ [u ''status_code'']) (100 \<le> am_status_code m \<and> am_status_code m \<le> 599) None @
     field_issues (loc @ [u ''cursor_before''])
       (case am_cursor_before m of None \<Rightarrow> True | Some c \<Rightarrow> length c \<le> 512) None @
     field_issues (loc @ [u ''cursor_after''])
       (case am_cursor_after m of None \<Rightarrow> True | Some c \<Rightarrow> length c \<le> 512) None @
     field_issues (loc @ [u ''request_count'']) (1 \<le> am_request_count m \<and> am_request_count m \<le> 100) None @
     field_issues (loc @ [u ''record_count'']) (0 \<le> am_record_count m \<and> am_record_count m \<le> 1000000) None @
     field_issues (loc @ [u ''response_items_field'']) (in_length 1 64 (am_response_items_field m)) None @
     field_issues (loc @ [u ''notice_field_map'']) (length (am_notice_field_map m) \<le> 16)
       (check_field_map (am_notice_field_map m)) @
     field_issues (loc @ [u ''extra'']) (length (am_extra m) \<le> 32) (check_extra env 0 (am_extra m))"

text \<open>\<open>_validate_raw_source_urls\<close> on the JSON value; \<open>_require_https\<close> on the parsed URLs.\<close>

fun check_raw_url_list :: "text_tables \<Rightarrow> jvalue list \<Rightarrow> pystr option" where
  "check_raw_url_list tab [] = None"
| "check_raw_url_list tab (JString s # rest) =
     (case urlsplit tab s of
        Inl _ \<Rightarrow> Some (u ''Invalid URL'')
      | Inr p \<Rightarrow> if 64 \<in> set (url_netloc p) then Some (u ''source_urls must not include URL credentials'')
                 else check_raw_url_list tab rest)"
| "check_raw_url_list tab (_ # rest) = Some (u ''source_urls entries must be raw strings'')"

definition check_raw_urls :: "text_tables \<Rightarrow> jvalue \<Rightarrow> pystr option" where
  "check_raw_urls tab raw =
     (case raw of JArray xs \<Rightarrow> check_raw_url_list tab xs
      | _ \<Rightarrow> Some (u ''source_urls must be a supported raw string collection''))"

fun check_https :: "HttpUrl list \<Rightarrow> pystr option" where
  "check_https [] = None"
| "check_https (h # hs) =
     (if hu_scheme h \<noteq> u ''https'' then Some (u ''source_urls must use HTTPS scheme'')
      else if hu_username h \<noteq> None \<or> hu_password h \<noteq> None then Some (u ''source_urls must not include URL credentials'')
      else if hu_port h \<notin> {None, Some 443} then Some (u ''source_urls must use the default HTTPS port'')
      else check_https hs)"

fun check_file_hashes :: "bundle_env \<Rightarrow> (pystr \<times> pystr) list \<Rightarrow> pystr option" where
  "check_file_hashes env [] = None"
| "check_file_hashes env ((name, h) # fs) =
     (if sha256_match h then check_file_hashes env fs
      else Some (u ''file '' @ name @ u '' hash must be a 64-character hex SHA-256, got: '' @ be_repr env h))"

definition url_issues :: "bundle_env \<Rightarrow> jvalue \<Rightarrow> HttpUrl list \<Rightarrow> manifest_issue list" where
  "url_issues env raw hs =
     (case check_raw_urls (be_tab env) raw of
        Some m \<Rightarrow> [([u ''source_urls''], Value_error m)]
      | None \<Rightarrow> field_issues [u ''source_urls''] (hs \<noteq> []) (check_https hs))"

definition manifest_field_issues :: "bundle_env \<Rightarrow> jvalue \<Rightarrow> SnapshotManifest \<Rightarrow> manifest_issue list" where
  "manifest_field_issues env raw_urls m =
     field_issues [u ''schema_version''] (1 \<le> mf_schema_version m) None @
     field_issues [u ''bundle_id''] (mf_bundle_id m \<noteq> []) None @
     url_issues env raw_urls (mf_source_urls m) @
     field_issues [u ''retrieved_at''] True
       (if dt_aware (mf_retrieved_at m) then None else Some (u ''datetime must be timezone-aware'')) @
     field_issues [u ''retrieval_outcome''] (mf_retrieval_outcome m \<noteq> []) None @
     field_issues [u ''parser_version''] (mf_parser_version m \<noteq> []) None @
     field_issues [u ''files''] (mf_files m \<noteq> []) (check_file_hashes env (mf_files m)) @
     (case mf_batch_id m of None \<Rightarrow> []
      | Some b \<Rightarrow> field_issues [u ''batch_id''] (in_length 1 128 b)
          (if batch_id_match b then None
           else Some (u ''batch_id must be a bounded identifier without path separators''))) @
     (case mf_data_contract m of None \<Rightarrow> [] | Some c \<Rightarrow> contract_issues [u ''data_contract''] c) @
     (case mf_acquisition_metadata m of None \<Rightarrow> [] | Some a \<Rightarrow> metadata_issues env [u ''acquisition_metadata''] a)"

section \<open>Model validators\<close>

definition source_text :: "SourceName \<Rightarrow> pystr" where
  "source_text s = (case s of CCGP \<Rightarrow> u ''ccgp'' | GGZY \<Rightarrow> u ''ggzy'' | SourceName.SYNTHETIC_DEMO \<Rightarrow> u ''synthetic_demo'')"

definition allowed_hosts_text :: "SourceName \<Rightarrow> pystr" where
  "allowed_hosts_text s =
     (case s of CCGP \<Rightarrow> u ''['' @ [39] @ u ''search.ccgp.gov.cn'' @ [39] @ u '', '' @ [39] @ u ''www.ccgp.gov.cn'' @ [39] @ u '']''
      | GGZY \<Rightarrow> u ''['' @ [39] @ u ''www.ggzy.gov.cn'' @ [39] @ u '']''
      | SourceName.SYNTHETIC_DEMO \<Rightarrow> u ''[]'')"

definition provenance_message :: "bundle_env \<Rightarrow> provenance_error \<Rightarrow> pystr" where
  "provenance_message env e =
     (case e of
        No_host \<Rightarrow> u ''source URL has no host''
      | Synthetic_needs_synthetic_source \<Rightarrow> u ''synthetic_demo bundles must declare source=synthetic_demo''
      | Synthetic_needs_synthetic_host h \<Rightarrow> u ''synthetic_demo URLs must use example.invalid; got '' @ h
      | Synthetic_needs_demo_prefix i \<Rightarrow>
          u ''synthetic_demo external_id must start with '' @ [39] @ u ''demo-'' @ [39] @ u ''; got '' @ be_repr env i
      | Official_not_synthetic_source \<Rightarrow> u ''official capture kinds must not use source=synthetic_demo''
      | Official_not_synthetic_host h \<Rightarrow> u ''official capture kinds must not use example.invalid; got '' @ h
      | Official_needs_official_source s \<Rightarrow> u ''official capture kinds require an official source; got '' @ source_text s
      | Host_not_of_source s h \<Rightarrow>
          u ''source '' @ source_text s @ u '' may only reference '' @ allowed_hosts_text s @ u ''; got '' @ h
      | Official_not_demo_prefix i \<Rightarrow>
          u ''official capture kinds must not use synthetic prefix '' @ [39] @ u ''demo-'' @ [39] @ u ''; got '' @ be_repr env i)"

fun check_provenance :: "bundle_env \<Rightarrow> SnapshotManifest \<Rightarrow> HttpUrl list \<Rightarrow> pystr option" where
  "check_provenance env m [] = None"
| "check_provenance env m (h # hs) =
     (case raise_invalid (validate_provenance (mf_source m) (mf_capture_kind m) (hu_host h) (mf_bundle_id m)) of
        Inl es \<Rightarrow> Some (py_join (u ''; '') (map (provenance_message env) es))
      | Inr _ \<Rightarrow> check_provenance env m hs)"

definition LEGACY_CCGP_CURATED_BUNDLE_IDS :: "string list" where
  "LEGACY_CCGP_CURATED_BUNDLE_IDS = [''ccgp-central-20260718'']"

text \<open>\<open>_validate_authorized_contract\<close>; a present but empty query or fragment is falsy.\<close>

definition present :: "pystr option \<Rightarrow> bool" where
  "present v \<longleftrightarrow> v \<noteq> None \<and> v \<noteq> Some []"

definition check_raw_response :: "SnapshotManifest \<Rightarrow> pystr option" where
  "check_raw_response m =
     (if list_ex (\<lambda>h. present (hu_query h) \<or> present (hu_fragment h)) (mf_source_urls m)
      then Some (u ''raw_response source URLs must not contain query or fragment data'')
      else (case mf_acquisition_metadata m of
              None \<Rightarrow> Some (u ''schema_version 2 raw_response requires acquisition_metadata'')
            | Some a \<Rightarrow> if Some (am_response_sha256 a) \<noteq> map_of (mf_files m) (u ''response.json'')
                       then Some (u ''raw_response acquisition metadata hash mismatched'') else None))"

definition check_authorized_contract :: "SnapshotManifest \<Rightarrow> pystr option" where
  "check_authorized_contract m =
     (if mf_schema_version m = 1 then
        (if mf_source m = CCGP \<and> mf_capture_kind m = CURATED_PUBLIC_EXCERPT
            \<and> mf_bundle_id m \<notin> set (map u LEGACY_CCGP_CURATED_BUNDLE_IDS)
         then Some (u ''schema_version 1 CCGP curated bundle is not in the legacy admission register'') else None)
      else if mf_schema_version m \<noteq> 2 then
        Some (u ''unsupported snapshot schema_version: '' @ show_int (mf_schema_version m))
      else if mf_source m \<noteq> CCGP \<or> mf_capture_kind m \<notin> {CURATED_PUBLIC_EXCERPT, RAW_RESPONSE} then
        Some (u ''schema_version 2 is reserved for CCGP authorized bundles'')
      else if mf_batch_id m = None then Some (u ''schema_version 2 requires batch_id'')
      else (case mf_data_contract m of
              None \<Rightarrow> Some (u ''schema_version 2 requires a data_contract'')
            | Some c \<Rightarrow>
                if ac_review_status c \<noteq> ''approved''
                then Some (u ''authorized data contract review_status must be approved'')
                else if mf_capture_kind m = RAW_RESPONSE \<and> map_of (mf_files m) (u ''response.json'') = None
                then Some (u ''schema_version 2 raw_response requires response.json'')
                else if mf_capture_kind m = RAW_RESPONSE then check_raw_response m else None))"

text \<open>
  \<open>model_validate\<close> on typed fields: all field violations are collected; the model validators run in
  order only without one, and the first to raise ends the validation.
\<close>

definition manifest_issues :: "bundle_env \<Rightarrow> jvalue \<Rightarrow> SnapshotManifest \<Rightarrow> manifest_issue list" where
  "manifest_issues env raw_urls m =
     (let fields = manifest_field_issues env raw_urls m
      in if fields \<noteq> [] then fields
         else case check_provenance env m (mf_source_urls m) of
                Some msg \<Rightarrow> [([], Value_error msg)]
              | None \<Rightarrow> (case check_authorized_contract m of Some msg \<Rightarrow> [([], Value_error msg)] | None \<Rightarrow> []))"

definition validate_manifest :: "bundle_env \<Rightarrow> jobject \<Rightarrow> manifest_issue list + SnapshotManifest" where
  "validate_manifest env raw =
     bind_res (be_coerce env raw) (\<lambda>m.
       (let issues = manifest_issues env (case map_of raw (u ''source_urls'') of None \<Rightarrow> JNull | Some v \<Rightarrow> v) m
        in if issues = [] then Inr m else Inl issues))"

section \<open>Inspection (snapshots/adapters.py)\<close>

record InspectionError =
  ie_code :: string
  ie_path :: "pystr option"

text \<open>\<open>_convert_manifest_errors\<close>: the code of a message is the first rule one of whose markers occurs in it.\<close>

definition message_code :: "text_tables \<Rightarrow> pystr \<Rightarrow> string" where
  "message_code tab msg =
     (if py_contains (u ''requires a data_contract'') msg then ''missing_data_contract''
      else if py_contains (u ''review_status must be approved'') msg then ''authorization_not_approved''
      else if py_contains (u ''legacy admission register'') msg then ''legacy_schema_not_allowed''
      else if py_contains (u ''schema_version 2'') msg then ''invalid_data_contract''
      else if py_contains (u ''source=synthetic_demo'') msg \<or> py_contains (u ''synthetic_demo bundles'') msg
      then ''source_capture_mismatch''
      else if py_contains (u ''HTTPS'') msg \<or> py_contains (u ''example.invalid'') msg then ''invalid_source_url''
      else if py_contains (u ''timezone-aware'') msg then ''invalid_timestamp''
      else if py_contains (u ''SHA-256'') msg then ''invalid_file_hash''
      else if py_contains (u ''official'') (lower tab msg) then ''invalid_source_url''
      else ''invalid_manifest_field'')"

definition issue_code :: "text_tables \<Rightarrow> issue_kind \<Rightarrow> string" where
  "issue_code tab k =
     (case k of
        Value_error m \<Rightarrow> message_code tab (u ''Value error, '' @ m)
      | Missing_field \<Rightarrow> ''missing_manifest_field''
      | Enum_error \<Rightarrow> ''invalid_enum_value''
      | _ \<Rightarrow> ''invalid_manifest_field'')"

definition convert_issue :: "text_tables \<Rightarrow> manifest_issue \<Rightarrow> InspectionError" where
  "convert_issue tab i =
     (case i of (loc, k) \<Rightarrow>
        \<lparr>ie_code = issue_code tab k, ie_path = (if py_join (u ''.'') loc = [] then None else Some (py_join (u ''.'') loc))\<rparr>)"

text \<open>
  A bundle directory: the entries below its root by their components.  A regular file that cannot be
  read has no content; of a symbolic link only the kind of its target matters.  A declared name with a
  null byte, on which the path functions of the code raise, is left out.
\<close>

datatype link_kind = To_file | To_other | Broken

datatype entry = File "bytes option" | Directory | Special | Link link_kind

type_synonym directory = "(pystr list \<times> entry) list"

definition regular :: "entry \<Rightarrow> bool" where
  "regular e = (case e of File _ \<Rightarrow> True | Link k \<Rightarrow> k = To_file | _ \<Rightarrow> False)"

definition contains_symlink :: "directory \<Rightarrow> pystr \<Rightarrow> bool" where
  "contains_symlink dir name \<longleftrightarrow>
     \<not> prefix (u ''/'') name \<and>
     list_ex (\<lambda>p. case map_of dir p of Some (Link _) \<Rightarrow> True | _ \<Rightarrow> False) (prefixes (path_parts name))"

text \<open>
  \<open>_safe_relative\<close>; \<open>link_target\<close> is what \<open>resolve\<close> makes of a path through a symbolic link,
  \<open>None\<close> outside the bundle.
\<close>

definition safe_relative :: "(pystr list \<Rightarrow> pystr list option) \<Rightarrow> directory \<Rightarrow> pystr \<Rightarrow> pystr list option" where
  "safe_relative link_target dir name =
     (if u ''..'' \<in> set (py_split_on 47 name) \<or> prefix (u ''/'') name then None
      else if contains_symlink dir name then link_target (path_parts name)
      else Some (path_parts name))"

record InspectionResult =
  ins_bundle_id :: "pystr option"
  ins_errors :: "InspectionError list"
  ins_actual_hashes :: "(pystr \<times> pystr) list"
  ins_manifest_sha256 :: "pystr option"
  ins_manifest :: "SnapshotManifest option"

definition ins_valid :: "InspectionResult \<Rightarrow> bool" where
  "ins_valid r \<longleftrightarrow> ins_manifest r \<noteq> None \<and> ins_errors r = []"

definition ins_disposition :: "InspectionResult \<Rightarrow> string" where
  "ins_disposition r = (if ins_valid r then ''accepted'' else ''quarantined'')"

text \<open>One declared file: its error, or its digest.\<close>

definition inspect_declared ::
  "(pystr list \<Rightarrow> pystr list option) \<Rightarrow> directory \<Rightarrow> pystr \<Rightarrow> pystr \<Rightarrow> InspectionError list \<times> pystr option" where
  "inspect_declared link_target dir name expected =
     (let err = (\<lambda>code. [\<lparr>ie_code = code, ie_path = Some name\<rparr>])
      in if contains_symlink dir name then (err ''invalid_file_type'', None)
         else case safe_relative link_target dir name of
                None \<Rightarrow> (err ''invalid_path'', None)
              | Some p \<Rightarrow>
                  if p = [] then (err ''invalid_file_type'', None)
                  else (case map_of dir p of
                     None \<Rightarrow> (err ''missing_file'', None)
                   | Some (File None) \<Rightarrow> (err ''file_read_error'', None)
                   | Some (File (Some data)) \<Rightarrow>
                       (if ascii_lower (hash_bytes data) \<noteq> ascii_lower expected then err ''snapshot_integrity_error'' else [],
                        Some (hash_bytes data))
                   | Some _ \<Rightarrow> (err ''invalid_file_type'', None)))"

text \<open>Payload files in the order of their paths.\<close>

definition payload_files :: "directory \<Rightarrow> pystr list list" where
  "payload_files dir =
     sort (map fst (filter (\<lambda>(p, e). regular e \<and> p \<noteq> [] \<and> last p \<noteq> u ''manifest.json'') dir))"

definition unexpected_files ::
  "(pystr list \<Rightarrow> pystr list option) \<Rightarrow> directory \<Rightarrow> pystr list \<Rightarrow> InspectionError list" where
  "unexpected_files link_target dir names =
     (let declared = map (safe_relative link_target dir) names
      in map (\<lambda>p. \<lparr>ie_code = ''unexpected_file'', ie_path = Some (last p)\<rparr>)
           (filter (\<lambda>p. Some p \<notin> set declared) (payload_files dir)))"

definition inspect_files ::
  "(pystr list \<Rightarrow> pystr list option) \<Rightarrow> directory \<Rightarrow> (pystr \<times> pystr) list \<Rightarrow>
     InspectionError list \<times> (pystr \<times> pystr) list" where
  "inspect_files link_target dir files =
     (let results = map (\<lambda>(name, h). (name, inspect_declared link_target dir name h)) files
      in (concat (map (\<lambda>(_, es, _). es) results) @ unexpected_files link_target dir (map fst files),
          concat (map (\<lambda>(name, _, h). case h of None \<Rightarrow> [] | Some x \<Rightarrow> [(name, x)]) results)))"

definition rejected :: "string \<Rightarrow> pystr option \<Rightarrow> InspectionResult" where
  "rejected code sha =
     \<lparr>ins_bundle_id = None, ins_errors = [\<lparr>ie_code = code, ie_path = None\<rparr>], ins_actual_hashes = [],
       ins_manifest_sha256 = sha, ins_manifest = None\<rparr>"

definition inspect_manifest ::
  "bundle_env \<Rightarrow> (pystr list \<Rightarrow> pystr list option) \<Rightarrow> directory \<Rightarrow> bytes \<Rightarrow> InspectionResult" where
  "inspect_manifest env link_target dir data =
     (let sha = Some (hash_bytes data)
      in case be_decode env data of
           None \<Rightarrow> rejected ''invalid_manifest'' sha
         | Some (JObject raw) \<Rightarrow>
             (case validate_manifest env raw of
                Inl issues \<Rightarrow>
                  \<lparr>ins_bundle_id = (case map_of raw (u ''bundle_id'') of Some (JString b) \<Rightarrow> Some b | _ \<Rightarrow> None),
                    ins_errors = map (convert_issue (be_tab env)) issues, ins_actual_hashes = [],
                    ins_manifest_sha256 = sha, ins_manifest = None\<rparr>
              | Inr m \<Rightarrow>
                  (case inspect_files link_target dir (mf_files m) of (errors, hashes) \<Rightarrow>
                     \<lparr>ins_bundle_id = Some (mf_bundle_id m), ins_errors = errors, ins_actual_hashes = hashes,
                       ins_manifest_sha256 = sha, ins_manifest = (if errors = [] then Some m else None)\<rparr>))
         | Some _ \<Rightarrow> rejected ''invalid_manifest'' sha)"

definition inspect_bundle ::
  "bundle_env \<Rightarrow> (pystr list \<Rightarrow> pystr list option) \<Rightarrow> directory \<Rightarrow> InspectionResult" where
  "inspect_bundle env link_target dir =
     (case map_of dir [u ''manifest.json''] of
        None \<Rightarrow> rejected ''missing_manifest'' None
      | Some (Link Broken) \<Rightarrow> rejected ''missing_manifest'' None
      | Some (Link _) \<Rightarrow> rejected ''invalid_file_type'' None
      | Some (File (Some data)) \<Rightarrow> inspect_manifest env link_target dir data
      | Some _ \<Rightarrow> rejected ''manifest_read_error'' None)"

section \<open>What inspection accepts\<close>

lemma contains_symlink_safe:
  "safe_relative link_target dir name = Some p \<Longrightarrow> \<not> contains_symlink dir name \<Longrightarrow>
     p = path_parts name \<and> u ''..'' \<notin> set (py_split_on 47 name) \<and> \<not> prefix (u ''/'') name"
  by (auto simp: safe_relative_def split: if_splits)

text \<open>A declared file that raises no error.\<close>

definition declared_ok :: "directory \<Rightarrow> pystr \<Rightarrow> pystr \<Rightarrow> bool" where
  "declared_ok dir name expected \<longleftrightarrow>
     \<not> contains_symlink dir name \<and> u ''..'' \<notin> set (py_split_on 47 name) \<and> \<not> prefix (u ''/'') name \<and> path_parts name \<noteq> [] \<and>
     (case map_of dir (path_parts name) of
        Some (File (Some data)) \<Rightarrow> ascii_lower (hash_bytes data) = ascii_lower expected
      | _ \<Rightarrow> False)"

lemma inspect_declared_ok: "fst (inspect_declared link_target dir name h) = [] \<longleftrightarrow> declared_ok dir name h"
proof (cases "contains_symlink dir name")
  case True
  then show ?thesis by (simp add: inspect_declared_def declared_ok_def)
next
  case False
  then show ?thesis
    by (auto simp: inspect_declared_def declared_ok_def safe_relative_def Let_def split: option.splits entry.splits)
qed

lemma unexpected_none:
  assumes "\<forall>name \<in> set names. \<not> contains_symlink dir name \<and> u ''..'' \<notin> set (py_split_on 47 name) \<and> \<not> prefix (u ''/'') name"
  shows "unexpected_files link_target dir names = [] \<longleftrightarrow>
     (\<forall>(p, e) \<in> set dir. regular e \<and> p \<noteq> [] \<and> last p \<noteq> u ''manifest.json'' \<longrightarrow> p \<in> path_parts ` set names)"
proof -
  have "map (safe_relative link_target dir) names = map (\<lambda>n. Some (path_parts n)) names"
    using assms by (auto simp: safe_relative_def)
  then show ?thesis
    by (fastforce simp: unexpected_files_def payload_files_def filter_empty_conv Let_def simp del: u_Cons)
qed

lemma inspect_files_ok:
  "fst (inspect_files link_target dir files) = [] \<longleftrightarrow>
     (\<forall>(name, h) \<in> set files. declared_ok dir name h) \<and>
     (\<forall>(p, e) \<in> set dir. regular e \<and> p \<noteq> [] \<and> last p \<noteq> u ''manifest.json'' \<longrightarrow> p \<in> path_parts ` fst ` set files)"
proof -
  have "fst (inspect_files link_target dir files) = [] \<longleftrightarrow>
      (\<forall>(name, h) \<in> set files. declared_ok dir name h) \<and> unexpected_files link_target dir (map fst files) = []"
    by (auto simp: inspect_files_def Let_def inspect_declared_ok [symmetric, of dir _ _ link_target] case_prod_beta)
  moreover have "\<forall>name \<in> set (map fst files). \<not> contains_symlink dir name \<and> u ''..'' \<notin> set (py_split_on 47 name)
      \<and> \<not> prefix (u ''/'') name"
    if "\<forall>(name, h) \<in> set files. declared_ok dir name h"
    using that by (auto simp: declared_ok_def simp del: u_Cons)
  ultimately show ?thesis
    using unexpected_none [of "map fst files" dir link_target] by (auto simp del: u_Cons)
qed

lemma inspect_accepts:
  "ins_valid (inspect_bundle env link_target dir) \<longleftrightarrow>
     (\<exists>data raw m. map_of dir [u ''manifest.json''] = Some (File (Some data)) \<and> be_decode env data = Some (JObject raw)
        \<and> validate_manifest env raw = Inr m
        \<and> (\<forall>(name, h) \<in> set (mf_files m). declared_ok dir name h)
        \<and> (\<forall>(p, e) \<in> set dir. regular e \<and> p \<noteq> [] \<and> last p \<noteq> u ''manifest.json'' \<longrightarrow>
              p \<in> path_parts ` fst ` set (mf_files m)))"
proof (cases "map_of dir [u ''manifest.json'']")
  case None
  then show ?thesis by (simp add: inspect_bundle_def rejected_def ins_valid_def del: u_Cons)
next
  case (Some e)
  have valid: "ins_valid (inspect_manifest env link_target dir data) \<longleftrightarrow>
      (\<exists>raw m. be_decode env data = Some (JObject raw) \<and> validate_manifest env raw = Inr m
         \<and> fst (inspect_files link_target dir (mf_files m)) = [])" for data
    by (auto simp: inspect_manifest_def rejected_def ins_valid_def Let_def split: option.splits jvalue.splits sum.splits prod.splits)
  show ?thesis
    using Some valid inspect_files_ok [of link_target dir]
    by (auto simp: inspect_bundle_def rejected_def ins_valid_def split: entry.splits option.splits link_kind.splits
        simp del: u_Cons)
qed

text \<open>C19: A bundle passes inspection exactly when its manifest is a readable regular file with a JSON object that
  validates, every declared file is a readable regular file inside the bundle, reached without a symbolic link,
  whose SHA-256 digest is the declared one, and every regular file not named manifest.json is declared.\<close>

theorem inspect_bundle_accepts_iff:
  "ins_valid (inspect_bundle env link_target dir) \<longleftrightarrow>
     (\<exists>data raw m. map_of dir [u ''manifest.json''] = Some (File (Some data)) \<and> be_decode env data = Some (JObject raw)
        \<and> validate_manifest env raw = Inr m
        \<and> list_all (\<lambda>(name, h). declared_ok dir name h) (mf_files m)
        \<and> set (payload_files dir) \<subseteq> path_parts ` fst ` set (mf_files m))"
proof -
  have "(\<forall>(p, e) \<in> set dir. regular e \<and> p \<noteq> [] \<and> last p \<noteq> u ''manifest.json'' \<longrightarrow> p \<in> A) \<longleftrightarrow>
      set (payload_files dir) \<subseteq> A" for A
    by (auto simp: payload_files_def simp del: u_Cons)
  then show ?thesis by (simp only: inspect_accepts list_all_iff)
qed

section \<open>Admission\<close>


lemma validate_manifest_Inr:
  "validate_manifest env raw = Inr m \<longleftrightarrow>
     be_coerce env raw = Inr m
     \<and> manifest_field_issues env (case map_of raw (u ''source_urls'') of None \<Rightarrow> JNull | Some v \<Rightarrow> v) m = []
     \<and> check_provenance env m (mf_source_urls m) = None \<and> check_authorized_contract m = None"
  by (auto simp: validate_manifest_def bind_res_Inr manifest_issues_def Let_def split: option.splits if_splits
      simp del: u_Cons)




text \<open>The admission register does not cover raw responses: a version 1 manifest that declares a CCGP raw response
  is admitted without any data contract, whatever its bundle id, once its fields and its provenance are in order.\<close>

theorem version1_raw_response_admitted:
  assumes "be_coerce env raw = Inr m" "mf_schema_version m = 1" "mf_source m = CCGP" "mf_capture_kind m = RAW_RESPONSE"
    and "mf_data_contract m = None"
    and "manifest_field_issues env (case map_of raw (u ''source_urls'') of None \<Rightarrow> JNull | Some v \<Rightarrow> v) m = []"
    and "check_provenance env m (mf_source_urls m) = None"
  shows "validate_manifest env raw = Inr m"
  using assms by (simp add: validate_manifest_Inr check_authorized_contract_def)

lemma nested_manifest_undeclared:
  "ins_valid (inspect_bundle env link_target dir) \<Longrightarrow>
     ins_valid (inspect_bundle env link_target (dir @ [(p @ [u ''manifest.json''], File (Some data))]))"
  if "p \<noteq> []" "map_of dir (p @ [u ''manifest.json'']) = None"
proof -
  assume "ins_valid (inspect_bundle env link_target dir)"
  moreover have keep: "map_of (dir @ [(p @ [u ''manifest.json''], File (Some data))]) q = Some e" if "map_of dir q = Some e" for q e
    using that by (simp add: map_add_def)
  have link: "(case map_of (dir @ [(p @ [u ''manifest.json''], File (Some data))]) q of Some (Link _) \<Rightarrow> True | _ \<Rightarrow> False)
      = (case map_of dir q of Some (Link _) \<Rightarrow> True | _ \<Rightarrow> False)" for q
    using \<open>map_of dir (p @ [u ''manifest.json'']) = None\<close>
    by (cases "map_of dir q") (auto simp: map_add_def simp del: u_Cons)
  have none: "contains_symlink (dir @ [(p @ [u ''manifest.json''], File (Some data))]) name = contains_symlink dir name" for name
    unfolding contains_symlink_def link ..
  have "declared_ok (dir @ [(p @ [u ''manifest.json''], File (Some data))]) name h" if "declared_ok dir name h" for name h
    using that keep unfolding declared_ok_def none by (auto split: option.splits entry.splits simp del: u_Cons)
  ultimately show ?thesis
    unfolding inspect_accepts using keep by (fastforce simp del: u_Cons)
qed

section \<open>Witnesses\<close>

definition v1_manifest :: SnapshotManifest where
  "v1_manifest = \<lparr>mf_schema_version = 1, mf_bundle_id = u ''x'', mf_source = CCGP, mf_capture_kind = RAW_RESPONSE,
     mf_source_urls = [\<lparr>hu_text = u ''https://www.ccgp.gov.cn/'', hu_scheme = u ''https'', hu_host = Some (u ''www.ccgp.gov.cn''),
       hu_port = Some 443, hu_username = None, hu_password = None, hu_query = None, hu_fragment = None\<rparr>],
     mf_retrieved_at = \<lparr>dt_year = 2026, dt_month = 7, dt_day = 1, dt_hour = 0, dt_minute = 0, dt_second = 0, dt_micro = 0,
       dt_offset = Some 0\<rparr>,
     mf_retrieval_outcome = u ''ok'', mf_parser_version = u ''p'', mf_files = [(u ''response.json'', replicate 64 48)],
     mf_batch_id = None, mf_data_contract = None, mf_acquisition_metadata = None\<rparr>"

definition v1_raw :: jobject where
  "v1_raw = [(u ''source_urls'', JArray [JString (u ''https://www.ccgp.gov.cn/'')])]"

definition v1_env :: bundle_env where
  "v1_env = \<lparr>be_tab = \<lparr>nfkc = (\<lambda>s. s), lower = ascii_lower, netloc_ok = (\<lambda>n. True)\<rparr>, be_casefold = ascii_lower,
     be_repr = (\<lambda>s. s), be_decode = (\<lambda>_. Some (JObject v1_raw)), be_coerce = (\<lambda>_. Inr v1_manifest)\<rparr>"

lemma zero_digest: "sha256_match (replicate 64 48)"
  by (simp add: sha256_match_def hex_char_def list_all_iff)

lemma v1_in_order:
  "manifest_field_issues v1_env (case map_of v1_raw (u ''source_urls'') of None \<Rightarrow> JNull | Some v \<Rightarrow> v) v1_manifest = []"
  "check_provenance v1_env v1_manifest (mf_source_urls v1_manifest) = None"
  by (simp_all add: manifest_field_issues_def v1_env_def v1_raw_def v1_manifest_def field_issues_def url_issues_def
      check_raw_urls_def urlsplit_def split_scheme_def split_netloc_def ascii_alpha_def scheme_char_def ascii_lower_def
      zero_digest dt_aware_def raise_invalid_def validate_provenance_def
      provenance_errors_official_def OFFICIAL_HOSTS_BY_SOURCE_def SYNTHETIC_HOST_def synthetic_id_prefix_def)

theorem version1_raw_response_admitted_witness:
  "validate_manifest v1_env v1_raw = Inr v1_manifest"
  by (rule version1_raw_response_admitted [OF _ _ _ _ _ v1_in_order]) (simp_all add: v1_env_def v1_manifest_def)



end
