(* ===== verification/Importer.thy ===== *)
theory Importer
  imports Bundles Notice_Tables
begin

text \<open>
  Snapshot import (\<open>snapshots/importer.py\<close>, \<open>SnapshotRepository\<close>): the resource limits, the
  idempotency key, and the transaction that turns the notices of an inspected bundle into source
  notices, immutable versions and evidence rows while their payloads go to the object store.  One
  import runs at a time, as the repository's own comment states; the source adapters, the canonical
  JSON text of a notice and of a manifest, and the keys the database draws are parameters.
\<close>

section \<open>Tables\<close>

record SnapshotBundleRow =
  sb_id :: pystr
  sb_bundle_id :: pystr
  sb_source :: SourceName
  sb_capture_kind :: CaptureKind
  sb_schema_version :: int
  sb_source_urls :: "pystr list"
  sb_retrieved_at :: datetime
  sb_retrieval_outcome :: pystr
  sb_parser_version :: pystr
  sb_manifest :: jvalue

record ImportMetrics =
  im_manifest_sha256 :: "pystr option"
  im_payload_file_count :: nat
  im_notice_count :: nat
  im_reprocessing :: string

record SnapshotImportRow =
  si_id :: pystr
  si_snapshot_bundle_id :: pystr
  si_idempotency_key :: pystr
  si_status :: string
  si_started_at :: datetime
  si_finished_at :: "datetime option"
  si_metrics :: ImportMetrics

record ImportDb =
  notice_tables :: NoticeTables
  canonical_notices :: "pystr list"
  bundle_rows :: "SnapshotBundleRow list"
  import_rows :: "SnapshotImportRow list"
  drawn :: nat

text \<open>
  What an import draws from outside.  \<open>key_text\<close> and \<open>key_number\<close> are the text and the numeric value of
  the key drawn at a position; the clock is read by position too.
\<close>

record import_env =
  im_env :: bundle_env
  im_links :: "pystr list \<Rightarrow> pystr list option"
  canonical_json :: "NormalizedNotice \<Rightarrow> pystr"
  manifest_json :: "SnapshotManifest \<Rightarrow> jvalue"
  key_text :: "nat \<Rightarrow> pystr"
  key_number :: "nat \<Rightarrow> nat"
  clock_now :: "nat \<Rightarrow> datetime"
  transaction_time :: int

section \<open>Limits\<close>

datatype import_error =
    Resource_limit string | Materialize_failed | Integrity_failed "InspectionError list"
  | Parse_drift | Parse_rejected | Manifest_differs | Key_taken | Store_failed store_error

record SnapshotImportLimits =
  max_files :: nat
  max_file_bytes :: nat
  max_total_bytes :: nat

definition make_limits :: "SnapshotImportLimits \<Rightarrow> SnapshotImportLimits option" where
  "make_limits l =
     (if max_files l = 0 \<or> max_file_bytes l = 0 \<or> max_total_bytes l = 0 then None
      else if max_total_bytes l < max_file_bytes l then None else Some l)"

text \<open>The scan over the sizes of the regular files, in the order they are met.\<close>

fun check_sizes :: "SnapshotImportLimits \<Rightarrow> nat \<Rightarrow> nat \<Rightarrow> nat list \<Rightarrow> import_error + unit" where
  "check_sizes l count seen [] = Inr ()"
| "check_sizes l count seen (n # ns) =
     (if max_files l < count + 1 then Inl (Resource_limit ''max_files'')
      else if max_file_bytes l < n then Inl (Resource_limit ''max_file_bytes'')
      else if max_total_bytes l < seen + n then Inl (Resource_limit ''max_bundle_bytes'')
      else check_sizes l (count + 1) (seen + n) ns)"

section \<open>Content\<close>

definition content_hash :: "import_env \<Rightarrow> NormalizedNotice \<Rightarrow> pystr" where
  "content_hash imp n = sha256_hex (canonical_json imp n)"

definition canonical_bytes :: "import_env \<Rightarrow> NormalizedNotice \<Rightarrow> bytes" where
  "canonical_bytes imp n = map unat (utf8_encode (canonical_json imp n))"

definition payload_object_key :: "pystr \<Rightarrow> pystr \<Rightarrow> pystr" where
  "payload_object_key bundle_id h = u ''snapshots/'' @ bundle_id @ u ''/'' @ h"

definition derive_idempotency_key :: "import_env \<Rightarrow> pystr \<Rightarrow> NormalizedNotice list \<Rightarrow> pystr option \<Rightarrow> pystr" where
  "derive_idempotency_key imp bundle_id notices sha =
     sha256_hex (bundle_id @ u ''|'' @ (case sha of None \<Rightarrow> [] | Some s \<Rightarrow> s) @ u ''|'' @
       py_join (u '','') (sort (map (content_hash imp) notices)))"

section \<open>Evidence\<close>

definition METADATA_FIELD_KEYS :: "string list" where
  "METADATA_FIELD_KEYS = [''synthetic_channel'']"

definition opt_list :: "pystr option \<Rightarrow> pystr list" where
  "opt_list t = (case t of None \<Rightarrow> [] | Some s \<Rightarrow> if s = [] then [] else [s])"

text \<open>\<open>_build_evidence\<close>: the texts of the spans; a span covers its whole text.\<close>

definition evidence_fields :: "NormalizedNotice \<Rightarrow> pystr list" where
  "evidence_fields n =
     concat (map opt_list [nn_title n, nn_purchaser n, nn_region n, nn_summary n,
       map_option isoformat (nn_publish_time n), map_option isoformat (nn_deadline n),
       (case nn_budget n of None \<Rightarrow> None | Some b \<Rightarrow> raw_text b)]) @
     concat (map (\<lambda>(k, v). if k \<in> set (map u METADATA_FIELD_KEYS) then []
       else case v of JString s \<Rightarrow> opt_list (Some s) | _ \<Rightarrow> []) (nn_raw_fields n))"

fun create_evidence :: "import_env \<Rightarrow> pystr \<Rightarrow> pystr list \<Rightarrow> ImportDb \<Rightarrow> ImportDb" where
  "create_evidence imp vid [] db = db"
| "create_evidence imp vid (t # ts) db =
     create_evidence imp vid ts
       (db\<lparr>notice_tables := (notice_tables db)\<lparr>evidence_rows := evidence_rows (notice_tables db) @
             [\<lparr>evr_id = key_number imp (drawn db), evr_notice_version_id = vid, evr_text = t, evr_start = 0,
               evr_end = int (length t), evr_span_hash = sha256_hex t\<rparr>]\<rparr>,
           drawn := Suc (drawn db)\<rparr>)"

section \<open>One notice (SnapshotRepository, _import_notice)\<close>

definition find_source_notice :: "NoticeTables \<Rightarrow> pystr \<Rightarrow> pystr \<Rightarrow> SourceNotice option" where
  "find_source_notice nt source external_id =
     find (\<lambda>s. sn_source s = source \<and> sn_external_id s = external_id) (source_notices nt)"

definition get_or_create_source_notice ::
  "import_env \<Rightarrow> pystr \<Rightarrow> pystr \<Rightarrow> pystr \<Rightarrow> pystr \<Rightarrow> ImportDb \<Rightarrow> pystr \<times> ImportDb" where
  "get_or_create_source_notice imp source external_id url h db =
     (let nt = notice_tables db; now = clock_now imp (drawn db)
      in case find_source_notice nt source external_id of
           Some s \<Rightarrow>
             (sn_id s, db\<lparr>notice_tables := nt\<lparr>source_notices :=
                map (\<lambda>r. if sn_source r = source \<and> sn_external_id r = external_id
                         then r\<lparr>sn_latest_seen_at := now, sn_content_hash := h\<rparr> else r) (source_notices nt)\<rparr>\<rparr>)
         | None \<Rightarrow>
             (key_text imp (Suc (drawn db)),
              db\<lparr>notice_tables := nt\<lparr>source_notices := source_notices nt @
                   [\<lparr>sn_id = key_text imp (Suc (drawn db)), sn_source = source, sn_external_id = external_id,
                     sn_source_url = url, sn_project_number = None, sn_canonical_notice_id = key_text imp (drawn db),
                     sn_first_seen_at = now, sn_latest_seen_at = now, sn_content_hash = h\<rparr>]\<rparr>,
                 canonical_notices := canonical_notices db @ [key_text imp (drawn db)],
                 drawn := drawn db + 2\<rparr>))"

definition find_version_by_hash :: "NoticeTables \<Rightarrow> pystr \<Rightarrow> pystr \<Rightarrow> NoticeVersion option" where
  "find_version_by_hash nt sid h =
     find (\<lambda>v. ver_source_notice_id v = sid \<and> ver_content_hash v = h) (notice_versions nt)"

definition create_version ::
  "import_env \<Rightarrow> pystr \<Rightarrow> pystr \<Rightarrow> CaptureKind \<Rightarrow> pystr \<Rightarrow> NormalizedNotice \<Rightarrow> ImportDb \<Rightarrow> pystr \<times> ImportDb" where
  "create_version imp sid object_key kind h n db =
     (let nt = notice_tables db; vid = key_text imp (drawn db)
      in (vid, db\<lparr>notice_tables := nt\<lparr>notice_versions := notice_versions nt @
            [\<lparr>ver_id = vid, ver_source_notice_id = sid, ver_content_hash = h, ver_title = nn_title n,
              ver_purchaser = nn_purchaser n, ver_region = nn_region n, ver_deadline = nn_deadline n,
              ver_budget_minor_units = map_option minor_units (nn_budget n),
              ver_budget_currency = map_option currency (nn_budget n), ver_cancellation = nn_cancellation n,
              ver_created_at = transaction_time imp, ver_payload_object_key = object_key,
              ver_capture_kind = kind, ver_parser_version = nn_parser_version n,
              ver_publish_date = nn_publish_time n, ver_summary = nn_summary n,
              ver_raw_fields = nn_raw_fields n\<rparr>]\<rparr>,
            drawn := Suc (drawn db)\<rparr>))"

text \<open>\<open>put\<close> is the store's \<open>put_bytes\<close>.\<close>

definition import_notice ::
  "import_env \<Rightarrow> (pystr \<Rightarrow> bytes \<Rightarrow> 's \<Rightarrow> (store_error + unit) \<times> 's) \<Rightarrow> SnapshotManifest \<Rightarrow> pystr \<Rightarrow> NormalizedNotice \<Rightarrow>
     ImportDb \<Rightarrow> 's \<Rightarrow> (import_error + ImportDb) \<times> 's" where
  "import_notice imp put m bundle_id n db s =
     (let h = content_hash imp n; key = payload_object_key bundle_id h
      in case put key (canonical_bytes imp n) s of
           (Inl e, s1) \<Rightarrow> (Inl (Store_failed e), s1)
         | (Inr _, s1) \<Rightarrow>
             (case get_or_create_source_notice imp (source_text (mf_source m)) (nn_external_id n)
                     (hu_text (nn_source_url n)) h db of
                (sid, db1) \<Rightarrow>
                  (case find_version_by_hash (notice_tables db1) sid h of
                     Some _ \<Rightarrow> (Inr db1, s1)
                   | None \<Rightarrow>
                       (case create_version imp sid key (mf_capture_kind m) h n db1 of
                          (vid, db2) \<Rightarrow> (Inr (create_evidence imp vid (evidence_fields n) db2), s1)))))"

fun import_notices ::
  "import_env \<Rightarrow> (pystr \<Rightarrow> bytes \<Rightarrow> 's \<Rightarrow> (store_error + unit) \<times> 's) \<Rightarrow> SnapshotManifest \<Rightarrow> pystr \<Rightarrow> NormalizedNotice list \<Rightarrow>
     ImportDb \<Rightarrow> 's \<Rightarrow> (import_error + ImportDb) \<times> 's" where
  "import_notices imp put m bundle_id [] db s = (Inr db, s)"
| "import_notices imp put m bundle_id (n # ns) db s =
     (case import_notice imp put m bundle_id n db s of
        (Inl e, s1) \<Rightarrow> (Inl e, s1)
      | (Inr db1, s1) \<Rightarrow> import_notices imp put m bundle_id ns db1 s1)"

section \<open>The import transaction\<close>

definition find_import :: "ImportDb \<Rightarrow> pystr \<Rightarrow> SnapshotImportRow option" where
  "find_import db key = find (\<lambda>r. si_idempotency_key r = key) (import_rows db)"

definition find_bundle_by_external_id :: "ImportDb \<Rightarrow> pystr \<Rightarrow> SnapshotBundleRow option" where
  "find_bundle_by_external_id db bundle_id = find (\<lambda>b. sb_bundle_id b = bundle_id) (bundle_rows db)"

definition get_or_create_bundle :: "import_env \<Rightarrow> SnapshotManifest \<Rightarrow> ImportDb \<Rightarrow> SnapshotBundleRow \<times> ImportDb" where
  "get_or_create_bundle imp m db =
     (case find_bundle_by_external_id db (mf_bundle_id m) of
        Some b \<Rightarrow> (b, db)
      | None \<Rightarrow>
          (let b = \<lparr>sb_id = key_text imp (drawn db), sb_bundle_id = mf_bundle_id m, sb_source = mf_source m,
                     sb_capture_kind = mf_capture_kind m, sb_schema_version = mf_schema_version m,
                     sb_source_urls = map hu_text (mf_source_urls m), sb_retrieved_at = mf_retrieved_at m,
                     sb_retrieval_outcome = mf_retrieval_outcome m, sb_parser_version = mf_parser_version m,
                     sb_manifest = manifest_json imp m\<rparr>
           in (b, db\<lparr>bundle_rows := bundle_rows db @ [b], drawn := Suc (drawn db)\<rparr>)))"

text \<open>The unique constraint on the idempotency key refuses a second row.\<close>

definition create_import ::
  "import_env \<Rightarrow> pystr \<Rightarrow> pystr \<Rightarrow> ImportMetrics \<Rightarrow> ImportDb \<Rightarrow> import_error + SnapshotImportRow \<times> ImportDb" where
  "create_import imp bundle_row_id key metrics db =
     (if find_import db key \<noteq> None then Inl Key_taken
      else (let r = \<lparr>si_id = key_text imp (drawn db), si_snapshot_bundle_id = bundle_row_id, si_idempotency_key = key,
                      si_status = ''running'', si_started_at = clock_now imp (drawn db), si_finished_at = None,
                      si_metrics = metrics\<rparr>
            in Inr (r, db\<lparr>import_rows := import_rows db @ [r], drawn := Suc (drawn db)\<rparr>)))"

definition succeeded :: "datetime \<Rightarrow> SnapshotImportRow \<Rightarrow> SnapshotImportRow" where
  "succeeded now r = r\<lparr>si_status := ''success'', si_finished_at := Some now\<rparr>"

definition mark_import_success :: "pystr \<Rightarrow> datetime \<Rightarrow> ImportDb \<Rightarrow> ImportDb" where
  "mark_import_success rid now db =
     db\<lparr>import_rows := map (\<lambda>r. if si_id r = rid then succeeded now r else r) (import_rows db)\<rparr>"

text \<open>The result is the import row and its reprocessing marker, \<open>''new''\<close> unless the row was reused.\<close>

definition import_new ::
  "import_env \<Rightarrow> (pystr \<Rightarrow> bytes \<Rightarrow> 's \<Rightarrow> (store_error + unit) \<times> 's) \<Rightarrow> SnapshotManifest \<Rightarrow> pystr option \<Rightarrow> nat \<Rightarrow>
     NormalizedNotice list \<Rightarrow> pystr \<Rightarrow> ImportDb \<Rightarrow> 's \<Rightarrow> (import_error + (SnapshotImportRow \<times> string) \<times> ImportDb) \<times> 's" where
  "import_new imp put m sha files notices key db s =
     (let existing = find_bundle_by_external_id db (mf_bundle_id m)
      in if (case existing of None \<Rightarrow> False | Some b \<Rightarrow> sb_manifest b \<noteq> manifest_json imp m)
         then (Inl Manifest_differs, s)
         else (case get_or_create_bundle imp m db of (b, db1) \<Rightarrow>
           (case create_import imp (sb_id b) key
                   \<lparr>im_manifest_sha256 = sha, im_payload_file_count = files, im_notice_count = length notices,
                    im_reprocessing = (if existing = None then ''new'' else ''new_version'')\<rparr> db1 of
              Inl e \<Rightarrow> (Inl e, s)
            | Inr (r, db2) \<Rightarrow>
                (case import_notices imp put m (sb_bundle_id b) notices db2 s of
                   (Inl e, s1) \<Rightarrow> (Inl e, s1)
                 | (Inr db3, s1) \<Rightarrow>
                     (let now = clock_now imp (drawn db3)
                      in (Inr ((succeeded now r, ''new''), mark_import_success (si_id r) now db3), s1))))))"

definition import_transaction ::
  "import_env \<Rightarrow> (pystr \<Rightarrow> bytes \<Rightarrow> 's \<Rightarrow> (store_error + unit) \<times> 's) \<Rightarrow> SnapshotManifest \<Rightarrow> pystr option \<Rightarrow> nat \<Rightarrow>
     NormalizedNotice list \<Rightarrow> ImportDb \<Rightarrow> 's \<Rightarrow> (import_error + (SnapshotImportRow \<times> string) \<times> ImportDb) \<times> 's" where
  "import_transaction imp put m sha files notices db s =
     (let key = derive_idempotency_key imp (mf_bundle_id m) notices sha
      in case find_import db key of
           Some r \<Rightarrow> if si_status r = ''success'' then (Inr ((r, ''reused''), db), s)
                     else import_new imp put m sha files notices key db s
         | None \<Rightarrow> import_new imp put m sha files notices key db s)"

text \<open>
  \<open>import_bundle\<close>: limits, staging, inspection, parsing, transaction.  \<open>staged\<close> is what copying the
  directory yields (\<open>None\<close> on an operating system error); a failed transaction is rolled back, but what
  reached the store stays.
\<close>

definition import_bundle ::
  "import_env \<Rightarrow> SnapshotImportLimits \<Rightarrow> (pystr \<Rightarrow> bytes \<Rightarrow> 's \<Rightarrow> (store_error + unit) \<times> 's) \<Rightarrow>
     (directory \<Rightarrow> import_error + NormalizedNotice list) \<Rightarrow> nat list \<Rightarrow> directory option \<Rightarrow> ImportDb \<Rightarrow> 's \<Rightarrow>
     (import_error + SnapshotImportRow \<times> string) \<times> ImportDb \<times> 's" where
  "import_bundle imp limits put parse sizes staged db s =
     (case check_sizes limits 0 0 sizes of
        Inl e \<Rightarrow> (Inl e, db, s)
      | Inr _ \<Rightarrow>
          (case staged of
             None \<Rightarrow> (Inl Materialize_failed, db, s)
           | Some dir \<Rightarrow>
               (let ins = inspect_bundle (im_env imp) (im_links imp) dir
                in case ins_manifest ins of
                     None \<Rightarrow> (Inl (Integrity_failed (ins_errors ins)), db, s)
                   | Some m \<Rightarrow>
                       if ins_errors ins \<noteq> [] then (Inl (Integrity_failed (ins_errors ins)), db, s)
                       else (case parse dir of
                               Inl e \<Rightarrow> (Inl e, db, s)
                             | Inr notices \<Rightarrow>
                                 (case import_transaction imp put m (ins_manifest_sha256 ins)
                                         (length (ins_actual_hashes ins)) notices db s of
                                    (Inl e, s1) \<Rightarrow> (Inl e, db, s1)
                                  | (Inr (r, db1), s1) \<Rightarrow> (Inr r, db1, s1))))))"

end
