(* ===== verification/Import_Properties.thy ===== *)
theory Import_Properties
  imports Importer
begin

text \<open>
  What an import guarantees: payloads that stay readable under their content hash, versions that are
  faithful copies of a notice with their evidence, and idempotence.
\<close>

section \<open>Hashes\<close>

lemma canonical_bytes_hash [simp]: "hash_bytes (canonical_bytes imp n) = content_hash imp n"
  by (simp add: hash_bytes_def canonical_bytes_def content_hash_def sha256_hex_def o_def)

lemma hexdigest_no_slash: "47 \<notin> set (hexdigest bs)"
  by (induction bs) (auto simp: hexdigest_def hex_digit_def)

lemma content_hash_shape: "47 \<notin> set (content_hash imp n)" "length (content_hash imp n) = 64"
  by (simp_all add: content_hash_def sha256_hex_def hexdigest_no_slash length_sha256_hex [unfolded sha256_hex_def])

section \<open>Payloads in the object store\<close>

definition hash_part :: "pystr \<Rightarrow> bool" where
  "hash_part h \<longleftrightarrow> 47 \<notin> set h \<and> length h = 64"

definition payload_stored :: "(pystr \<Rightarrow> 's \<Rightarrow> store_error + bytes) \<Rightarrow> 's \<Rightarrow> NoticeVersion \<Rightarrow> bool" where
  "payload_stored get s v \<longleftrightarrow>
     (\<exists>b. ver_payload_object_key v = payload_object_key b (ver_content_hash v)) \<and> hash_part (ver_content_hash v)
     \<and> (\<exists>data. get (ver_payload_object_key v) s = Inr data \<and> hash_bytes data = ver_content_hash v)"

definition payloads_intact :: "(pystr \<Rightarrow> 's \<Rightarrow> store_error + bytes) \<Rightarrow> NoticeTables \<Rightarrow> 's \<Rightarrow> bool" where
  "payloads_intact get nt s \<longleftrightarrow> (\<forall>v \<in> set (notice_versions nt). payload_stored get s v)"

text \<open>A store in which two payload keys name the same object only when they end in the same hash.\<close>

locale payload_store = object_store +
  assumes get_loc: "loc k' = loc k \<Longrightarrow> get k' s = get k s"
    and same_hash: "put (payload_object_key b h) d s = (Inr (), s') \<Longrightarrow> hash_part h \<Longrightarrow> hash_part h' \<Longrightarrow>
    loc (payload_object_key b' h') = loc (payload_object_key b h) \<Longrightarrow> h' = h"
begin

text \<open>Writing a payload keeps every stored payload readable with its own digest.\<close>

lemma payload_kept:
  assumes "put (payload_object_key b (content_hash imp n)) (canonical_bytes imp n) s = (r, s')"
    and "payload_stored get s v"
  shows "payload_stored get s' v"
proof -
  let ?k = "payload_object_key b (content_hash imp n)"
  obtain b' data where v: "ver_payload_object_key v = payload_object_key b' (ver_content_hash v)"
      "hash_part (ver_content_hash v)" "get (ver_payload_object_key v) s = Inr data" "hash_bytes data = ver_content_hash v"
    using assms(2) by (auto simp: payload_stored_def)
  have h: "hash_part (content_hash imp n)"
    by (simp add: hash_part_def content_hash_shape)
  have "\<exists>data'. get (ver_payload_object_key v) s' = Inr data' \<and> hash_bytes data' = ver_content_hash v"
  proof (cases r)
    case (Inl e)
    then show ?thesis using get_failed assms(1) v by blast
  next
    case (Inr x)
    then have put: "put ?k (canonical_bytes imp n) s = (Inr (), s')"
      using assms(1) by simp
    show ?thesis
    proof (cases "loc (ver_payload_object_key v) = loc ?k")
      case True
      then have same: "ver_content_hash v = content_hash imp n"
        using same_hash [OF put h v(2)] v(1) by simp
      then show ?thesis
        using get_loc [OF True] get_put [OF put] by simp
    next
      case False
      then show ?thesis using get_other [OF assms(1)] v by blast
    qed
  qed
  then show ?thesis using v by (auto simp: payload_stored_def)
qed

end

interpretation s3_payloads: payload_store "s3_put pre" "s3_get pre" "s3_exists pre" "full_key pre" "\<lambda>b. True"
proof
  show "s3_get pre k' s = s3_get pre k s" if "full_key pre k' = full_key pre k" for k' k s
    using that by (simp add: s3_get_def)
  show "h' = h" if "s3_put pre (payload_object_key b h) d s = (Inr (), s')" "hash_part h" "hash_part h'"
    "full_key pre (payload_object_key b' h') = full_key pre (payload_object_key b h)" for b h d s s' b' h'
  proof -
    have "payload_object_key b' h' = payload_object_key b h"
      using that(1,4) by (auto simp: s3_put_def full_key_def split: if_splits sum.splits)
    then show "h' = h"
      using that(2,3) by (simp add: payload_object_key_def hash_part_def append_eq_append_conv)
  qed
qed

lemma py_split_on_tail: "d \<notin> set h \<Longrightarrow> py_split_on d (x @ d # h) = py_split_on d x @ [h]"
proof (induction x)
  case Nil
  have "py_split_on d h = [h]" using py_split_on_join [of "[h]" d] Nil by simp
  then show ?case by simp
next
  case (Cons c x)
  then show ?case using py_split_on_nonempty [of d x] by (auto split: list.splits)
qed

lemma payload_path:
  assumes "hash_part h"
  shows "\<exists>ps. path_parts (payload_object_key b h) = ps @ [h]"
proof -
  have "payload_object_key b h = (u ''snapshots/'' @ b) @ 47 # h" by (simp add: payload_object_key_def)
  then show ?thesis
    using assms by (auto simp: path_parts_def hash_part_def py_split_on_tail simp del: append_assoc)
qed

interpretation local_payloads: payload_store local_put local_get local_exists resolve_key fs_ok
proof
  show "local_get k' s = local_get k s" if "resolve_key k' = resolve_key k" for k' k s
    using that by (simp add: local_get_def)
  show "h' = h" if "local_put (payload_object_key b h) d s = (Inr (), s')" "hash_part h" "hash_part h'"
    "resolve_key (payload_object_key b' h') = resolve_key (payload_object_key b h)" for b h d s s' b' h'
  proof -
    have "path_parts (payload_object_key b' h') = path_parts (payload_object_key b h)"
      using that(1,4) by (auto simp: local_put_def resolve_key_def split: if_splits sum.splits)
    then show "h' = h"
      using payload_path [OF that(2), of b] payload_path [OF that(3), of b'] by auto
  qed
qed

section \<open>Steps on the tables\<close>

lemma create_evidence_tables:
  "notice_versions (notice_tables (create_evidence imp vid ts db)) = notice_versions (notice_tables db)"
  "source_notices (notice_tables (create_evidence imp vid ts db)) = source_notices (notice_tables db)"
  "bundle_rows (create_evidence imp vid ts db) = bundle_rows db"
  "import_rows (create_evidence imp vid ts db) = import_rows db"
  "drawn (create_evidence imp vid ts db) = drawn db + length ts"
  by (induction imp vid ts db rule: create_evidence.induct) simp_all

lemma create_evidence_rows:
  "\<exists>rows. evidence_rows (notice_tables (create_evidence imp vid ts db)) = evidence_rows (notice_tables db) @ rows
     \<and> map evr_text rows = ts
     \<and> (\<forall>e \<in> set rows. evr_notice_version_id e = vid \<and> evr_start e = 0 \<and> evr_end e = int (length (evr_text e))
          \<and> evr_span_hash e = sha256_hex (evr_text e))"
proof (induction imp vid ts db rule: create_evidence.induct)
  case (2 imp vid t ts db)
  then show ?case
    by fastforce
qed simp

lemma get_or_create_source_spec:
  assumes "get_or_create_source_notice imp source ext url h db = (sid, db')"
  shows "notice_versions (notice_tables db') = notice_versions (notice_tables db)"
    and "evidence_rows (notice_tables db') = evidence_rows (notice_tables db)"
    and "bundle_rows db' = bundle_rows db" "import_rows db' = import_rows db" "drawn db \<le> drawn db'"
  using assms by (auto simp: get_or_create_source_notice_def Let_def split: option.splits)

text \<open>A version is a copy of one notice with that content hash, and owns exactly that notice's evidence.\<close>

definition copy_of :: "import_env \<Rightarrow> NormalizedNotice \<Rightarrow> NoticeVersion \<Rightarrow> bool" where
  "copy_of imp n v \<longleftrightarrow>
     ver_content_hash v = content_hash imp n \<and> ver_title v = nn_title n \<and> ver_purchaser v = nn_purchaser n
     \<and> ver_region v = nn_region n \<and> ver_deadline v = nn_deadline n \<and> ver_publish_date v = nn_publish_time n
     \<and> ver_budget_minor_units v = map_option minor_units (nn_budget n)
     \<and> ver_budget_currency v = map_option currency (nn_budget n) \<and> ver_summary v = nn_summary n
     \<and> ver_cancellation v = nn_cancellation n \<and> ver_raw_fields v = nn_raw_fields n"

definition rows_of :: "NoticeTables \<Rightarrow> pystr \<Rightarrow> EvidenceRow list" where
  "rows_of nt vid = filter (\<lambda>e. evr_notice_version_id e = vid) (evidence_rows nt)"

definition row_intact :: "EvidenceRow \<Rightarrow> bool" where
  "row_intact e \<longleftrightarrow> evr_start e = 0 \<and> evr_end e = int (length (evr_text e)) \<and> evr_text e \<noteq> []
     \<and> evr_span_hash e = sha256_hex (evr_text e)"

definition import_inv :: "import_env \<Rightarrow> ImportDb \<Rightarrow> bool" where
  "import_inv imp db \<longleftrightarrow>
     (let nt = notice_tables db in
        distinct (map ver_id (notice_versions nt))
        \<and> (\<forall>v \<in> set (notice_versions nt). \<exists>k < drawn db. ver_id v = key_text imp k)
        \<and> distinct (map (\<lambda>v. (ver_source_notice_id v, ver_content_hash v)) (notice_versions nt))
        \<and> (\<forall>v \<in> set (notice_versions nt). \<exists>n. copy_of imp n v \<and> map evr_text (rows_of nt (ver_id v)) = evidence_fields n)
        \<and> (\<forall>e \<in> set (evidence_rows nt). row_intact e \<and> evr_notice_version_id e \<in> ver_id ` set (notice_versions nt)))"

lemma evidence_fields_nonempty: "t \<in> set (evidence_fields n) \<Longrightarrow> t \<noteq> []"
  by (auto simp: evidence_fields_def opt_list_def split: option.splits if_splits jvalue.splits)

lemma find_version_None:
  "find_version_by_hash nt sid h = None \<Longrightarrow> v \<in> set (notice_versions nt) \<Longrightarrow>
     (ver_source_notice_id v, ver_content_hash v) \<noteq> (sid, h)"
  by (auto simp: find_version_by_hash_def find_None_iff)

text \<open>Appending a version under a fresh key, with its evidence.\<close>

lemma new_version_inv:
  assumes "inj (key_text imp)" "import_inv imp db"
    and "find_version_by_hash (notice_tables db) sid (content_hash imp n) = None"
    and "create_version imp sid key kind (content_hash imp n) n db = (vid, db2)"
  shows "import_inv imp (create_evidence imp vid (evidence_fields n) db2)"
proof -
  let ?nt = "notice_tables db"
  let ?db3 = "create_evidence imp vid (evidence_fields n) db2"
  define v where "v = last (notice_versions (notice_tables db2))"
  have v: "notice_versions (notice_tables db2) = notice_versions ?nt @ [v]" "ver_id v = vid" "vid = key_text imp (drawn db)"
      "ver_source_notice_id v = sid" "copy_of imp n v" "drawn db2 = Suc (drawn db)"
      "evidence_rows (notice_tables db2) = evidence_rows ?nt"
    using assms(4) by (auto simp: create_version_def Let_def copy_of_def v_def)
  obtain rows where rows: "evidence_rows (notice_tables ?db3) = evidence_rows ?nt @ rows" "map evr_text rows = evidence_fields n"
      "\<forall>e \<in> set rows. evr_notice_version_id e = vid \<and> evr_start e = 0 \<and> evr_end e = int (length (evr_text e))
          \<and> evr_span_hash e = sha256_hex (evr_text e)"
    using create_evidence_rows [of imp vid "evidence_fields n" db2] v(7) by auto
  have fresh: "vid \<notin> ver_id ` set (notice_versions ?nt)"
  proof
    assume "vid \<in> ver_id ` set (notice_versions ?nt)"
    then obtain k where "k < drawn db" "key_text imp (drawn db) = key_text imp k"
      using assms(2) v(3) by (auto simp: import_inv_def Let_def)
    then show False using injD [OF assms(1)] by fastforce
  qed
  have old_rows: "rows_of (notice_tables ?db3) w = rows_of ?nt w" if "w \<noteq> vid" for w
    using rows(1,3) that by (auto simp: rows_of_def filter_empty_conv)
  have "rows_of ?nt vid = []"
    using fresh assms(2) by (force simp: import_inv_def Let_def rows_of_def filter_empty_conv)
  then have new_rows: "rows_of (notice_tables ?db3) vid = rows"
    using rows(1,3) by (simp add: rows_of_def)
  have nonempty: "evr_text e \<noteq> []" if "e \<in> set rows" for e
  proof -
    have "evr_text e \<in> set (map evr_text rows)" using that by simp
    then show ?thesis unfolding rows(2) by (rule evidence_fields_nonempty)
  qed
  have vs: "notice_versions (notice_tables ?db3) = notice_versions ?nt @ [v]"
    by (simp add: create_evidence_tables v(1))
  have "distinct (map ver_id (notice_versions ?nt @ [v]))"
    using assms(2) fresh v(2) by (simp add: import_inv_def Let_def)
  moreover have "\<forall>w \<in> set (notice_versions ?nt @ [v]). \<exists>k < drawn ?db3. ver_id w = key_text imp k"
  proof
    fix w assume "w \<in> set (notice_versions ?nt @ [v])"
    then consider "w \<in> set (notice_versions ?nt)" | "w = v" by auto
    then obtain k where "k < Suc (drawn db)" "ver_id w = key_text imp k"
    proof cases
      case 1
      then obtain k where "k < drawn db" "ver_id w = key_text imp k"
        using assms(2) by (auto simp: import_inv_def Let_def)
      then show ?thesis using that [of k] by simp
    qed (use v(2,3) that in auto)
    then show "\<exists>k < drawn ?db3. ver_id w = key_text imp k"
      using v(6) by (auto simp: create_evidence_tables intro: exI [of _ k])
  qed
  moreover have "distinct (map (\<lambda>v. (ver_source_notice_id v, ver_content_hash v)) (notice_versions ?nt @ [v]))"
    using assms(2) find_version_None [OF assms(3)] v(4,5) by (auto simp: import_inv_def Let_def copy_of_def)
  moreover have "\<exists>m. copy_of imp m w \<and> map evr_text (rows_of (notice_tables ?db3) (ver_id w)) = evidence_fields m"
    if "w \<in> set (notice_versions ?nt @ [v])" for w
  proof (cases "w = v")
    case True
    then show ?thesis using v(2,5) new_rows rows(2) by auto
  next
    case False
    then have "w \<in> set (notice_versions ?nt)" using that by simp
    moreover have "ver_id w \<noteq> vid" using fresh calculation by auto
    ultimately show ?thesis using assms(2) old_rows [of "ver_id w"] by (simp add: import_inv_def Let_def)
  qed
  moreover have "\<forall>e \<in> set (evidence_rows (notice_tables ?db3)). row_intact e
      \<and> evr_notice_version_id e \<in> ver_id ` set (notice_versions ?nt @ [v])"
    using assms(2) rows(1,3) nonempty v(2) by (auto simp: import_inv_def Let_def row_intact_def)
  ultimately show ?thesis
    unfolding import_inv_def Let_def vs by blast
qed

lemma import_inv_cong:
  assumes "import_inv imp db" "notice_versions (notice_tables db') = notice_versions (notice_tables db)"
    and "evidence_rows (notice_tables db') = evidence_rows (notice_tables db)" "drawn db \<le> drawn db'"
  shows "import_inv imp db'"
proof -
  have "\<exists>k < drawn db'. ver_id v = key_text imp k" if "v \<in> set (notice_versions (notice_tables db))" for v
    using assms(1,4) that order_less_le_trans by (fastforce simp: import_inv_def Let_def)
  then show ?thesis
    using assms(1) unfolding import_inv_def Let_def rows_of_def assms(2,3) by blast
qed

lemma import_notice_inv:
  assumes "inj (key_text imp)" "import_inv imp db" "import_notice imp put m b n db s = (Inr db', s')"
  shows "import_inv imp db'"
proof -
  let ?h = "content_hash imp n"
  obtain s1 where "put (payload_object_key b ?h) (canonical_bytes imp n) s = (Inr (), s1)"
    using assms(3) by (auto simp: import_notice_def Let_def split: prod.splits sum.splits)
  obtain sid db1 where g: "get_or_create_source_notice imp (source_text (mf_source m)) (nn_external_id n)
      (hu_text (nn_source_url n)) ?h db = (sid, db1)" by fastforce
  have inv1: "import_inv imp db1"
    using import_inv_cong [OF assms(2)] get_or_create_source_spec [OF g] by blast
  show ?thesis
  proof (cases "find_version_by_hash (notice_tables db1) sid ?h")
    case (Some v)
    then show ?thesis
      using assms(3) g inv1 by (auto simp: import_notice_def Let_def split: prod.splits sum.splits)
  next
    case None
    obtain vid db2 where c: "create_version imp sid (payload_object_key b ?h) (mf_capture_kind m) ?h n db1 = (vid, db2)"
      by fastforce
    have "db' = create_evidence imp vid (evidence_fields n) db2"
      using assms(3) g None c by (auto simp: import_notice_def Let_def split: prod.splits sum.splits)
    then show ?thesis using new_version_inv [OF assms(1) inv1 None c] by simp
  qed
qed

lemma import_notices_inv:
  "inj (key_text imp) \<Longrightarrow> import_inv imp db \<Longrightarrow> import_notices imp put m b ns db s = (Inr db', s') \<Longrightarrow> import_inv imp db'"
  by (induction imp put m b ns db s rule: import_notices.induct)
    (auto split: prod.splits sum.splits dest: import_notice_inv)

lemma get_or_create_bundle_spec:
  assumes "get_or_create_bundle imp m db = (b, db')"
  shows "notice_tables db' = notice_tables db" "import_rows db' = import_rows db" "drawn db \<le> drawn db'"
    and "sb_bundle_id b = mf_bundle_id m" "find_bundle_by_external_id db' (mf_bundle_id m) = Some b"
    and "find_bundle_by_external_id db (mf_bundle_id m) = None \<Longrightarrow> sb_manifest b = manifest_json imp m"
  using assms
  by (auto simp: get_or_create_bundle_def find_bundle_by_external_id_def Let_def find_append_None
      split: option.splits dest: find_Some_iff [THEN iffD1])

lemma create_import_spec:
  assumes "create_import imp bid key metrics db = Inr (r, db')"
  shows "find_import db key = None" "import_rows db' = import_rows db @ [r]" "si_idempotency_key r = key"
    "notice_tables db' = notice_tables db" "bundle_rows db' = bundle_rows db" "drawn db' = Suc (drawn db)"
    "si_id r = key_text imp (drawn db)" "si_status r = ''running''"
  using assms by (auto simp: create_import_def Let_def split: if_splits)

text \<open>A new import is refused before anything is stored, or stores its notices one after the other.\<close>

lemma import_new_cases:
  obtains (refused) e where "import_new imp put m sha files notices key db s = (Inl e, s)"
  | (run) b db1 metrics r0 db2 where
      "get_or_create_bundle imp m db = (b, db1)" "create_import imp (sb_id b) key metrics db1 = Inr (r0, db2)"
      "case find_bundle_by_external_id db (mf_bundle_id m) of None \<Rightarrow> True | Some b \<Rightarrow> sb_manifest b = manifest_json imp m"
      "im_notice_count metrics = length notices"
      "import_new imp put m sha files notices key db s =
         (case import_notices imp put m (sb_bundle_id b) notices db2 s of
            (Inl e, s1) \<Rightarrow> (Inl e, s1)
          | (Inr db3, s1) \<Rightarrow> (Inr ((succeeded (clock_now imp (drawn db3)) r0, ''new''),
                               mark_import_success (si_id r0) (clock_now imp (drawn db3)) db3), s1))"
proof -
  let ?existing = "find_bundle_by_external_id db (mf_bundle_id m)"
  obtain b db1 where g: "get_or_create_bundle imp m db = (b, db1)" by fastforce
  define metrics where "metrics = \<lparr>im_manifest_sha256 = sha, im_payload_file_count = files,
      im_notice_count = length notices, im_reprocessing = (if ?existing = None then ''new'' else ''new_version'')\<rparr>"
  show thesis
  proof (cases "case ?existing of None \<Rightarrow> True | Some b \<Rightarrow> sb_manifest b = manifest_json imp m")
    case False
    then show thesis by (intro refused [of Manifest_differs]) (auto simp: import_new_def Let_def split: option.splits)
  next
    case True
    then have i: "import_new imp put m sha files notices key db s =
        (case create_import imp (sb_id b) key metrics db1 of
           Inl e \<Rightarrow> (Inl e, s)
         | Inr (r, db2) \<Rightarrow>
             (case import_notices imp put m (sb_bundle_id b) notices db2 s of
                (Inl e, s1) \<Rightarrow> (Inl e, s1)
              | (Inr db3, s1) \<Rightarrow>
                  (Inr ((succeeded (clock_now imp (drawn db3)) r, ''new''),
                        mark_import_success (si_id r) (clock_now imp (drawn db3)) db3), s1)))"
      unfolding import_new_def Let_def metrics_def using g by (auto split: option.splits)
    show thesis
    proof (cases "create_import imp (sb_id b) key metrics db1")
      case (Inl e)
      then show thesis using i by (intro refused [of e]) simp
    next
      case (Inr p)
      then show thesis
        using i True by (cases p) (intro run [OF g, of metrics], auto simp: metrics_def)
    qed
  qed
qed

text \<open>A successful import either reused a row or ran every step.\<close>

lemma import_transaction_cases:
  assumes "import_transaction imp put m sha files notices db s = (Inr ((r, mark), db'), s')"
  obtains (reused) "find_import db (derive_idempotency_key imp (mf_bundle_id m) notices sha) = Some r"
      "si_status r = ''success''" "mark = ''reused''" "db' = db" "s' = s"
  | (imported) b db1 r0 db2 db3 metrics where
      "get_or_create_bundle imp m db = (b, db1)"
      "create_import imp (sb_id b) (derive_idempotency_key imp (mf_bundle_id m) notices sha) metrics db1 = Inr (r0, db2)"
      "import_notices imp put m (sb_bundle_id b) notices db2 s = (Inr db3, s')"
      "r = succeeded (clock_now imp (drawn db3)) r0" "mark = ''new''"
      "db' = mark_import_success (si_id r0) (clock_now imp (drawn db3)) db3"
proof -
  let ?key = "derive_idempotency_key imp (mf_bundle_id m) notices sha"
  have new: thesis if i: "import_new imp put m sha files notices ?key db s = (Inr ((r, mark), db'), s')"
  proof (rule import_new_cases [of imp put m sha files notices ?key db s])
    fix b db1 metrics r0 db2
    assume "get_or_create_bundle imp m db = (b, db1)" "create_import imp (sb_id b) ?key metrics db1 = Inr (r0, db2)"
      and "import_new imp put m sha files notices ?key db s =
         (case import_notices imp put m (sb_bundle_id b) notices db2 s of
            (Inl e, s1) \<Rightarrow> (Inl e, s1)
          | (Inr db3, s1) \<Rightarrow> (Inr ((succeeded (clock_now imp (drawn db3)) r0, ''new''),
                               mark_import_success (si_id r0) (clock_now imp (drawn db3)) db3), s1))"
    then show thesis
      using i by (auto split: prod.splits sum.splits intro: imported)
  qed (use i in simp)
  show thesis
  proof (cases "find_import db ?key")
    case None
    show thesis using assms by (intro new) (simp add: import_transaction_def None)
  next
    case (Some r')
    show thesis
    proof (cases "si_status r' = ''success''")
      case True
      then have "r = r'" "mark = ''reused''" "db' = db" "s' = s"
        using assms by (simp_all add: import_transaction_def Some)
      then show thesis using Some True by (intro reused) simp_all
    next
      case False
      then show thesis using assms by (intro new) (simp add: import_transaction_def Some)
    qed
  qed
qed

lemma import_transaction_inv:
  assumes "inj (key_text imp)" "import_inv imp db"
    and "import_transaction imp put m sha files notices db s = (Inr ((r, mark), db'), s')"
  shows "import_inv imp db'"
proof (cases rule: import_transaction_cases [OF assms(3), case_names reused imported])
  case reused
  then show ?thesis using assms(2) by simp
next
  case (imported b db1 r0 db2 db3 metrics)
  have "import_inv imp db2"
    using import_inv_cong [OF assms(2)] get_or_create_bundle_spec(1,3) [OF imported(1)] create_import_spec(4,6) [OF imported(2)]
    by simp
  then have "import_inv imp db3"
    using import_notices_inv [OF assms(1) _ imported(3)] by blast
  then show ?thesis
    by (rule import_inv_cong) (simp_all add: imported(6) mark_import_success_def)
qed

section \<open>Payload integrity\<close>

lemma payloads_subset:
  "payloads_intact get nt s \<Longrightarrow> set (notice_versions nt') \<subseteq> set (notice_versions nt) \<Longrightarrow> payloads_intact get nt' s"
  by (auto simp: payloads_intact_def)

text \<open>A notice step stores its payload first, and adds at most the version that names it.\<close>

lemma import_notice_versions:
  assumes "import_notice imp put m b n db s = (Inr db', s')"
  shows "put (payload_object_key b (content_hash imp n)) (canonical_bytes imp n) s = (Inr (), s')"
    and "set (notice_versions (notice_tables db')) \<subseteq> set (notice_versions (notice_tables db)) \<union>
      {v. ver_payload_object_key v = payload_object_key b (content_hash imp n) \<and> ver_content_hash v = content_hash imp n}"
    and "set (notice_versions (notice_tables db)) \<subseteq> set (notice_versions (notice_tables db'))"
    and "import_rows db' = import_rows db"
  using assms get_or_create_source_spec
  by (fastforce simp: import_notice_def create_version_def Let_def create_evidence_tables split: prod.splits sum.splits option.splits)+

context payload_store
begin

lemma payloads_put:
  "payloads_intact get nt s \<Longrightarrow>
     put (payload_object_key b (content_hash imp n)) (canonical_bytes imp n) s = (r, s') \<Longrightarrow> payloads_intact get nt s'"
  using payload_kept by (auto simp: payloads_intact_def)

lemma notice_payloads:
  assumes "payloads_intact get (notice_tables db) s" "import_notice imp put m b n db s = (r, s')"
  shows "payloads_intact get (notice_tables db) s' \<and> (\<forall>db'. r = Inr db' \<longrightarrow> payloads_intact get (notice_tables db') s')"
proof (cases r)
  case (Inl e)
  then obtain q where "put (payload_object_key b (content_hash imp n)) (canonical_bytes imp n) s = (q, s')"
    using assms(2) by (auto simp: import_notice_def Let_def split: prod.splits sum.splits option.splits)
  then show ?thesis using payloads_put assms(1) Inl by simp
next
  case (Inr db')
  note steps = import_notice_versions [OF assms(2) [unfolded Inr]]
  have old: "payloads_intact get (notice_tables db) s'"
    using payloads_put [OF assms(1) steps(1)] .
  have "payload_stored get s' v" if "v \<in> set (notice_versions (notice_tables db'))" for v
  proof (cases "v \<in> set (notice_versions (notice_tables db))")
    case True
    then show ?thesis using old by (simp add: payloads_intact_def)
  next
    case False
    then have "ver_payload_object_key v = payload_object_key b (content_hash imp n)" "ver_content_hash v = content_hash imp n"
      using steps(2) that by auto
    then show ?thesis
      using get_put [OF steps(1)] by (auto simp: payload_stored_def hash_part_def content_hash_shape)
  qed
  then show ?thesis using old Inr by (simp add: payloads_intact_def)
qed

lemma notices_payloads:
  "payloads_intact get (notice_tables db) s \<Longrightarrow> payloads_intact get nt s \<Longrightarrow> import_notices imp put m b ns db s = (r, s') \<Longrightarrow>
     payloads_intact get nt s' \<and> (\<forall>db'. r = Inr db' \<longrightarrow> payloads_intact get (notice_tables db') s')"
proof (induction ns arbitrary: db s)
  case Nil
  then show ?case by auto
next
  case (Cons n ns)
  obtain q s1 where q: "import_notice imp put m b n db s = (q, s1)" by fastforce
  have keep: "payloads_intact get nt s1"
  proof -
    obtain p where "put (payload_object_key b (content_hash imp n)) (canonical_bytes imp n) s = (p, s1)"
      using q by (auto simp: import_notice_def Let_def split: prod.splits sum.splits option.splits)
    then show ?thesis using payloads_put Cons.prems(2) by blast
  qed
  show ?case
  proof (cases q)
    case (Inl e)
    then show ?thesis using Cons.prems(3) q keep by auto
  next
    case (Inr db1)
    then have "payloads_intact get (notice_tables db1) s1"
      using notice_payloads [OF Cons.prems(1) q] by simp
    then show ?thesis
      using Cons.IH [of db1 s1] keep Cons.prems(3) q Inr by auto
  qed
qed

text \<open>Whether it succeeds or fails, an import leaves every stored payload intact.\<close>

lemma transaction_payloads:
  assumes "payloads_intact get (notice_tables db) s" "import_transaction imp put m sha files notices db s = (r, s')"
  shows "payloads_intact get (notice_tables db) s' \<and> (\<forall>x db'. r = Inr (x, db') \<longrightarrow> payloads_intact get (notice_tables db') s')"
proof -
  let ?key = "derive_idempotency_key imp (mf_bundle_id m) notices sha"
  have new: ?thesis if i: "import_new imp put m sha files notices ?key db s = (r, s')"
  proof (rule import_new_cases [of imp put m sha files notices ?key db s])
    fix e assume "import_new imp put m sha files notices ?key db s = (Inl e, s)"
    then show ?thesis using i assms(1) by simp
  next
    fix b db1 metrics r0 db2
    assume g: "get_or_create_bundle imp m db = (b, db1)" and c: "create_import imp (sb_id b) ?key metrics db1 = Inr (r0, db2)"
      and run: "import_new imp put m sha files notices ?key db s =
         (case import_notices imp put m (sb_bundle_id b) notices db2 s of
            (Inl e, s1) \<Rightarrow> (Inl e, s1)
          | (Inr db3, s1) \<Rightarrow> (Inr ((succeeded (clock_now imp (drawn db3)) r0, ''new''),
                               mark_import_success (si_id r0) (clock_now imp (drawn db3)) db3), s1))"
    obtain q s1 where n: "import_notices imp put m (sb_bundle_id b) notices db2 s = (q, s1)" by fastforce
    have "notice_tables db2 = notice_tables db"
      using get_or_create_bundle_spec(1) [OF g] create_import_spec(4) [OF c] by simp
    then have "payloads_intact get (notice_tables db) s1 \<and> (\<forall>db'. q = Inr db' \<longrightarrow> payloads_intact get (notice_tables db') s1)"
      using notices_payloads [OF _ assms(1) n] assms(1) by simp
    then show ?thesis
      using i run n by (cases q) (auto simp: mark_import_success_def)
  qed
  show ?thesis
    using assms new unfolding import_transaction_def Let_def by (auto split: option.splits if_splits)
qed

lemma bundle_payloads:
  assumes "payloads_intact get (notice_tables db) s" "import_bundle imp limits put parse sizes staged db s = (r, db', s')"
  shows "payloads_intact get (notice_tables db') s'"
  using assms transaction_payloads [OF assms(1)]
  by (fastforce simp: import_bundle_def Let_def split: sum.splits option.splits if_splits prod.splits)

end

section \<open>Properties\<close>

text \<open>C21: Whatever an import does to the local object store, succeed, fail half way or be refused, every version in
  the tables keeps its payload: the object under its key can be read and has the version's content hash.\<close>

theorem stored_payloads_intact:
  assumes "payloads_intact local_get (notice_tables db) s"
    and "import_bundle imp limits local_put parse sizes staged db s = (r, db', s')"
  shows "payloads_intact local_get (notice_tables db') s'"
  by (rule local_payloads.bundle_payloads [OF assms])

lemma stored_payloads_intact_s3:
  assumes "payloads_intact (s3_get pre) (notice_tables db) s"
    and "import_bundle imp limits (s3_put pre) parse sizes staged db s = (r, db', s')"
  shows "payloads_intact (s3_get pre) (notice_tables db') s'"
  by (rule s3_payloads.bundle_payloads [OF assms])

lemma import_bundle_Inr:
  assumes "import_bundle imp limits put parse sizes staged db s = (Inr (r, mark), db', s')"
  obtains dir m notices where "staged = Some dir" "check_sizes limits 0 0 sizes = Inr ()"
    "ins_manifest (inspect_bundle (im_env imp) (im_links imp) dir) = Some m"
    "ins_errors (inspect_bundle (im_env imp) (im_links imp) dir) = []" "parse dir = Inr notices"
    "import_transaction imp put m (ins_manifest_sha256 (inspect_bundle (im_env imp) (im_links imp) dir))
       (length (ins_actual_hashes (inspect_bundle (im_env imp) (im_links imp) dir))) notices db s = (Inr ((r, mark), db'), s')"
  using assms by (auto simp: import_bundle_def Let_def split: sum.splits option.splits if_splits prod.splits)

text \<open>C17: After a successful import every version in the tables is a faithful copy of one notice with that
  notice's content hash, owns exactly the evidence rows of its fields, each anchored to its whole text under the
  text's digest, and no source notice has two versions of one content.\<close>

theorem import_keeps_versions_faithful:
  assumes "inj (key_text imp)" "import_inv imp db"
    and "import_bundle imp limits put parse sizes staged db s = (Inr (r, mark), db', s')"
  shows "import_inv imp db'"
  using import_bundle_Inr [OF assms(3)] import_transaction_inv [OF assms(1,2)] by metis

lemma import_notices_rows:
  "import_notices imp put m b ns db s = (Inr db', s') \<Longrightarrow> import_rows db' = import_rows db"
  by (induction imp put m b ns db s rule: import_notices.induct)
    (auto split: prod.splits sum.splits dest: import_notice_versions(4))

lemma find_marked:
  assumes "find (\<lambda>r. si_idempotency_key r = key) rows = None" "si_idempotency_key r0 = key"
  shows "find (\<lambda>r. si_idempotency_key r = key)
      (map (\<lambda>r. if si_id r = si_id r0 then succeeded now r else r) (rows @ [r0])) = Some (succeeded now r0)"
  using assms by (induction rows) (auto simp: succeeded_def split: if_splits)

lemma transaction_recorded:
  assumes "import_transaction imp put m sha files notices db s = (Inr ((r, mark), db'), s')"
  shows "find_import db' (derive_idempotency_key imp (mf_bundle_id m) notices sha) = Some r \<and> si_status r = ''success''"
proof (cases rule: import_transaction_cases [OF assms, case_names reused imported])
  case reused
  then show ?thesis by simp
next
  case (imported b db1 r0 db2 db3 metrics)
  note c = create_import_spec [OF imported(2)]
  have "import_rows db3 = import_rows db1 @ [r0]"
    using import_notices_rows [OF imported(3)] c(2) by simp
  then show ?thesis
    using find_marked [of "si_idempotency_key r0" "import_rows db1" r0] c(1,3) imported(4,6)
    by (simp add: find_import_def mark_import_success_def succeeded_def)
qed

text \<open>C18: Importing the same bundle again after a successful import returns the recorded import, marked as
  reused, and changes neither the tables nor the store.\<close>

theorem import_idempotent:
  assumes "import_bundle imp limits put parse sizes staged db s = (Inr (r, mark), db', s')"
  shows "import_bundle imp limits put parse sizes staged db' s'' = (Inr (r, ''reused''), db', s'')"
proof -
  obtain dir m notices where b: "staged = Some dir" "check_sizes limits 0 0 sizes = Inr ()"
    "ins_manifest (inspect_bundle (im_env imp) (im_links imp) dir) = Some m"
    "ins_errors (inspect_bundle (im_env imp) (im_links imp) dir) = []" "parse dir = Inr notices"
    "import_transaction imp put m (ins_manifest_sha256 (inspect_bundle (im_env imp) (im_links imp) dir))
       (length (ins_actual_hashes (inspect_bundle (im_env imp) (im_links imp) dir))) notices db s = (Inr ((r, mark), db'), s')"
    using import_bundle_Inr [OF assms] by blast
  from transaction_recorded [OF b(6)] show ?thesis
    using b(1-5) by (simp add: import_bundle_def import_transaction_def)
qed

section \<open>A small import\<close>

lemma hex_digit_chars: "n < 16 \<Longrightarrow> hex_char (hex_digit n)"
  by (auto simp: hex_char_def hex_digit_def)

lemma byte_nibble: "unat (b :: byte) div 16 < 16"
proof -
  have "unat b < 2 ^ LENGTH(8)" by (rule unsigned_less)
  then show ?thesis by simp
qed

lemma hash_bytes_match: "sha256_match (hash_bytes d)"
proof -
  have "list_all hex_char (hexdigest bs)" for bs
    by (induction bs) (auto simp: hexdigest_def list_all_iff byte_nibble intro!: hex_digit_chars)
  moreover have "length (hexdigest bs) = 2 * length bs" for bs
    by (induction bs) (auto simp: hexdigest_def)
  ultimately show ?thesis by (simp add: sha256_match_def hash_bytes_def)
qed

definition demo_manifest :: SnapshotManifest where
  "demo_manifest = \<lparr>mf_schema_version = 1, mf_bundle_id = u ''demo-b'', mf_source = SourceName.SYNTHETIC_DEMO,
     mf_capture_kind = CaptureKind.SYNTHETIC_DEMO,
     mf_source_urls = [\<lparr>hu_text = u ''https://example.invalid/'', hu_scheme = u ''https'', hu_host = Some (u ''example.invalid''),
       hu_port = Some 443, hu_username = None, hu_password = None, hu_query = None, hu_fragment = None\<rparr>],
     mf_retrieved_at = \<lparr>dt_year = 2026, dt_month = 7, dt_day = 1, dt_hour = 0, dt_minute = 0, dt_second = 0, dt_micro = 0,
       dt_offset = Some 0\<rparr>,
     mf_retrieval_outcome = u ''ok'', mf_parser_version = u ''p'', mf_files = [(u ''n'', hash_bytes [1])],
     mf_batch_id = None, mf_data_contract = None, mf_acquisition_metadata = None\<rparr>"

definition demo_directory :: directory where
  "demo_directory = [([u ''manifest.json''], File (Some [0])), ([u ''n''], File (Some [1]))]"

definition demo_raw :: jobject where
  "demo_raw = [(u ''source_urls'', JArray [JString (u ''https://example.invalid/'')])]"

definition demo_import :: import_env where
  "demo_import = \<lparr>im_env = \<lparr>be_tab = \<lparr>nfkc = (\<lambda>s. s), lower = ascii_lower, netloc_ok = (\<lambda>n. True)\<rparr>, be_casefold = ascii_lower,
       be_repr = (\<lambda>s. s), be_decode = (\<lambda>_. Some (JObject demo_raw)), be_coerce = (\<lambda>_. Inr demo_manifest)\<rparr>,
     im_links = (\<lambda>_. None), canonical_json = nn_external_id, manifest_json = (\<lambda>m. JString (mf_bundle_id m)),
     key_text = (\<lambda>k. replicate k 97), key_number = (\<lambda>k. k), clock_now = (\<lambda>_. mf_retrieved_at demo_manifest), transaction_time = 0\<rparr>"

definition demo_notice :: NormalizedNotice where
  "demo_notice = \<lparr>nn_source = SourceName.SYNTHETIC_DEMO, nn_external_id = u ''demo-1'', nn_source_url = hd (mf_source_urls demo_manifest),
     nn_capture_kind = CaptureKind.SYNTHETIC_DEMO, nn_title = Some (u ''t''), nn_purchaser = None, nn_region = None,
     nn_publish_time = None, nn_deadline = None, nn_budget = None, nn_summary = None, nn_cancellation = False,
     nn_parser_version = u ''p'', nn_raw_fields = []\<rparr>"

definition no_tables :: ImportDb where
  "no_tables = \<lparr>notice_tables = \<lparr>source_notices = [], notice_versions = [], evidence_rows = []\<rparr>, canonical_notices = [],
     bundle_rows = [], import_rows = [], drawn = 0\<rparr>"

definition demo_limits :: SnapshotImportLimits where
  "demo_limits = \<lparr>max_files = 10, max_file_bytes = 10, max_total_bytes = 10\<rparr>"

lemma demo_manifest_valid: "validate_manifest (im_env demo_import) demo_raw = Inr demo_manifest"
proof -
  have "manifest_field_issues (im_env demo_import)
      (case map_of demo_raw (u ''source_urls'') of None \<Rightarrow> JNull | Some v \<Rightarrow> v) demo_manifest = []"
    by (simp add: manifest_field_issues_def demo_import_def demo_raw_def demo_manifest_def field_issues_def url_issues_def
        check_raw_urls_def urlsplit_def split_scheme_def split_netloc_def ascii_alpha_def scheme_char_def ascii_lower_def
        hash_bytes_match dt_aware_def)
  moreover have "check_provenance (im_env demo_import) demo_manifest (mf_source_urls demo_manifest) = None"
    by (simp add: demo_manifest_def raise_invalid_def validate_provenance_def provenance_errors_synthetic_def
        SYNTHETIC_HOST_def synthetic_id_prefix_def)
  ultimately show ?thesis
    by (simp add: validate_manifest_Inr check_authorized_contract_def) (simp add: demo_import_def demo_manifest_def)
qed

lemma demo_inspected:
  "inspect_bundle (im_env demo_import) (im_links demo_import) demo_directory =
     \<lparr>ins_bundle_id = Some (u ''demo-b''), ins_errors = [], ins_actual_hashes = [(u ''n'', hash_bytes [1])],
      ins_manifest_sha256 = Some (hash_bytes [0]), ins_manifest = Some demo_manifest\<rparr>"
proof -
  have dec: "be_decode (im_env demo_import) d = Some (JObject demo_raw)" for d by (simp add: demo_import_def)
  have files: "inspect_files (im_links demo_import) demo_directory (mf_files demo_manifest) = ([], [(u ''n'', hash_bytes [1])])"
    by (simp add: inspect_files_def inspect_declared_def unexpected_files_def payload_files_def safe_relative_def
        contains_symlink_def path_parts_def demo_manifest_def demo_directory_def regular_def Let_def)
  have "mf_bundle_id demo_manifest = u ''demo-b''" by (simp add: demo_manifest_def)
  then show ?thesis
    using files demo_manifest_valid dec
    by (simp add: inspect_bundle_def inspect_manifest_def Let_def demo_directory_def [of])
qed

definition keep_all :: "pystr \<Rightarrow> bytes \<Rightarrow> unit \<Rightarrow> (store_error + unit) \<times> unit" where
  "keep_all k d s = (Inr (), s)"

lemma demo_imported:
  "\<exists>r db. import_bundle demo_import demo_limits keep_all (\<lambda>_. Inr [demo_notice]) [1, 1] (Some demo_directory) no_tables () =
     (Inr (r, ''new''), db, ()) \<and> length (notice_versions (notice_tables db)) = 1"
  by (simp add: import_bundle_def demo_inspected import_transaction_def import_new_def find_import_def no_tables_def
      find_bundle_by_external_id_def get_or_create_bundle_def create_import_def keep_all_def import_notice_def
      get_or_create_source_notice_def find_source_notice_def find_version_by_hash_def create_version_def
      create_evidence_tables mark_import_success_def Let_def demo_limits_def)

lemma demo_keys: "inj (key_text demo_import)"
  by (rule injI) (simp add: demo_import_def replicate_eq_replicate)

lemma no_tables_inv: "import_inv imp no_tables"
  by (simp add: import_inv_def no_tables_def)

theorem import_keeps_versions_faithful_witness:
  "\<exists>r db. import_bundle demo_import demo_limits keep_all (\<lambda>_. Inr [demo_notice]) [1, 1] (Some demo_directory) no_tables () =
     (Inr (r, ''new''), db, ()) \<and> import_inv demo_import db \<and> length (notice_versions (notice_tables db)) = 1"
proof -
  obtain r db where i: "import_bundle demo_import demo_limits keep_all (\<lambda>_. Inr [demo_notice]) [1, 1] (Some demo_directory) no_tables () =
      (Inr (r, ''new''), db, ())" and v: "length (notice_versions (notice_tables db)) = 1"
    using demo_imported by blast
  from import_keeps_versions_faithful [OF demo_keys no_tables_inv i] i v show ?thesis by blast
qed

theorem import_idempotent_witness:
  "\<exists>r db. import_bundle demo_import demo_limits keep_all (\<lambda>_. Inr [demo_notice]) [1, 1] (Some demo_directory) db () =
     (Inr (r, ''reused''), db, ()) \<and> length (notice_versions (notice_tables db)) = 1"
proof -
  obtain r db where i: "import_bundle demo_import demo_limits keep_all (\<lambda>_. Inr [demo_notice]) [1, 1] (Some demo_directory) no_tables () =
      (Inr (r, ''new''), db, ())" and v: "length (notice_versions (notice_tables db)) = 1"
    using demo_imported by blast
  from import_idempotent [OF i] i v show ?thesis by blast
qed

theorem stored_payloads_intact_witness:
  "\<exists>r db s. import_bundle demo_import demo_limits local_put (\<lambda>_. Inr [demo_notice]) [1, 1] (Some demo_directory) no_tables
       \<lparr>fs_files = [], fs_dirs = []\<rparr> = (r, db, s) \<and> payloads_intact local_get (notice_tables db) s"
proof -
  obtain r db s where i: "import_bundle demo_import demo_limits local_put (\<lambda>_. Inr [demo_notice]) [1, 1] (Some demo_directory)
      no_tables \<lparr>fs_files = [], fs_dirs = []\<rparr> = (r, db, s)"
    by (metis surj_pair)
  have "payloads_intact local_get (notice_tables no_tables) \<lparr>fs_files = [], fs_dirs = []\<rparr>"
    by (simp add: payloads_intact_def no_tables_def)
  from stored_payloads_intact [OF this i] i show ?thesis by blast
qed

end
