(* ===== verification/Delivery.thy ===== *)
theory Delivery
  imports Graph_Nodes Notice_Tables Objects "HOL-Library.Product_Lexorder"
begin

text \<open>
  Persisted reports (\<open>delivery/reports.py\<close>) and their DOCX export (\<open>delivery/docx.py\<close>): the report
  tables, the transaction that writes one report, the projection that reads it back, and the
  idempotent attachment of a rendered document.  Primary keys are the numeric values of the UUIDs;
  \<open>fresh k\<close> is the key the database draws at its \<open>k\<close>-th insertion.  \<open>jsonb\<close> and \<open>timestamptz\<close> are
  what PostgreSQL keeps of a dictionary (its entries, in an order of its own) and of a timestamp.
\<close>

section \<open>Tables\<close>

record ReportRow =
  rr_id :: nat
  rr_run_id :: pystr
  rr_export_key :: pystr
  rr_conditions :: "(pystr \<times> pystr) list"
  rr_freshness_window :: "pystr option"
  rr_source_availability :: "pystr list"
  rr_completeness_warning :: "pystr option"
  rr_generated_at :: datetime
  rr_docx_object_key :: "pystr option"

record ReportItemRow =
  ir_id :: nat
  ir_report_id :: nat
  ir_rank :: nat
  ir_notice_version_id :: pystr
  ir_title :: pystr
  ir_known_fields :: "(pystr \<times> pystr) list"
  ir_unknown_fields :: "pystr list"
  ir_relevance_reason :: "pystr option"
  ir_risk_note :: "pystr option"

record ReportCitationRow =
  cr_id :: nat
  cr_report_item_id :: nat
  cr_ordinal :: nat
  cr_evidence_id :: nat
  cr_label :: "pystr option"
  cr_span_start :: int
  cr_span_end :: int

record ReportClaimRow =
  cl_id :: nat
  cl_report_item_id :: nat
  cl_ordinal :: nat
  cl_text :: pystr
  cl_support_status :: "ClaimSupportStatus option"

record ReportClaimVerificationRow =
  cv_id :: nat
  cv_report_claim_id :: nat
  cv_report_id :: nat
  cv_verdict :: ClaimSupportVerification

record ReportClaimCitationRow =
  cc_id :: nat
  cc_report_claim_id :: nat
  cc_ordinal :: nat
  cc_evidence_id :: nat
  cc_label :: "pystr option"

record ReportDb =
  report_rows :: "ReportRow list"
  item_rows :: "ReportItemRow list"
  citation_rows :: "ReportCitationRow list"
  claim_rows :: "ReportClaimRow list"
  verification_rows :: "ReportClaimVerificationRow list"
  claim_citation_rows :: "ReportClaimCitationRow list"
  issued :: nat

record storage =
  jsonb :: "(pystr \<times> pystr) list \<Rightarrow> (pystr \<times> pystr) list"
  timestamptz :: "datetime \<Rightarrow> datetime"
  fresh :: "nat \<Rightarrow> nat"

text \<open>\<open>str(uuid.UUID(int=n))\<close>.\<close>

definition uuid_text :: "nat \<Rightarrow> pystr" where
  "uuid_text n =
     (let d = map (\<lambda>i. hex_digit (n div 16 ^ i mod 16)) (rev [0..<32])
      in py_join (u ''-'') [take 8 d, take 4 (drop 8 d), take 4 (drop 12 d), take 4 (drop 16 d), drop 20 d])"

datatype delivery_error =
    Not_bound_to_notice | Evidence_not_persisted | Integrity_error
  | Report_not_persisted | Docx_storage_failed | Report_disappeared

section \<open>Writing a report\<close>

text \<open>\<open>_index_verifications\<close>: a later verdict for the same claim replaces an earlier one.\<close>

definition index_verifications ::
  "ClaimVerification list \<Rightarrow> (pystr \<times> (nat \<times> ClaimVerification) list) list" where
  "index_verifications entries =
     fold (\<lambda>e by_item.
       dict_set (cvf_notice_id e)
         (dict_set (cvf_claim_index e) e (case map_of by_item (cvf_notice_id e) of None \<Rightarrow> [] | Some d \<Rightarrow> d)) by_item)
       entries []"

text \<open>\<open>_resolve_evidence\<close>: bound in the run state to this notice version, and stored.\<close>

definition resolve_evidence ::
  "NoticeTables \<Rightarrow> evidence_index \<Rightarrow> pystr \<Rightarrow> pystr \<Rightarrow> delivery_error + EvidenceRow" where
  "resolve_evidence nt idx notice h =
     (case map_of idx h of
        None \<Rightarrow> Inl Not_bound_to_notice
      | Some b \<Rightarrow>
          (case span_of_version notice b of
             None \<Rightarrow> Inl Not_bound_to_notice
           | Some _ \<Rightarrow>
               (case sort_key evr_id (filter (\<lambda>e. evr_notice_version_id e = notice \<and> evr_span_hash e = h) (evidence_rows nt)) of
                  [] \<Rightarrow> Inl Evidence_not_persisted
                | e # _ \<Rightarrow> Inr e)))"

text \<open>\<open>_persist_item_citations\<close>.\<close>

fun persist_item_citations ::
  "storage \<Rightarrow> NoticeTables \<Rightarrow> evidence_index \<Rightarrow> nat \<Rightarrow> pystr \<Rightarrow> nat \<Rightarrow> ReportCitation list \<Rightarrow> (pystr \<times> nat) list \<Rightarrow>
     ReportDb \<Rightarrow> delivery_error + (pystr \<times> nat) list \<times> ReportDb" where
  "persist_item_citations stg nt idx item_id notice ordinal [] ids db = Inr (ids, db)"
| "persist_item_citations stg nt idx item_id notice ordinal (c # cs) ids db =
     bind_res (resolve_evidence nt idx notice (cit_evidence_id c)) (\<lambda>e.
       persist_item_citations stg nt idx item_id notice (Suc ordinal) cs (dict_set (cit_evidence_id c) (evr_id e) ids)
         (db\<lparr>citation_rows := citation_rows db @ [\<lparr>cr_id = fresh stg (issued db), cr_report_item_id = item_id,
               cr_ordinal = ordinal, cr_evidence_id = evr_id e, cr_label = cit_label c,
               cr_span_start = evr_start e, cr_span_end = evr_end e\<rparr>],
             issued := Suc (issued db)\<rparr>))"

text \<open>\<open>_citation_label\<close>.\<close>

definition citation_label :: "ReportItem \<Rightarrow> pystr \<Rightarrow> pystr option" where
  "citation_label item h =
     (case find (\<lambda>c. cit_evidence_id c = h) (item_citations item) of None \<Rightarrow> None | Some c \<Rightarrow> cit_label c)"

text \<open>The citations of one claim; a pair of claim and evidence is stored once (a unique constraint).\<close>

fun persist_claim_citations ::
  "storage \<Rightarrow> NoticeTables \<Rightarrow> evidence_index \<Rightarrow> ReportItem \<Rightarrow> nat \<Rightarrow> pystr list \<Rightarrow> pystr list \<Rightarrow> nat \<Rightarrow> (pystr \<times> nat) list \<Rightarrow>
     ReportDb \<Rightarrow> delivery_error + (pystr \<times> nat) list \<times> ReportDb" where
  "persist_claim_citations stg nt idx item claim_id seen [] ordinal ids db = Inr (ids, db)"
| "persist_claim_citations stg nt idx item claim_id seen (h # hs) ordinal ids db =
     (if h \<in> set seen then persist_claim_citations stg nt idx item claim_id seen hs ordinal ids db
      else bind_res
        (case map_of ids h of
           Some eid \<Rightarrow> Inr (eid, ids)
         | None \<Rightarrow> bind_res (resolve_evidence nt idx (item_notice_id item) h)
                     (\<lambda>e. Inr (evr_id e, dict_set h (evr_id e) ids)))
        (\<lambda>(eid, ids).
          if list_ex (\<lambda>r. cc_report_claim_id r = claim_id \<and> cc_evidence_id r = eid) (claim_citation_rows db)
          then Inl Integrity_error
          else persist_claim_citations stg nt idx item claim_id (h # seen) hs (Suc ordinal) ids
            (db\<lparr>claim_citation_rows := claim_citation_rows db @ [\<lparr>cc_id = fresh stg (issued db),
                  cc_report_claim_id = claim_id, cc_ordinal = ordinal, cc_evidence_id = eid,
                  cc_label = citation_label item h\<rparr>],
                issued := Suc (issued db)\<rparr>)))"

text \<open>\<open>_persist_claims\<close>: a verdict's status takes precedence over the status of the claim.\<close>

definition stored_status :: "ClaimVerification option \<Rightarrow> ReportClaim \<Rightarrow> ClaimSupportStatus option" where
  "stored_status verification claim =
     (case verification of Some v \<Rightarrow> Some (vf_status (cvf_verification v)) | None \<Rightarrow> support_status claim)"

fun persist_claims ::
  "storage \<Rightarrow> NoticeTables \<Rightarrow> evidence_index \<Rightarrow> nat \<Rightarrow> nat \<Rightarrow> ReportItem \<Rightarrow> (nat \<times> ClaimVerification) list \<Rightarrow> nat \<Rightarrow>
     ReportClaim list \<Rightarrow> (pystr \<times> nat) list \<Rightarrow> ReportDb \<Rightarrow> delivery_error + ReportDb" where
  "persist_claims stg nt idx report_id item_id item verifications ordinal [] ids db = Inr db"
| "persist_claims stg nt idx report_id item_id item verifications ordinal (c # cs) ids db =
     (let claim_id = fresh stg (issued db);
          verification = map_of verifications ordinal;
          db1 = db\<lparr>claim_rows := claim_rows db @ [\<lparr>cl_id = claim_id, cl_report_item_id = item_id, cl_ordinal = ordinal,
                  cl_text = claim_text c, cl_support_status = stored_status verification c\<rparr>],
                issued := Suc (issued db)\<rparr>;
          db2 = (case verification of
                   None \<Rightarrow> db1
                 | Some v \<Rightarrow> db1\<lparr>verification_rows := verification_rows db1 @ [\<lparr>cv_id = fresh stg (issued db1),
                       cv_report_claim_id = claim_id, cv_report_id = report_id, cv_verdict = cvf_verification v\<rparr>],
                     issued := Suc (issued db1)\<rparr>)
      in bind_res (persist_claim_citations stg nt idx item claim_id [] (citation_ids c) 0 ids db2)
           (\<lambda>(ids, db3). persist_claims stg nt idx report_id item_id item verifications (Suc ordinal) cs ids db3))"

text \<open>One item: its row (the notice version must exist), its citations, its claims.\<close>

definition persist_item ::
  "storage \<Rightarrow> NoticeTables \<Rightarrow> evidence_index \<Rightarrow> (pystr \<times> (nat \<times> ClaimVerification) list) list \<Rightarrow> nat \<Rightarrow> nat \<Rightarrow> ReportItem \<Rightarrow>
     ReportDb \<Rightarrow> delivery_error + ReportDb" where
  "persist_item stg nt idx by_item report_id rank item db =
     (let item_id = fresh stg (issued db);
          db1 = db\<lparr>item_rows := item_rows db @ [\<lparr>ir_id = item_id, ir_report_id = report_id, ir_rank = rank,
                  ir_notice_version_id = item_notice_id item, ir_title = item_title item,
                  ir_known_fields = jsonb stg (known_fields item), ir_unknown_fields = unknown_fields item,
                  ir_relevance_reason = relevance_reason item, ir_risk_note = risk_note item\<rparr>],
                issued := Suc (issued db)\<rparr>
      in if \<not> list_ex (\<lambda>v. ver_id v = item_notice_id item) (notice_versions nt) then Inl Integrity_error
         else bind_res (persist_item_citations stg nt idx item_id (item_notice_id item) 0 (item_citations item) [] db1)
           (\<lambda>(ids, db2). persist_claims stg nt idx report_id item_id item
              (case map_of by_item (item_notice_id item) of None \<Rightarrow> [] | Some d \<Rightarrow> d) 0 (item_claims item) ids db2))"

fun persist_items ::
  "storage \<Rightarrow> NoticeTables \<Rightarrow> evidence_index \<Rightarrow> (pystr \<times> (nat \<times> ClaimVerification) list) list \<Rightarrow> nat \<Rightarrow> nat \<Rightarrow>
     ReportItem list \<Rightarrow> ReportDb \<Rightarrow> delivery_error + ReportDb" where
  "persist_items stg nt idx by_item report_id rank [] db = Inr db"
| "persist_items stg nt idx by_item report_id rank (i # is) db =
     bind_res (persist_item stg nt idx by_item report_id rank i db)
       (persist_items stg nt idx by_item report_id (Suc rank) is)"

definition find_report_row :: "ReportDb \<Rightarrow> pystr \<Rightarrow> ReportRow option" where
  "find_report_row db run = find (\<lambda>r. rr_run_id r = run) (report_rows db)"

text \<open>The body of the transaction; \<open>runs\<close> are the ids of the existing runs.\<close>

definition insert_report ::
  "storage \<Rightarrow> NoticeTables \<Rightarrow> pystr list \<Rightarrow> evidence_index \<Rightarrow> ClaimVerification list \<Rightarrow> Report \<Rightarrow> ReportDb \<Rightarrow>
     delivery_error + nat \<times> ReportDb" where
  "insert_report stg nt runs idx verifications rep db =
     (let report_id = fresh stg (issued db);
          row = \<lparr>rr_id = report_id, rr_run_id = rep_run_id rep, rr_export_key = u ''online:'' @ rep_run_id rep,
                 rr_conditions = jsonb stg (query_conditions rep), rr_freshness_window = freshness_window rep,
                 rr_source_availability = source_availability rep, rr_completeness_warning = completeness_warning rep,
                 rr_generated_at = timestamptz stg (generated_at rep), rr_docx_object_key = None\<rparr>
      in if rep_run_id rep \<notin> set runs \<or> find_report_row db (rep_run_id rep) \<noteq> None then Inl Integrity_error
         else bind_res (persist_items stg nt idx (index_verifications verifications) report_id 0 (rep_items rep)
                (db\<lparr>report_rows := report_rows db @ [row], issued := Suc (issued db)\<rparr>))
              (\<lambda>db'. Inr (report_id, db')))"

section \<open>Reading a report (\<open>_project\<close>)\<close>

text \<open>The inner join on the evidence table.\<close>

definition span_hashes_of :: "NoticeTables \<Rightarrow> nat \<Rightarrow> pystr list" where
  "span_hashes_of nt eid = map evr_span_hash (filter (\<lambda>e. evr_id e = eid) (evidence_rows nt))"

definition joined_citations :: "NoticeTables \<Rightarrow> nat list \<Rightarrow> ReportDb \<Rightarrow> (ReportCitationRow \<times> pystr) list" where
  "joined_citations nt item_ids db =
     sort_key (\<lambda>(c, h). (cr_report_item_id c, cr_ordinal c, cr_id c))
       (concat (map (\<lambda>c. map (Pair c) (span_hashes_of nt (cr_evidence_id c)))
         (filter (\<lambda>c. cr_report_item_id c \<in> set item_ids) (citation_rows db))))"

definition citations_of_item :: "(ReportCitationRow \<times> pystr) list \<Rightarrow> nat \<Rightarrow> ReportCitation list" where
  "citations_of_item rows item_id =
     map (\<lambda>(c, h). \<lparr>cit_evidence_id = h, cit_label = cr_label c\<rparr>)
       (filter (\<lambda>(c, h). cr_report_item_id c = item_id) rows)"

definition sorted_claims :: "nat list \<Rightarrow> ReportDb \<Rightarrow> ReportClaimRow list" where
  "sorted_claims item_ids db =
     sort_key (\<lambda>c. (cl_report_item_id c, cl_ordinal c, cl_id c))
       (filter (\<lambda>c. cl_report_item_id c \<in> set item_ids) (claim_rows db))"

definition joined_claim_citations :: "NoticeTables \<Rightarrow> nat list \<Rightarrow> ReportDb \<Rightarrow> (ReportClaimCitationRow \<times> pystr) list" where
  "joined_claim_citations nt claim_ids db =
     sort_key (\<lambda>(c, h). (cc_report_claim_id c, cc_ordinal c, cc_id c))
       (concat (map (\<lambda>c. map (Pair c) (span_hashes_of nt (cc_evidence_id c)))
         (filter (\<lambda>c. cc_report_claim_id c \<in> set claim_ids) (claim_citation_rows db))))"

definition citation_ids_of_claim :: "(ReportClaimCitationRow \<times> pystr) list \<Rightarrow> nat \<Rightarrow> pystr list" where
  "citation_ids_of_claim rows claim_id = map snd (filter (\<lambda>(c, h). cc_report_claim_id c = claim_id) rows)"

text \<open>A claim without a citation left is dropped.\<close>

definition claims_of_item ::
  "ReportClaimRow list \<Rightarrow> (ReportClaimCitationRow \<times> pystr) list \<Rightarrow> nat \<Rightarrow> ReportClaim list" where
  "claims_of_item claims citations item_id =
     map (\<lambda>c. \<lparr>claim_text = cl_text c, citation_ids = citation_ids_of_claim citations (cl_id c),
                support_status = cl_support_status c\<rparr>)
       (filter (\<lambda>c. citation_ids_of_claim citations (cl_id c) \<noteq> [] \<and> cl_report_item_id c = item_id) claims)"

definition project_report :: "NoticeTables \<Rightarrow> ReportDb \<Rightarrow> ReportRow \<Rightarrow> PersistedReport" where
  "project_report nt db row =
     (let items = sort_key (\<lambda>i. (ir_rank i, ir_id i)) (filter (\<lambda>i. ir_report_id i = rr_id row) (item_rows db));
          item_ids = map ir_id items;
          citations = joined_citations nt item_ids db;
          claims = sorted_claims item_ids db;
          claim_citations = joined_claim_citations nt (map cl_id claims) db;
          domain_items = map (\<lambda>i. \<lparr>item_notice_id = ir_notice_version_id i, item_title = ir_title i,
            known_fields = ir_known_fields i, unknown_fields = ir_unknown_fields i,
            relevance_reason = ir_relevance_reason i, risk_note = ir_risk_note i,
            item_citations = citations_of_item citations (ir_id i),
            item_claims = claims_of_item claims claim_citations (ir_id i)\<rparr>) items
      in \<lparr>pr_id = uuid_text (rr_id row),
          pr_report = \<lparr>rep_run_id = rr_run_id row, generated_at = rr_generated_at row,
            query_conditions = rr_conditions row, freshness_window = rr_freshness_window row,
            source_availability = rr_source_availability row,
            completeness_warning = rr_completeness_warning row, rep_items = domain_items\<rparr>,
          pr_docx_object_key = rr_docx_object_key row\<rparr>)"

definition load_online_report :: "NoticeTables \<Rightarrow> ReportDb \<Rightarrow> pystr \<Rightarrow> PersistedReport option" where
  "load_online_report nt db run = map_option (project_report nt db) (find_report_row db run)"

text \<open>
  \<open>persist_online_report\<close>.  \<open>others\<close> is what other sessions commit between the look-up and the
  insertion; a transaction that raises leaves nothing of its own.
\<close>

definition persist_online ::
  "storage \<Rightarrow> NoticeTables \<Rightarrow> pystr list \<Rightarrow> (ReportDb \<Rightarrow> ReportDb) \<Rightarrow> evidence_index \<Rightarrow> ClaimVerification list \<Rightarrow> Report \<Rightarrow>
     ReportDb \<Rightarrow> (delivery_error + PersistedReport) \<times> ReportDb" where
  "persist_online stg nt runs others idx verifications rep db =
     (case find_report_row db (rep_run_id rep) of
        Some row \<Rightarrow> (Inr (project_report nt db row), db)
      | None \<Rightarrow>
          (let db1 = others db
           in case insert_report stg nt runs idx verifications rep db1 of
                Inr (report_id, db2) \<Rightarrow>
                  (Inr \<lparr>pr_id = uuid_text report_id, pr_report = rep, pr_docx_object_key = None\<rparr>, db2)
              | Inl Integrity_error \<Rightarrow>
                  (case find_report_row db1 (rep_run_id rep) of
                     None \<Rightarrow> (Inl Integrity_error, db1)
                   | Some row \<Rightarrow> (Inr (project_report nt db1 row), db1))
              | Inl e \<Rightarrow> (Inl e, db1)))"

section \<open>The rendered document (docx.py)\<close>

definition RENDERER_VERSION :: pystr where "RENDERER_VERSION = u ''docx-v1''"

definition export_key :: "pystr \<Rightarrow> pystr" where
  "export_key report_id = RENDERER_VERSION @ u '':'' @ report_id"

definition key_char :: "nat \<Rightarrow> bool" where
  "key_char c \<longleftrightarrow> (65 \<le> c \<and> c \<le> 90) \<or> (97 \<le> c \<and> c \<le> 122) \<or> (48 \<le> c \<and> c \<le> 57) \<or> c = 46 \<or> c = 95 \<or> c = 45"

definition sanitize_filename :: "pystr \<Rightarrow> pystr" where
  "sanitize_filename name =
     (let sanitized = map (\<lambda>c. if key_char c then c else 95) name;
          stripped = rev (dropWhile (\<lambda>c. c = 46) (rev (dropWhile (\<lambda>c. c = 46) sanitized)))
      in if stripped = [] then u ''report'' else stripped)"

definition object_key :: "pystr \<Rightarrow> pystr" where
  "object_key report_id =
     (let safe = sanitize_filename report_id
      in u ''reports/'' @ safe @ u ''/'' @ RENDERER_VERSION @ u ''/bidscope-'' @ safe @ u ''.docx'')"

text \<open>The calls made on the document, in order; the third-party library turns them into bytes.\<close>

datatype docx_block =
    Heading pystr nat
  | Paragraph pystr
  | Table "(pystr \<times> pystr) list"

definition field_table :: "(pystr \<times> pystr) list \<Rightarrow> docx_block" where
  "field_table d = Table ((u ''Field'', u ''Value'') # d)"

definition nonempty :: "pystr option \<Rightarrow> pystr option" where
  "nonempty s = (case s of Some t \<Rightarrow> if t = [] then None else Some t | None \<Rightarrow> None)"

text \<open>The Chinese label of the unknown fields.\<close>

definition UNKNOWN_FIELDS :: pystr where
  "UNKNOWN_FIELDS = [26410, 30693, 23383, 27573] @ u '' (unknown fields): ''"

definition render_item :: "nat \<Rightarrow> ReportItem \<Rightarrow> docx_block list" where
  "render_item n item =
     [Heading (show_nat n @ u ''. '' @ item_title item) 2] @
     (if known_fields item \<noteq> [] then [Paragraph (u ''Known fields:''), field_table (known_fields item)] else []) @
     (if unknown_fields item \<noteq> [] then [Paragraph (UNKNOWN_FIELDS @ py_join (u '', '') (unknown_fields item))] else []) @
     (case nonempty (relevance_reason item) of None \<Rightarrow> [] | Some r \<Rightarrow> [Paragraph (u ''Relevance: '' @ r)]) @
     (case nonempty (risk_note item) of None \<Rightarrow> [] | Some r \<Rightarrow> [Paragraph (u ''Risk: '' @ r)]) @
     (if item_citations item \<noteq> []
      then Paragraph (u ''Evidence:'') #
        map (\<lambda>(k, c). Paragraph (u ''  ['' @ show_nat k @ u ''] '' @
               (case nonempty (cit_label c) of Some l \<Rightarrow> l | None \<Rightarrow> cit_evidence_id c)))
          (enumerate 1 (item_citations item))
      else []) @
     (if item_claims item \<noteq> []
      then Paragraph (u ''Claims:'') # map (\<lambda>c. Paragraph (u ''  - '' @ claim_text c)) (item_claims item)
      else [])"

definition render_report :: "Report \<Rightarrow> docx_block list" where
  "render_report rep =
     [Heading (u ''BidScope Report'') 0, Paragraph (u ''Generated at: '' @ isoformat (generated_at rep))] @
     (case nonempty (freshness_window rep) of None \<Rightarrow> [] | Some f \<Rightarrow> [Paragraph (u ''Freshness window: '' @ f)]) @
     [Heading (u ''Query Conditions'') 1, field_table (query_conditions rep)] @
     (if source_availability rep \<noteq> [] then Heading (u ''Source Availability'') 1 # map Paragraph (source_availability rep)
      else []) @
     (case nonempty (completeness_warning rep) of
        None \<Rightarrow> [] | Some w \<Rightarrow> [Heading (u ''Completeness Warning'') 1, Paragraph w]) @
     [Heading (u ''Opportunities'') 1] @
     concat (map (\<lambda>(n, item). render_item n item) (enumerate 1 (rep_items rep))) @
     [Heading (u ''Appendix'') 1, Paragraph (u ''Renderer version: '' @ RENDERER_VERSION),
      Paragraph (u ''Report run ID: '' @ rep_run_id rep),
      Paragraph (u ''This document was generated automatically and reflects the evidence available at generation time.'')]"

section \<open>The attachment (\<open>ReportDelivery.export_report\<close>)\<close>

record ExportRecord =
  er_export_key :: pystr
  er_object_key :: pystr
  er_report_id :: pystr
  er_generated_at :: datetime

definition get_report_row :: "ReportDb \<Rightarrow> pystr \<Rightarrow> ReportRow option" where
  "get_report_row db pid = find (\<lambda>r. uuid_text (rr_id r) = pid) (report_rows db)"

definition attach_key :: "pystr \<Rightarrow> pystr \<Rightarrow> ReportDb \<Rightarrow> ReportDb" where
  "attach_key pid key db =
     db\<lparr>report_rows := map (\<lambda>r. if uuid_text (rr_id r) = pid \<and> rr_docx_object_key r = None
                                 then r\<lparr>rr_docx_object_key := Some key\<rparr> else r) (report_rows db)\<rparr>"

definition export_record :: "ReportRow \<Rightarrow> pystr \<Rightarrow> ExportRecord" where
  "export_record row key = \<lparr>er_export_key = export_key (uuid_text (rr_id row)), er_object_key = key,
     er_report_id = uuid_text (rr_id row), er_generated_at = rr_generated_at row\<rparr>"

text \<open>
  \<open>put\<close> and \<open>ex\<close> are the store's operations, \<open>docx\<close> the third-party rendering of the blocks,
  \<open>others\<close> what other sessions commit while the document is rendered and stored.
\<close>

definition export_report ::
  "(pystr \<Rightarrow> bytes \<Rightarrow> 's \<Rightarrow> (store_error + unit) \<times> 's) \<Rightarrow> (pystr \<Rightarrow> 's \<Rightarrow> store_error + bool) \<Rightarrow>
     (docx_block list \<Rightarrow> bytes) \<Rightarrow> (ReportDb \<Rightarrow> ReportDb) \<Rightarrow> PersistedReport \<Rightarrow> ReportDb \<Rightarrow> 's \<Rightarrow>
     (delivery_error + ExportRecord) \<times> ReportDb \<times> 's" where
  "export_report put ex docx others persisted db s =
     (case get_report_row db (pr_id persisted) of
        None \<Rightarrow> (Inl Report_not_persisted, db, s)
      | Some row \<Rightarrow>
          (let attached = nonempty (rr_docx_object_key row);
               upload = (\<lambda>key.
                 case put key (docx (render_report (pr_report persisted))) s of
                   (Inl _, s1) \<Rightarrow> (Inl Docx_storage_failed, db, s1)
                 | (Inr _, s1) \<Rightarrow>
                     (let db1 = others db
                      in case get_report_row db1 (pr_id persisted) of
                           None \<Rightarrow> (Inl Report_disappeared, db1, s1)
                         | Some row1 \<Rightarrow>
                             (case rr_docx_object_key row1 of
                                None \<Rightarrow> (Inr (export_record row1 key), attach_key (pr_id persisted) key db1, s1)
                              | Some k \<Rightarrow> (Inr (export_record row1 k), db1, s1))))
           in case attached of
                None \<Rightarrow> upload (object_key (pr_id persisted))
              | Some key \<Rightarrow>
                  (case ex key s of
                     Inl _ \<Rightarrow> (Inl Docx_storage_failed, db, s)
                   | Inr True \<Rightarrow> (Inr (export_record row key), db, s)
                   | Inr False \<Rightarrow> upload key)))"

end
