(* ===== verification/Graph_Properties.thy ===== *)
theory Graph_Properties
  imports Graph
begin

text \<open>
  What the query workflow guarantees, from the invariant of runs, the measure on supersteps and
  the contracts of the model ports, with a concrete deployment on which the properties are
  evaluated.
\<close>

section \<open>Single supersteps\<close>

lemma recursion_limit_Suc: "recursion_limit = Suc (Suc (Suc (Suc (Suc (Suc (Suc (Suc (Suc (Suc (Suc (Suc (Suc (Suc (Suc (Suc 0)))))))))))))))"
  by (simp add: recursion_limit_def)

lemma invoke_next:
  "run_node deps n s = (Inr up, None) \<Longrightarrow> next_node n (apply_update s up) = Some m \<Longrightarrow> n \<noteq> Pause \<Longrightarrow>
     invoke deps (Suc k) \<lparr>run_phase = At n, run_state = s, delivered = ds\<rparr> =
     invoke deps k \<lparr>run_phase = At m, run_state = apply_update s up, delivered = ds\<rparr>"
  by (simp add: invoke_At superstep_def after_node_def Let_def del: apply_update_simps)

lemma invoke_crash:
  "run_node deps n s = (Inl e, None) \<Longrightarrow>
     invoke deps (Suc k) \<lparr>run_phase = At n, run_state = s, delivered = ds\<rparr> =
     Some \<lparr>run_phase = Crashed e, run_state = s, delivered = ds\<rparr>"
  by (simp add: invoke_At superstep_def invoke_settled settled_def)

lemma invoke_pause:
  "run_node deps Pause s = (Inr up, None) \<Longrightarrow>
     invoke deps (Suc k) \<lparr>run_phase = At Pause, run_state = s, delivered = ds\<rparr> =
     Some \<lparr>run_phase = Paused Build_retrieval_plan, run_state = apply_update s up, delivered = ds\<rparr>"
  by (simp add: invoke_At superstep_def after_node_def invoke_settled settled_def Let_def del: apply_update_simps)

lemma run_workflow_unfold:
  "run_workflow deps rid request =
     invoke deps recursion_limit \<lparr>run_phase = At Parse_intent, run_state = fresh_state rid request, delivered = []\<rparr>"
  by (simp add: run_workflow_def start_def)

lemma run_workflow_reachable:
  "\<exists>c. run_workflow deps rid request = Some c \<and> settled c \<and> reachable deps rid request c"
  using invoke_returns [OF run_rank_start] reachable_steps [OF _ reachable_start]
  unfolding run_workflow_def by blast

section \<open>Paused runs resume once\<close>







section \<open>Healthy collaborators\<close>

text \<open>
  The parsed intent is valid and needs no confirmation, no port raises, stored notices have no
  empty supporting text, and delivery raises nothing but a \<open>DeliveryError\<close> of the attachment.
\<close>

definition healthy :: "GraphDeps \<Rightarrow> pystr \<Rightarrow> SearchIntent \<Rightarrow> bool" where
  "healthy deps request i \<longleftrightarrow>
     (\<exists>usage. parse_attempts deps request 0 (MAX_MODEL_RETRIES + 1) [] = Inr (i, usage)) \<and>
     intent_errors i = [] \<and> \<not> needs_confirmation i \<and>
     (\<forall>q f. searcher deps q f \<noteq> None) \<and>
     (\<forall>ids. \<exists>views. load_notice_views deps ids = Some views \<and>
        list_all (\<lambda>(vid, view). list_all (\<lambda>t. t \<noteq> []) (nv_claim_supporting_texts view)) views \<and>
        (\<forall>st. \<exists>gs. pair_groups deps views st = Inr gs)) \<and>
     (\<forall>k o'. report_synthesize deps k o' \<noteq> None) \<and>
     (\<forall>r idx vs. \<exists>p. persist_online_report deps r idx vs = Inr p) \<and>
     (\<forall>p. export_docx deps p \<noteq> Inl Other_failure)"

lemma bind_evidence_total:
  "list_all (\<lambda>(vid, view). list_all (\<lambda>t. t \<noteq> []) (nv_claim_supporting_texts view)) views \<Longrightarrow>
     \<exists>r. bind_evidence views ids idx verified = Inr r"
proof (induction views ids idx verified rule: bind_evidence.induct)
  case (2 views vid ids idx verified)
  show ?case
  proof (cases "map_of views vid")
    case None
    with 2 show ?thesis by simp
  next
    case (Some view)
    with 2(3) have "list_all (\<lambda>t. t \<noteq> []) (nv_claim_supporting_texts view)"
      using map_of_SomeD [OF Some] by (fastforce simp: list_all_iff)
    from extract_from_joined [OF this, of 0 "[]" vid "[10]" 0] obtain spans where
      "extract_evidence vid (py_join [10] (nv_claim_supporting_texts view)) (nv_claim_supporting_texts view) = Inr spans"
      by (auto simp: extract_evidence_def)
    with 2 Some show ?thesis by simp
  qed
qed simp

lemma map_res_total: "(\<And>x. \<exists>y. f x = Inr y) \<Longrightarrow> \<exists>ys. map_res f xs = Inr ys"
proof (induction xs)
  case (Cons x xs)
  then obtain y ys where "f x = Inr y" "map_res f xs = Inr ys" by blast
  then show ?case by simp
qed simp

text \<open>The runs of healthy collaborators.\<close>

definition on_course :: "pystr \<Rightarrow> SearchIntent \<Rightarrow> Run \<Rightarrow> bool" where
  "on_course request i c \<longleftrightarrow>
     user_request (run_state c) = request \<and>
     (case run_phase c of
        At n \<Rightarrow> n \<noteq> Pause \<and> (n = Parse_intent \<or> search_intent (run_state c) = Some i)
      | Paused m \<Rightarrow> False | Ended \<Rightarrow> status (run_state c) = COMPLETED | Crashed e \<Rightarrow> False)"

lemma healthy_node:
  assumes "healthy deps request i" "node_ready n s" "user_request s = request" "n \<noteq> Pause"
    "n = Parse_intent \<or> search_intent s = Some i" "n = Validate_report \<Longrightarrow> draft_backed s"
  shows "\<exists>up d. run_node deps n s = (Inr up, d) \<and> search_intent (apply_update s up) = Some i \<and>
      (case next_node n (apply_update s up) of
         None \<Rightarrow> status (apply_update s up) = COMPLETED | Some m \<Rightarrow> m \<noteq> Pause)"
proof (cases n)
  case Parse_intent
  from assms(1) obtain usage where "parse_attempts deps request 0 (MAX_MODEL_RETRIES + 1) [] = Inr (i, usage)"
    unfolding healthy_def by blast
  with Parse_intent assms(3) show ?thesis by (simp add: node_defs del: parse_attempts.simps)
next
  case Retrieve_candidates
  with assms(2) obtain pl where pl: "retrieval_plan s = Some pl" by auto
  obtain res where "searcher deps (py_join [32] (query_terms pl)) (plan_filter pl) = Some res"
    using assms(1) unfolding healthy_def by (metis not_Some_eq)
  with Retrieve_candidates pl assms show ?thesis by (simp add: node_defs)
next
  case Resolve_duplicates
  from assms(1) obtain views where v: "load_notice_views deps (candidate_notice_ids s) = Some views"
    "\<And>st. \<exists>gs. pair_groups deps views st = Inr gs"
    unfolding healthy_def by meson
  from map_res_total [of "pair_groups deps views", OF v(2)] obtain gs where
    "map_res (pair_groups deps views) (List.product (candidate_notice_ids s) (candidate_notice_ids s)) = Inr gs"
    by blast
  with Resolve_duplicates v assms show ?thesis by (simp add: node_defs)
next
  case Verify_evidence
  from assms(1) obtain views where v: "load_notice_views deps (candidate_notice_ids s) = Some views"
    "list_all (\<lambda>(vid, view). list_all (\<lambda>t. t \<noteq> []) (nv_claim_supporting_texts view)) views"
    unfolding healthy_def by meson
  from bind_evidence_total [OF v(2)] obtain r where
    "bind_evidence views (candidate_notice_ids s) [] [] = Inr r" by blast
  with Verify_evidence v assms show ?thesis by (cases r) (simp add: node_defs)
next
  case Synthesize_report
  let ?f = "\<lambda>o'. case report_synthesize deps (retry_count s) o' of
      None \<Rightarrow> Inl Report_model_error | Some draft \<Rightarrow> Inr (draft_items draft)"
  have "report_synthesize deps (retry_count s) o' \<noteq> None" for o'
    using assms(1) unfolding healthy_def by blast
  then have "\<exists>y. ?f o' = Inr y" for o'
    by (simp split: option.split)
  from map_res_total [of ?f, OF this] obtain itemss where
    "map_res ?f (verified_opportunities s) = Inr itemss" by blast
  with Synthesize_report assms show ?thesis by (simp add: node_defs)
next
  case Persist_and_deliver
  with assms obtain dr where dr: "report s = Some dr" "search_intent s = Some i"
    by (auto simp: draft_backed_def split: option.splits)
  obtain p where "persist_online_report deps (delivered_report deps s dr i) (evidence_by_id s)
      (claim_verifications s) = Inr p"
    using assms(1) unfolding healthy_def by blast
  with Persist_and_deliver dr assms(1) show ?thesis
    by (auto simp: persist_and_deliver_def healthy_def split: sum.split port_failure.split)
qed (use assms in \<open>auto simp: healthy_def node_defs route_defs draft_backed_def Let_def
      split: option.splits if_splits\<close>)

lemma on_course_step:
  assumes h: "healthy deps request i" and acc: "accepted c" and inv: "run_inv c"
    and course: "on_course request i c" and step: "graph_step deps c c'"
  shows "on_course request i c'"
  using step
proof (cases rule: graph_step.cases)
  case (node_step n)
  let ?s = "run_state c"
  have "node_ready n ?s" "user_request ?s = request" "n \<noteq> Pause"
    "n = Parse_intent \<or> search_intent ?s = Some i" "n = Validate_report \<Longrightarrow> draft_backed ?s"
    using node_step inv course acc by (auto simp: run_inv_def on_course_def accepted_def)
  from healthy_node [OF h this] course node_step show ?thesis
    by (auto simp: on_course_def superstep_def after_node_def Let_def split: option.splits)
next
  case (resume_step m)
  with course show ?thesis by (simp add: on_course_def)
qed

lemma healthy_on_course:
  assumes "healthy deps request i" "report_synthesize deps = fake_synthesize" "reachable deps rid request c"
  shows "on_course request i c"
  using assms(3)
proof (induction rule: reachable.induct)
  case reachable_start
  then show ?case by (simp add: on_course_def start_def fresh_state_def)
next
  case (reachable_step c c')
  then show ?case
    using on_course_step [OF assms(1)] fake_report.reachable_accepted [OF assms(2)] reachable_run_inv by blast
qed

section \<open>A concrete deployment\<close>

text \<open>Collaborators for evaluation: one notice, the offline report model, stores that succeed.\<close>

definition demo_intent :: "rat \<Rightarrow> SearchIntent" where
  "demo_intent conf =
     \<lparr>topics = [u ''server''], expanded_terms = [], regions = [u ''Sichuan''], published_from = None,
      published_to = None, min_budget = None, max_budget = None, schedule = None,
      confidence = conf, assumptions = []\<rparr>"

definition demo_view :: NoticeView where
  "demo_view = \<lparr>nv_source = u ''ccgp'', nv_external_id = u ''1'', nv_canonical_url = u ''https://h/1'',
     nv_project_number = None, nv_content_hash = u ''c'', nv_title = Some (u ''T''), nv_purchaser = None,
     nv_region = None, nv_budget_minor_units = None, nv_budget_currency = None, nv_deadline = None,
     nv_procurement_scope = None, nv_cancellation = False, nv_claim_supporting_texts = [u ''budget 100'']\<rparr>"

definition demo_deps :: "rat \<Rightarrow> GraphDeps" where
  "demo_deps conf =
     \<lparr>intent_parse = (\<lambda>request attempt. if request = [] then Inl (u ''empty'') else Inr (demo_intent conf, None)),
      duplicate_classify = fake_duplicate_classify,
      report_synthesize = fake_synthesize,
      searcher = (\<lambda>query f. Some \<lparr>rr_query = query,
        rr_candidates = [\<lparr>rc_id = u ''v1'', rc_score = 1, rc_lexical_rank = Some 1, rc_vector_rank = None\<rparr>], rr_degraded_modes = [], rr_filters = f\<rparr>),
      clock_now = (\<lambda>n k. \<lparr>dt_year = 2026, dt_month = 1, dt_day = 1, dt_hour = 0, dt_minute = 0,
        dt_second = int n, dt_micro = int k, dt_offset = Some 0\<rparr>),
      load_notice_views = (\<lambda>ids. Some (map (\<lambda>i. (i, demo_view)) ids)),
      persist_online_report = (\<lambda>r idx vs. Inr \<lparr>pr_id = u ''1'', pr_report = r, pr_docx_object_key = None\<rparr>),
      export_docx = (\<lambda>p. Inr ()),
      verifier = None,
      tables = \<lparr>nfkc = id, lower = id, netloc_ok = (\<lambda>x. True)\<rparr>\<rparr>"

lemma demo_classify:
  "case classify_duplicate \<lparr>nfkc = id, lower = id, netloc_ok = (\<lambda>x. True)\<rparr> [] demo_view demo_view of
     Inl _ \<Rightarrow> False | Inr _ \<Rightarrow> True"
  by code_simp

lemma demo_view_of: "map_of (map (\<lambda>i. (i, demo_view)) ids) x = Some w \<Longrightarrow> w = demo_view"
  by (induction ids) (auto split: if_splits)

lemma demo_pair_groups: "\<exists>gs. pair_groups (demo_deps 1) (map (\<lambda>i. (i, demo_view)) ids) st = Inr gs"
  using demo_classify
  by (cases st) (auto simp: pair_groups_def demo_deps_def fake_duplicate_classify_def
    dest!: demo_view_of split: option.splits DuplicateDecision.splits sum.splits)

lemma demo_texts: "\<forall>t\<in>set (nv_claim_supporting_texts demo_view). t \<noteq> []"
  by (simp add: demo_view_def)

lemma demo_healthy: "healthy (demo_deps 1) (u ''q'') (demo_intent 1)"
proof -
  have "load_notice_views (demo_deps 1) ids = Some (map (\<lambda>i. (i, demo_view)) ids)" for ids
    by (simp add: demo_deps_def)
  note views = this demo_pair_groups
  have "\<exists>vs. load_notice_views (demo_deps 1) ids = Some vs \<and>
      list_all (\<lambda>(vid, view). list_all (\<lambda>t. t \<noteq> []) (nv_claim_supporting_texts view)) vs \<and>
      (\<forall>st. \<exists>gs. pair_groups (demo_deps 1) vs st = Inr gs)" for ids
    using views demo_texts by (auto simp: list_all_iff)
  moreover have "parse_attempts (demo_deps 1) (u ''q'') 0 (MAX_MODEL_RETRIES + 1) [] = Inr (demo_intent 1, None)"
    by (simp add: demo_deps_def)
  ultimately show ?thesis unfolding healthy_def
    by (simp add: demo_deps_def demo_intent_def intent_errors_def dates_inverted_def
      budget_inverted_def needs_confirmation_def fake_synthesize_def)
qed

lemma demo_run:
  "\<exists>c. run_workflow (demo_deps 1) rid (u ''q'') = Some c \<and> reachable (demo_deps 1) rid (u ''q'') c \<and>
     run_phase c = Ended \<and> length (delivered c) = 1"
proof -
  obtain c where c: "run_workflow (demo_deps 1) rid (u ''q'') = Some c" "settled c"
    "reachable (demo_deps 1) rid (u ''q'') c"
    using run_workflow_reachable [of "demo_deps 1" rid "u ''q''"] by blast
  have "report_synthesize (demo_deps 1) = fake_synthesize" by (simp add: demo_deps_def)
  from healthy_on_course [OF demo_healthy this c(3)] c reachable_run_inv [OF c(3)] show ?thesis
    by (auto simp: on_course_def settled_def run_inv_def split: phase.splits)
qed

section \<open>Properties\<close>




text \<open>A run that has ended either failed and persisted nothing, or completed and persisted
  exactly one report.\<close>

theorem ended_run_outcome:
  assumes "reachable deps rid request c" "run_phase c = Ended"
  shows "(status (run_state c) = FAILED \<and> delivered c = []) \<or>
         (status (run_state c) = COMPLETED \<and> length (delivered c) = 1)"
  using reachable_run_inv [OF assms(1)] assms(2) by (simp add: run_inv_def)

theorem ended_run_outcome_witness:
  "\<exists>c. reachable (demo_deps 1) (u ''w'') (u ''q'') c \<and>
     ((status (run_state c) = FAILED \<and> delivered c = []) \<or>
      (status (run_state c) = COMPLETED \<and> length (delivered c) = 1))"
  using demo_run [of "u ''w''"] ended_run_outcome [of "demo_deps 1" "u ''w''" "u ''q''"] by blast

text \<open>With collaborators that do not raise, a valid intent that needs no confirmation and
  the offline report model, the run completes and delivers one report.\<close>

theorem healthy_run_completes:
  assumes "healthy deps request i" "report_synthesize deps = fake_synthesize"
  shows "\<exists>c. run_workflow deps rid request = Some c \<and> run_phase c = Ended \<and>
     status (run_state c) = COMPLETED \<and> length (delivered c) = 1"
proof -
  obtain c where c: "run_workflow deps rid request = Some c" "settled c" "reachable deps rid request c"
    using run_workflow_reachable by blast
  from healthy_on_course [OF assms c(3)] c reachable_run_inv [OF c(3)] show ?thesis
    by (auto simp: on_course_def settled_def run_inv_def split: phase.splits)
qed

theorem healthy_run_completes_witness:
  "\<exists>c. run_workflow (demo_deps 1) (u ''r'') (u ''q'') = Some c \<and> run_phase c = Ended \<and>
     status (run_state c) = COMPLETED \<and> length (delivered c) = 1"
  by (rule healthy_run_completes [OF demo_healthy]) (simp add: demo_deps_def)

text \<open>With the offline report model, validation accepts every report it is given: no
  synthesis is retried and no report is refused for missing evidence.\<close>

theorem fake_reports_never_refused:
  assumes "reachable deps rid request c" "report_synthesize deps = fake_synthesize"
  shows "retry_count (run_state c) = 0 \<and>
     list_all (\<lambda>e. ne_event e \<noteq> ''report_invalid_retry'' \<and> ne_event e \<noteq> ''evidence_insufficient'')
       (node_events (run_state c))"
  using fake_report.reachable_accepted [OF assms(2,1)] by (simp add: accepted_def never_refused_def)

theorem fake_reports_never_refused_witness:
  "\<exists>c. reachable (demo_deps 1) (u ''r'') (u ''q'') c \<and> length (delivered c) = 1 \<and>
     retry_count (run_state c) = 0 \<and>
     list_all (\<lambda>e. ne_event e \<noteq> ''report_invalid_retry'' \<and> ne_event e \<noteq> ''evidence_insufficient'')
       (node_events (run_state c))"
proof -
  have "report_synthesize (demo_deps 1) = fake_synthesize" by (simp add: demo_deps_def)
  with demo_run [of "u ''r''"] fake_reports_never_refused [of "demo_deps 1" "u ''r''" "u ''q''"]
  show ?thesis by blast
qed

text \<open>A valid intent that is scheduled or has a confidence below one half pauses the run
  before anything was retrieved or delivered, with the status that awaits confirmation.\<close>

theorem unconfirmed_intent_pauses:
  assumes "parse_attempts deps request 0 (MAX_MODEL_RETRIES + 1) [] = Inr (i, usage)"
    and "intent_errors i = []" and "schedule i \<noteq> None \<or> confidence i < 1 / 2"
  shows "\<exists>c. run_workflow deps rid request = Some c \<and> run_phase c = Paused Build_retrieval_plan \<and>
     status (run_state c) = AWAITING_CONFIRMATION \<and> search_intent (run_state c) = Some i \<and>
     candidate_notice_ids (run_state c) = [] \<and> delivered c = []"
proof -
  define s0 where "s0 = fresh_state rid request"
  have s0: "user_request s0 = request" "candidate_notice_ids s0 = []" "errors s0 = []"
    by (simp_all add: s0_def fresh_state_def)
  obtain up1 where up1: "run_node deps Parse_intent s0 = (Inr up1, None)"
    "search_intent (apply_update s0 up1) = Some i" "candidate_notice_ids (apply_update s0 up1) = []"
    using assms(1) s0 by (simp add: node_defs del: parse_attempts.simps)
  define s1 where "s1 = apply_update s0 up1"
  obtain up2 where up2: "run_node deps Validate_intent s1 = (Inr up2, None)"
    "search_intent (apply_update s1 up2) = Some i" "candidate_notice_ids (apply_update s1 up2) = []"
    "status (apply_update s1 up2) \<noteq> FAILED"
    using assms(2) up1 unfolding s1_def [symmetric] by (simp add: node_defs)
  define s2 where "s2 = apply_update s1 up2"
  obtain up3 where up3: "run_node deps Confirm_intent s2 = (Inr up3, None)"
    "search_intent (apply_update s2 up3) = Some i" "candidate_notice_ids (apply_update s2 up3) = []"
    "status (apply_update s2 up3) = AWAITING_CONFIRMATION"
    using assms(3) up2 unfolding s2_def [symmetric] by (simp add: node_defs needs_confirmation_def)
  define s3 where "s3 = apply_update s2 up3"
  have "next_node Validate_intent s2 = Some Confirm_intent" "next_node Confirm_intent s3 = Some Pause"
    using up2(4) up3(4) by (simp_all add: route_defs s2_def s3_def)
  then have "run_workflow deps rid request =
      Some \<lparr>run_phase = Paused Build_retrieval_plan, run_state = apply_update s3 no_update, delivered = []\<rparr>"
    unfolding run_workflow_unfold recursion_limit_Suc s0_def [symmetric]
    using invoke_next [OF up1(1), of Validate_intent] invoke_next [OF up2(1), of Confirm_intent]
      invoke_next [OF up3(1), of Pause] invoke_pause [of deps s3 no_update]
    by (simp add: s1_def s2_def s3_def pause_def without_delivery_def del: apply_update_simps)
  with up3 show ?thesis by (simp add: s3_def)
qed

theorem unconfirmed_intent_pauses_witness:
  "\<exists>c. run_workflow (demo_deps 0) (u ''r'') (u ''q'') = Some c \<and> run_phase c = Paused Build_retrieval_plan \<and>
     status (run_state c) = AWAITING_CONFIRMATION \<and> search_intent (run_state c) = Some (demo_intent 0) \<and>
     candidate_notice_ids (run_state c) = [] \<and> delivered c = []"
  by (rule unconfirmed_intent_pauses [of "demo_deps 0" "u ''q''" "demo_intent 0" None])
    (simp_all add: demo_deps_def demo_intent_def intent_errors_def dates_inverted_def budget_inverted_def)

text \<open>C0: When the intent model fails on all three attempts, the run records a transient model
  error and the status failed, but then leaves with an attribute error: the edge from
  \<open>parse_intent\<close> to \<open>validate_intent\<close> is unconditional and the latter reads the missing intent.
  Running the pending node again, as a retry does, fails in the same way even if the model has
  recovered.\<close>

theorem parse_failure_crashes:
  assumes "parse_attempts deps request 0 (MAX_MODEL_RETRIES + 1) [] = Inl message"
  shows "\<exists>c. run_workflow deps rid request = Some c \<and> run_phase c = Crashed Attribute_error \<and>
     status (run_state c) = FAILED \<and> map err_code (errors (run_state c)) = [MODEL_TRANSIENT_ERROR] \<and>
     delivered c = [] \<and>
     invoke deps' (Suc k) (c\<lparr>run_phase := At Validate_intent\<rparr>) = Some c"
proof -
  define s0 where "s0 = fresh_state rid request"
  have s0: "user_request s0 = request" "errors s0 = []" "search_intent s0 = None"
    by (simp_all add: s0_def fresh_state_def)
  obtain up1 where up1: "run_node deps Parse_intent s0 = (Inr up1, None)"
    "search_intent (apply_update s0 up1) = None" "status (apply_update s0 up1) = FAILED"
    "map err_code (errors (apply_update s0 up1)) = [MODEL_TRANSIENT_ERROR]"
    using assms s0 by (simp add: node_defs del: parse_attempts.simps)
  define s1 where "s1 = apply_update s0 up1"
  have crash: "run_node d Validate_intent s1 = (Inl Attribute_error, None)" for d
    using up1 unfolding s1_def [symmetric] by (simp add: node_defs)
  then have "run_workflow deps rid request =
      Some \<lparr>run_phase = Crashed Attribute_error, run_state = s1, delivered = []\<rparr>"
    unfolding run_workflow_unfold recursion_limit_Suc s0_def [symmetric]
    using invoke_next [OF up1(1), of Validate_intent] invoke_crash [OF crash]
    by (simp add: s1_def del: apply_update_simps)
  moreover have "invoke deps' (Suc k) \<lparr>run_phase = At Validate_intent, run_state = s1, delivered = []\<rparr> =
      Some \<lparr>run_phase = Crashed Attribute_error, run_state = s1, delivered = []\<rparr>"
    by (rule invoke_crash [OF crash])
  ultimately show ?thesis using up1 by (simp add: s1_def)
qed

theorem parse_failure_crashes_witness:
  "\<exists>c. run_workflow (demo_deps 1) (u ''r'') [] = Some c \<and> run_phase c = Crashed Attribute_error \<and>
     status (run_state c) = FAILED \<and> map err_code (errors (run_state c)) = [MODEL_TRANSIENT_ERROR] \<and>
     delivered c = [] \<and>
     invoke (demo_deps 1) (Suc 15) (c\<lparr>run_phase := At Validate_intent\<rparr>) = Some c"
  by (rule parse_failure_crashes [where message = "u ''empty''"])
    (simp add: demo_deps_def MAX_MODEL_RETRIES_def eval_nat_numeral)

lemma bind_evidence_ids:
  "bind_evidence views ids idx verified = Inr (idx', verified') \<Longrightarrow>
     map vo_notice_id verified' = map vo_notice_id verified @ filter (\<lambda>v. map_of views v \<noteq> None) ids"
  by (induction views ids idx verified rule: bind_evidence.induct)
    (auto simp: Let_def opportunity_of_def split: option.splits sum.splits)

text \<open>Binding evidence loses no candidate with a stored view and keeps their order, whatever
  duplicate groups were found before; every span reference it hands to the report model resolves
  in the evidence index to an intact span of that opportunity's notice version.\<close>

theorem verify_evidence_binds_all:
  assumes "verify_evidence deps s = Inr up" "load_notice_views deps (candidate_notice_ids s) = Some views"
  shows "map vo_notice_id (up_opportunities up) =
       filter (\<lambda>v. map_of views v \<noteq> None) (candidate_notice_ids s) \<and>
     verify_evidence deps (s\<lparr>duplicate_groups := gs\<rparr>) = Inr up \<and>
     list_all (\<lambda>o'. list_all (\<lambda>e. backed (vo_notice_id o') (up_evidence up) (es_evidence_id e)) (vo_evidence o'))
       (up_opportunities up)"
proof -
  from assms obtain idx verified where
    b: "bind_evidence views (candidate_notice_ids s) [] [] = Inr (idx, verified)"
    and up: "up_evidence up = idx" "up_opportunities up = verified"
    by (auto simp: verify_evidence_def bind_res_Inr)
  from assms(1) have "verify_evidence deps (s\<lparr>duplicate_groups := gs\<rparr>) = Inr up"
    by (simp add: verify_evidence_def event_at_def assms(2))
  with bind_evidence_ids [OF b] bind_evidence_indexed [OF b] up show ?thesis
    by (simp add: opportunities_indexed_def)
qed

theorem verify_evidence_binds_all_witness:
  "\<exists>up. verify_evidence (demo_deps 1) ((fresh_state (u ''r'') (u ''q''))\<lparr>candidate_notice_ids := [u ''v1'']\<rparr>) = Inr up \<and>
     map vo_notice_id (up_opportunities up) = [u ''v1''] \<and>
     list_all (\<lambda>o'. list_all (\<lambda>e. backed (vo_notice_id o') (up_evidence up) (es_evidence_id e)) (vo_evidence o'))
       (up_opportunities up)"
proof -
  let ?s = "(fresh_state (u ''r'') (u ''q''))\<lparr>candidate_notice_ids := [u ''v1'']\<rparr>"
  have load: "load_notice_views (demo_deps 1) (candidate_notice_ids ?s) = Some [(u ''v1'', demo_view)]"
    by (simp add: demo_deps_def)
  have "list_all (\<lambda>(vid, view). list_all (\<lambda>t. t \<noteq> []) (nv_claim_supporting_texts view)) [(u ''v1'', demo_view)]"
    using demo_texts by (simp add: list_all_iff)
  from bind_evidence_total [OF this] obtain r where
    "bind_evidence [(u ''v1'', demo_view)] (candidate_notice_ids ?s) [] [] = Inr r" by blast
  with load obtain up where up: "verify_evidence (demo_deps 1) ?s = Inr up"
    by (cases r) (auto simp: verify_evidence_def)
  note all = verify_evidence_binds_all [OF up load, of "[]"]
  then have "map vo_notice_id (up_opportunities up) = [u ''v1'']" by simp
  with up all [THEN conjunct2, THEN conjunct2] show ?thesis by (intro exI conjI)
qed

text \<open>When no two items of a draft are of the same notice, the stamped report carries on
  every claim exactly the status the verifier gave to that claim on its own evidence, and none
  where there was no evidence or the verifier raised; items and claims are otherwise unchanged.\<close>

theorem stamped_with_own_verdict:
  assumes "distinct (map item_notice_id items)"
  shows "apply_support_status items (concat (map fst (draft_verdicts verify idx items))) =
     map (\<lambda>item. item\<lparr>item_claims :=
       map (\<lambda>claim. claim\<lparr>support_status := own_status verify idx item claim\<rparr>) (item_claims item)\<rparr>) items"
proof -
  let ?V = "concat (map fst (draft_verdicts verify idx items))"
  have "map (stamp_claim ?V (item_notice_id item)) (enumerate 0 (item_claims item)) =
      map (\<lambda>claim. claim\<lparr>support_status := own_status verify idx item claim\<rparr>) (item_claims item)"
    if "item \<in> set items" for item
    by (rule nth_equalityI)
      (simp_all add: nth_enumerate_eq stamp_claim_def verdict_for_own [OF assms that])
  moreover have "item_claims item = [] \<Longrightarrow> item = item\<lparr>item_claims := []\<rparr>" for item :: ReportItem
    by (cases item) simp
  ultimately show ?thesis by (simp add: apply_support_status_def)
qed

text \<open>Two claims on one span, and a verifier that supports only the first text.\<close>

definition demo_claim :: "string \<Rightarrow> ReportClaim" where
  "demo_claim t = \<lparr>claim_text = u t, citation_ids = [u ''h''], support_status = None\<rparr>"

definition demo_item :: "string \<Rightarrow> string \<Rightarrow> ReportItem" where
  "demo_item v t =
     \<lparr>item_notice_id = u v, item_title = u ''T'', known_fields = [], unknown_fields = [],
      relevance_reason = None, risk_note = None, item_citations = [], item_claims = [demo_claim t]\<rparr>"

definition demo_index :: evidence_index where
  "demo_index =
     [(u ''h'', SpanTuple
        [\<lparr>notice_version_id = u ''v1'', ev_text = u ''a'', ev_start = 0, ev_end = 1, span_hash = u ''h''\<rparr>,
         \<lparr>notice_version_id = u ''v2'', ev_text = u ''a'', ev_start = 0, ev_end = 1, span_hash = u ''h''\<rparr>])]"

definition demo_verify :: verify_fun where
  "demo_verify claim evs ids =
     Inr \<lparr>vf_status = (if claim_text claim = u ''a'' then SUPPORTED else UNSUPPORTED),
       rationale = u ''r'', evidence_ids_used = ids, conflict_evidence_ids = [], verifier_version = u ''1''\<rparr>"

lemmas demo_item_simps =
  demo_item_def demo_claim_def demo_index_def demo_verify_def own_status_def evidence_for_claim_def
  span_of_version_def

theorem stamped_with_own_verdict_witness:
  "map (\<lambda>item. map support_status (item_claims item))
     (apply_support_status [demo_item ''v1'' ''a'', demo_item ''v2'' ''b'']
       (concat (map fst (draft_verdicts demo_verify demo_index [demo_item ''v1'' ''a'', demo_item ''v2'' ''b''])))) =
   [[Some SUPPORTED], [Some UNSUPPORTED]]"
  by (subst stamped_with_own_verdict) (simp_all add: demo_item_simps)

text \<open>The verdicts are keyed by notice id and claim position only, so two items of one
  notice share them: a claim the verifier supports is delivered as unsupported because of the
  verdict on a claim of the other item.\<close>

theorem shared_notice_verdicts_collide:
  "own_status demo_verify demo_index (demo_item ''v1'' ''a'') (demo_claim ''a'') = Some SUPPORTED \<and>
   map (\<lambda>item. map support_status (item_claims item))
     (apply_support_status [demo_item ''v1'' ''a'', demo_item ''v1'' ''b'']
       (concat (map fst (draft_verdicts demo_verify demo_index [demo_item ''v1'' ''a'', demo_item ''v1'' ''b''])))) =
   [[Some UNSUPPORTED], [Some UNSUPPORTED]]"
  by (simp add: demo_item_simps apply_support_status_def draft_verdicts_def claim_verdict_def
    stamp_claim_def verdict_for_def)

text \<open>Stamping drops and reorders nothing: a report keeps the items and claims of its draft
  whatever the verdicts are, those judged unsupported included.\<close>

theorem stamping_keeps_claims:
  "map (\<lambda>item. (item_notice_id item, map claim_text (item_claims item), map citation_ids (item_claims item)))
     (apply_support_status items vs) =
   map (\<lambda>item. (item_notice_id item, map claim_text (item_claims item), map citation_ids (item_claims item))) items"
proof -
  have "map f (map (stamp_claim vs v) (enumerate n cs)) = map f cs" if "\<And>ic. f (stamp_claim vs v ic) = f (snd ic)"
    for f :: "ReportClaim \<Rightarrow> 'a" and v n cs
    by (rule nth_equalityI) (simp_all add: that nth_enumerate_eq)
  from this [of claim_text] this [of citation_ids] show ?thesis
    by (simp add: apply_support_status_def stamp_claim_def split: prod.split)
qed

end
