(* ===== verification/Delivery_Properties.thy ===== *)
theory Delivery_Properties
  imports Delivery Graph_Properties
begin

text \<open>
  What the persisted reports keep: a report that was accepted is read back as it was written, a run
  has at most one report, every stored citation is backed, and the DOCX attachment is idempotent.
\<close>

section \<open>Joined and sorted rows\<close>

lemma joined_single:
  "list_all2 (\<lambda>h r. f r = [h]) hs rows \<Longrightarrow> concat (map (\<lambda>r. map (Pair r) (f r)) rows) = zip rows hs"
  by (induction rule: list_all2_induct) auto

lemma map_zip_fst: "length xs = length ys \<Longrightarrow> map (\<lambda>(x, y). f x) (zip xs ys) = map f xs"
  by (induction rule: list_induct2) simp_all

lemma sorted_by_ordinal:
  assumes "map ord rows = [n..<n + length rows]" "\<forall>r\<in>set rows. parent r = (p :: nat)"
  shows "sorted (map (\<lambda>r. (parent r, ord r :: nat, key r :: nat)) rows)"
proof -
  have "sorted_wrt (<) (map ord rows)" unfolding assms(1) by (rule sorted_wrt_upt)
  then have "sorted_wrt (\<lambda>a b. ord a < ord b) rows" by (simp add: sorted_wrt_map)
  then have "sorted_wrt (\<lambda>a b. (parent a, ord a, key a) \<le> (parent b, ord b, key b)) rows"
    by (rule sorted_wrt_mono_rel [rotated]) (use assms(2) in \<open>auto simp: less_eq_prod_def\<close>)
  then show ?thesis by (simp add: sorted_map)
qed

lemma filter_joined:
  "filter (\<lambda>(c, h). P c) (concat (map (\<lambda>c. map (Pair c) (f c)) rows)) = concat (map (\<lambda>c. map (Pair c) (f c)) (filter P rows))"
  by (induction rows) (auto simp: filter_map o_def)

lemma filter_sort_joined:
  assumes "x \<in> X"
  shows "filter (\<lambda>(c, h). parent c = x)
      (sort_key k (concat (map (\<lambda>c. map (Pair c) (f c)) (filter (\<lambda>c. parent c \<in> X) rows)))) =
    sort_key k (concat (map (\<lambda>c. map (Pair c) (f c)) (filter (\<lambda>c. parent c = x) rows)))"
proof -
  have "filter (\<lambda>c. parent c = x) (filter (\<lambda>c. parent c \<in> X) rows) = filter (\<lambda>c. parent c = x) rows"
    using assms by (auto intro: filter_cong)
  then show ?thesis by (simp only: filter_sort filter_joined)
qed

text \<open>The rows of one item and of one claim, as the projection sees them.\<close>

definition cited_spans :: "NoticeTables \<Rightarrow> ReportDb \<Rightarrow> nat \<Rightarrow> ReportCitation list" where
  "cited_spans nt db x =
     map (\<lambda>(c, h). \<lparr>cit_evidence_id = h, cit_label = cr_label c\<rparr>)
       (sort_key (\<lambda>(c, h). (cr_report_item_id c, cr_ordinal c, cr_id c))
         (concat (map (\<lambda>c. map (Pair c) (span_hashes_of nt (cr_evidence_id c)))
           (filter (\<lambda>c. cr_report_item_id c = x) (citation_rows db)))))"

definition cited_hashes :: "NoticeTables \<Rightarrow> ReportDb \<Rightarrow> nat \<Rightarrow> pystr list" where
  "cited_hashes nt db x =
     map snd (sort_key (\<lambda>(c, h). (cc_report_claim_id c, cc_ordinal c, cc_id c))
       (concat (map (\<lambda>c. map (Pair c) (span_hashes_of nt (cc_evidence_id c)))
         (filter (\<lambda>c. cc_report_claim_id c = x) (claim_citation_rows db)))))"

definition item_claim_rows :: "ReportDb \<Rightarrow> nat \<Rightarrow> ReportClaimRow list" where
  "item_claim_rows db x =
     sort_key (\<lambda>c. (cl_report_item_id c, cl_ordinal c, cl_id c)) (filter (\<lambda>c. cl_report_item_id c = x) (claim_rows db))"

definition read_claim :: "NoticeTables \<Rightarrow> ReportDb \<Rightarrow> ReportClaimRow \<Rightarrow> ReportClaim" where
  "read_claim nt db c = \<lparr>claim_text = cl_text c, citation_ids = cited_hashes nt db (cl_id c),
     support_status = cl_support_status c\<rparr>"

lemma citations_of_item_joined:
  "x \<in> set ids \<Longrightarrow> citations_of_item (joined_citations nt ids db) x = cited_spans nt db x"
  by (simp add: citations_of_item_def joined_citations_def cited_spans_def filter_sort_joined)

lemma citation_ids_joined:
  "x \<in> set ids \<Longrightarrow> citation_ids_of_claim (joined_claim_citations nt ids db) x = cited_hashes nt db x"
  by (simp add: citation_ids_of_claim_def joined_claim_citations_def cited_hashes_def filter_sort_joined)

lemma sorted_claims_of_item:
  assumes "x \<in> set ids"
  shows "filter (\<lambda>c. cl_report_item_id c = x) (sorted_claims ids db) = item_claim_rows db x"
proof -
  have "filter (\<lambda>c. cl_report_item_id c = x) (filter (\<lambda>c. cl_report_item_id c \<in> set ids) (claim_rows db)) =
      filter (\<lambda>c. cl_report_item_id c = x) (claim_rows db)"
    unfolding filter_filter by (rule filter_cong) (use assms in auto)
  then show ?thesis by (simp only: sorted_claims_def item_claim_rows_def filter_sort)
qed

lemma claims_of_item_joined:
  assumes "x \<in> set ids"
  shows "claims_of_item (sorted_claims ids db)
      (joined_claim_citations nt (map cl_id (sorted_claims ids db)) db) x =
    map (read_claim nt db) (filter (\<lambda>c. cited_hashes nt db (cl_id c) \<noteq> []) (item_claim_rows db x))"
proof -
  let ?cls = "sorted_claims ids db"
  let ?ccs = "joined_claim_citations nt (map cl_id ?cls) db"
  have ids: "citation_ids_of_claim ?ccs (cl_id c) = cited_hashes nt db (cl_id c)" if "c \<in> set ?cls" for c
    by (rule citation_ids_joined) (use that in simp)
  note of_item = sorted_claims_of_item [OF assms, of db, symmetric]
  have "filter (\<lambda>c. citation_ids_of_claim ?ccs (cl_id c) \<noteq> [] \<and> cl_report_item_id c = x) ?cls =
      filter (\<lambda>c. cited_hashes nt db (cl_id c) \<noteq> []) (item_claim_rows db x)"
    unfolding of_item filter_filter by (rule filter_cong) (auto simp: ids)
  moreover have "c \<in> set ?cls" if "c \<in> set (item_claim_rows db x)" for c
    using that assms by (simp add: item_claim_rows_def sorted_claims_def)
  ultimately show ?thesis using ids by (simp add: claims_of_item_def read_claim_def)
qed

section \<open>What one report writes\<close>

text \<open>An evidence row of this notice version with this span hash.\<close>

definition backed_id :: "NoticeTables \<Rightarrow> pystr \<Rightarrow> pystr \<Rightarrow> nat \<Rightarrow> bool" where
  "backed_id nt notice h eid \<longleftrightarrow>
     (\<exists>e\<in>set (evidence_rows nt). evr_id e = eid \<and> evr_notice_version_id e = notice \<and> evr_span_hash e = h)"

definition ids_backed :: "NoticeTables \<Rightarrow> pystr \<Rightarrow> (pystr \<times> nat) list \<Rightarrow> bool" where
  "ids_backed nt notice ids \<longleftrightarrow> (\<forall>h eid. map_of ids h = Some eid \<longrightarrow> backed_id nt notice h eid)"

lemma ids_backed_simps [simp]:
  "ids_backed nt notice []"
  "ids_backed nt notice ids \<Longrightarrow> backed_id nt notice h eid \<Longrightarrow> ids_backed nt notice (dict_set h eid ids)"
  by (auto simp: ids_backed_def)

lemma resolve_evidence_backed:
  "resolve_evidence nt idx notice h = Inr e \<Longrightarrow> backed_id nt notice h (evr_id e)"
proof -
  assume r: "resolve_evidence nt idx notice h = Inr e"
  let ?rows = "sort_key evr_id (filter (\<lambda>e. evr_notice_version_id e = notice \<and> evr_span_hash e = h) (evidence_rows nt))"
  from r obtain rest where "?rows = e # rest" by (auto simp: resolve_evidence_def split: option.splits list.splits)
  then have "e \<in> set ?rows" by simp
  then show ?thesis by (auto simp: backed_id_def)
qed

lemma backed_id_span:
  assumes "backed_id nt notice h eid" "distinct (map evr_id (evidence_rows nt))"
  shows "span_hashes_of nt eid = [h]"
proof -
  from assms(1) obtain e where e: "e \<in> set (evidence_rows nt)" "evr_id e = eid" "evr_span_hash e = h"
    by (auto simp: backed_id_def)
  have "filter (\<lambda>x. evr_id x = evr_id e) rows = [e]" if "e \<in> set rows" "distinct (map evr_id rows)" for rows
    using that by (induction rows) (auto simp: filter_empty_conv image_iff)
  with e assms(2) show ?thesis by (auto simp: span_hashes_of_def)
qed

lemma persist_item_citations_spec:
  "persist_item_citations stg nt idx x notice n cs ids db = Inr (ids', db') \<Longrightarrow> ids_backed nt notice ids \<Longrightarrow>
     ids_backed nt notice ids' \<and>
     (\<exists>new. db' = db\<lparr>citation_rows := citation_rows db @ new, issued := issued db + length cs\<rparr> \<and>
        map cr_ordinal new = [n..<n + length cs] \<and> (\<forall>r\<in>set new. cr_report_item_id r = x) \<and>
        list_all2 (\<lambda>c r. backed_id nt notice (cit_evidence_id c) (cr_evidence_id r) \<and> cr_label r = cit_label c) cs new)"
proof (induction cs arbitrary: n ids db)
  case (Cons c cs)
  obtain e where e: "resolve_evidence nt idx notice (cit_evidence_id c) = Inr e"
    and rest: "persist_item_citations stg nt idx x notice (Suc n) cs (dict_set (cit_evidence_id c) (evr_id e) ids)
         (db\<lparr>citation_rows := citation_rows db @ [\<lparr>cr_id = fresh stg (issued db), cr_report_item_id = x,
               cr_ordinal = n, cr_evidence_id = evr_id e, cr_label = cit_label c,
               cr_span_start = evr_start e, cr_span_end = evr_end e\<rparr>],
             issued := Suc (issued db)\<rparr>) = Inr (ids', db')"
    using Cons.prems(1) by (auto simp: bind_res_Inr)
  let ?row = "\<lparr>cr_id = fresh stg (issued db), cr_report_item_id = x,
               cr_ordinal = n, cr_evidence_id = evr_id e, cr_label = cit_label c,
               cr_span_start = evr_start e, cr_span_end = evr_end e\<rparr>"
  note b = resolve_evidence_backed [OF e]
  from Cons.IH [OF rest] Cons.prems(2) b obtain new where
    "ids_backed nt notice ids'" "map cr_ordinal new = [Suc n..<Suc n + length cs]" "\<forall>r\<in>set new. cr_report_item_id r = x"
    "list_all2 (\<lambda>c r. backed_id nt notice (cit_evidence_id c) (cr_evidence_id r) \<and> cr_label r = cit_label c) cs new"
    "db' = db\<lparr>citation_rows := citation_rows db @ ?row # new, issued := issued db + Suc (length cs)\<rparr>"
    by auto
  moreover have "n # [Suc n..<Suc (n + length cs)] = [n..<Suc (n + length cs)]" by (simp add: upt_rec)
  ultimately show ?case using b by (intro conjI exI [of _ "?row # new"]) (simp_all del: upt.simps)
qed simp

lemma persist_claim_citations_spec:
  "persist_claim_citations stg nt idx item x seen hs n ids db = Inr (ids', db') \<Longrightarrow>
     ids_backed nt (item_notice_id item) ids \<Longrightarrow> distinct hs \<Longrightarrow> set hs \<inter> set seen = {} \<Longrightarrow>
     ids_backed nt (item_notice_id item) ids' \<and>
     (\<exists>new. db' = db\<lparr>claim_citation_rows := claim_citation_rows db @ new, issued := issued db + length hs\<rparr> \<and>
        map cc_ordinal new = [n..<n + length hs] \<and> (\<forall>r\<in>set new. cc_report_claim_id r = x) \<and>
        list_all2 (\<lambda>h r. backed_id nt (item_notice_id item) h (cc_evidence_id r)) hs new)"
proof (induction hs arbitrary: seen n ids db)
  case (Cons h hs)
  from Cons.prems(1,4) obtain eid ids1 where
    e: "(case map_of ids h of Some eid \<Rightarrow> Inr (eid, ids)
         | None \<Rightarrow> bind_res (resolve_evidence nt idx (item_notice_id item) h)
                     (\<lambda>e. Inr (evr_id e, dict_set h (evr_id e) ids))) = Inr (eid, ids1)"
    and rest: "persist_claim_citations stg nt idx item x (h # seen) hs (Suc n) ids1
            (db\<lparr>claim_citation_rows := claim_citation_rows db @ [\<lparr>cc_id = fresh stg (issued db),
                  cc_report_claim_id = x, cc_ordinal = n, cc_evidence_id = eid,
                  cc_label = citation_label item h\<rparr>],
                issued := Suc (issued db)\<rparr>) = Inr (ids', db')"
    by (auto simp: bind_res_Inr split: if_splits)
  let ?row = "\<lparr>cc_id = fresh stg (issued db),
                  cc_report_claim_id = x, cc_ordinal = n, cc_evidence_id = eid,
                  cc_label = citation_label item h\<rparr>"
  from e Cons.prems(2) have b: "backed_id nt (item_notice_id item) h eid" "ids_backed nt (item_notice_id item) ids1"
    by (auto simp: bind_res_Inr ids_backed_def dest: resolve_evidence_backed split: option.splits if_splits)
  from Cons.IH [OF rest b(2)] Cons.prems(3,4) obtain new where
    "ids_backed nt (item_notice_id item) ids'" "map cc_ordinal new = [Suc n..<Suc n + length hs]"
    "\<forall>r\<in>set new. cc_report_claim_id r = x"
    "list_all2 (\<lambda>h r. backed_id nt (item_notice_id item) h (cc_evidence_id r)) hs new"
    "db' = db\<lparr>claim_citation_rows := claim_citation_rows db @ ?row # new, issued := issued db + Suc (length hs)\<rparr>"
    by auto
  moreover have "n # [Suc n..<Suc (n + length hs)] = [n..<Suc (n + length hs)]" by (simp add: upt_rec)
  ultimately show ?case using b by (intro conjI exI [of _ "?row # new"]) (simp_all del: upt.simps)
qed simp

text \<open>The rows just written read back as what was cited.\<close>

lemma cited_spans_new:
  assumes "filter (\<lambda>c. cr_report_item_id c = x) (citation_rows db) = new"
    and "map cr_ordinal new = [n..<n + length cs]" "distinct (map evr_id (evidence_rows nt))"
    and "list_all2 (\<lambda>c r. backed_id nt notice (cit_evidence_id c) (cr_evidence_id r) \<and> cr_label r = cit_label c) cs new"
  shows "cited_spans nt db x = cs"
proof -
  have len: "length new = length cs" using assms(4) by (simp add: list_all2_lengthD)
  have "list_all2 (\<lambda>h r. span_hashes_of nt (cr_evidence_id r) = [h]) (map cit_evidence_id cs) new"
    using assms(4) by (auto simp: list_all2_map1 elim!: list_all2_mono intro: backed_id_span [OF _ assms(3)])
  from joined_single [OF this]
  have j: "concat (map (\<lambda>c. map (Pair c) (span_hashes_of nt (cr_evidence_id c))) new) = zip new (map cit_evidence_id cs)" .
  have "sorted (map (\<lambda>r. (cr_report_item_id r, cr_ordinal r, cr_id r)) new)"
    by (rule sorted_by_ordinal [of _ _ n _ x]) (use assms(1,2) len in auto)
  moreover have "map (\<lambda>(c, h). (cr_report_item_id c, cr_ordinal c, cr_id c)) (zip new (map cit_evidence_id cs)) =
      map (\<lambda>r. (cr_report_item_id r, cr_ordinal r, cr_id r)) new"
    using len by (simp add: map_zip_fst)
  ultimately have "cited_spans nt db x =
      map (\<lambda>(c, h). \<lparr>cit_evidence_id = h, cit_label = cr_label c\<rparr>) (zip new (map cit_evidence_id cs))"
    by (simp add: cited_spans_def assms(1) j sort_key_id_if_sorted)
  also have "\<dots> = cs"
    using assms(4) by (induction rule: list_all2_induct) auto
  finally show ?thesis .
qed

lemma cited_hashes_new:
  assumes "filter (\<lambda>c. cc_report_claim_id c = x) (claim_citation_rows db) = new"
    and "map cc_ordinal new = [n..<n + length hs]" "distinct (map evr_id (evidence_rows nt))"
    and "list_all2 (\<lambda>h r. backed_id nt notice h (cc_evidence_id r)) hs new"
  shows "cited_hashes nt db x = hs"
proof -
  have len: "length new = length hs" using assms(4) by (simp add: list_all2_lengthD)
  have "list_all2 (\<lambda>h r. span_hashes_of nt (cc_evidence_id r) = [h]) hs new"
    using assms(4) by (auto elim!: list_all2_mono intro: backed_id_span [OF _ assms(3)])
  from joined_single [OF this]
  have j: "concat (map (\<lambda>c. map (Pair c) (span_hashes_of nt (cc_evidence_id c))) new) = zip new hs" .
  have "sorted (map (\<lambda>r. (cc_report_claim_id r, cc_ordinal r, cc_id r)) new)"
    by (rule sorted_by_ordinal [of _ _ n _ x]) (use assms(1,2) len in auto)
  moreover have "map (\<lambda>(c, h). (cc_report_claim_id c, cc_ordinal c, cc_id c)) (zip new hs) =
      map (\<lambda>r. (cc_report_claim_id r, cc_ordinal r, cc_id r)) new"
    using len by (simp add: map_zip_fst)
  ultimately have "cited_hashes nt db x = map snd (zip new hs)"
    by (simp add: cited_hashes_def assms(1) j sort_key_id_if_sorted)
  with len show ?thesis by simp
qed

section \<open>The claims of one item\<close>

definition keys_between :: "storage \<Rightarrow> nat \<Rightarrow> nat \<Rightarrow> nat set" where
  "keys_between stg m n = fresh stg ` {m..<n}"

lemma keys_between_disjoint:
  "inj (fresh stg) \<Longrightarrow> x \<in> keys_between stg a b \<Longrightarrow> x \<in> keys_between stg c d \<Longrightarrow> b \<le> c \<or> d \<le> a \<Longrightarrow> False"
  by (auto simp: keys_between_def inj_eq)

lemma keys_between_mono: "x \<in> keys_between stg a b \<Longrightarrow> c \<le> a \<Longrightarrow> b \<le> d \<Longrightarrow> x \<in> keys_between stg c d"
  by (auto simp: keys_between_def)

lemma key_between: "m \<le> k \<Longrightarrow> k < n \<Longrightarrow> fresh stg k \<in> keys_between stg m n"
  by (auto simp: keys_between_def)

lemma cited_hashes_append:
  assumes "claim_citation_rows db' = claim_citation_rows db @ ccs" "\<forall>c\<in>set ccs. cc_report_claim_id c \<noteq> x"
  shows "cited_hashes nt db' x = cited_hashes nt db x"
proof -
  have "filter (\<lambda>c. cc_report_claim_id c = x) (claim_citation_rows db') =
      filter (\<lambda>c. cc_report_claim_id c = x) (claim_citation_rows db)"
    using assms by (auto simp: filter_empty_conv)
  then show ?thesis by (simp add: cited_hashes_def)
qed

text \<open>One claim row matches the claim it was written for.\<close>

definition claim_written ::
  "NoticeTables \<Rightarrow> storage \<Rightarrow> ReportDb \<Rightarrow> nat \<Rightarrow> nat \<Rightarrow> (nat \<times> ClaimVerification) list \<Rightarrow> nat \<times> ReportClaim \<Rightarrow> ReportClaimRow \<Rightarrow> bool" where
  "claim_written nt stg db m x verifications = (\<lambda>(i, c) r.
     cl_ordinal r = i \<and> cl_report_item_id r = x \<and> cl_text r = claim_text c \<and>
     cl_support_status r = stored_status (map_of verifications i) c \<and>
     cl_id r \<in> keys_between stg m (issued db) \<and> cited_hashes nt db (cl_id r) = citation_ids c)"

lemma persist_claims_spec:
  "persist_claims stg nt idx rid x item vs n cs ids db = Inr db' \<Longrightarrow> ids_backed nt (item_notice_id item) ids \<Longrightarrow>
     \<forall>c\<in>set cs. distinct (citation_ids c) \<Longrightarrow> inj (fresh stg) \<Longrightarrow> distinct (map evr_id (evidence_rows nt)) \<Longrightarrow>
     \<forall>r\<in>set (claim_citation_rows db). cc_report_claim_id r \<in> keys_between stg 0 (issued db) \<Longrightarrow>
     report_rows db' = report_rows db \<and> item_rows db' = item_rows db \<and> citation_rows db' = citation_rows db \<and>
     issued db \<le> issued db' \<and>
     (\<exists>ccs. claim_citation_rows db' = claim_citation_rows db @ ccs \<and>
        (\<forall>r\<in>set ccs. cc_report_claim_id r \<in> keys_between stg (issued db) (issued db'))) \<and>
     (\<exists>new. claim_rows db' = claim_rows db @ new \<and>
        list_all2 (claim_written nt stg db' (issued db) x vs) (enumerate n cs) new)"
proof (induction cs arbitrary: n ids db)
  case (Cons c cs)
  let ?row = "\<lparr>cl_id = fresh stg (issued db), cl_report_item_id = x, cl_ordinal = n,
                  cl_text = claim_text c, cl_support_status = stored_status (map_of vs n) c\<rparr>"
  let ?db1 = "db\<lparr>claim_rows := claim_rows db @ [?row], issued := Suc (issued db)\<rparr>"
  define db2 where "db2 = (case map_of vs n of
                   None \<Rightarrow> ?db1
                 | Some v \<Rightarrow> ?db1\<lparr>verification_rows := verification_rows ?db1 @ [\<lparr>cv_id = fresh stg (issued ?db1),
                       cv_report_claim_id = fresh stg (issued db), cv_report_id = rid, cv_verdict = cvf_verification v\<rparr>],
                     issued := Suc (issued ?db1)\<rparr>)"
  have db2: "report_rows db2 = report_rows db" "item_rows db2 = item_rows db" "citation_rows db2 = citation_rows db"
    "claim_rows db2 = claim_rows db @ [?row]" "claim_citation_rows db2 = claim_citation_rows db" "issued db < issued db2"
    by (simp_all add: db2_def split: option.splits)
  from Cons.prems(1) obtain ids3 db3 where
    cit: "persist_claim_citations stg nt idx item (fresh stg (issued db)) [] (citation_ids c) 0 ids db2 = Inr (ids3, db3)"
    and rest: "persist_claims stg nt idx rid x item vs (Suc n) cs ids3 db3 = Inr db'"
    by (simp only: persist_claims.simps Let_def db2_def [symmetric] bind_res_Inr split_paired_Ex prod.case) blast
  from persist_claim_citations_spec [OF cit] Cons.prems(2,3) obtain new where
    ids3: "ids_backed nt (item_notice_id item) ids3" and
    db3: "db3 = db2\<lparr>claim_citation_rows := claim_citation_rows db2 @ new, issued := issued db2 + length (citation_ids c)\<rparr>"
    and new: "map cc_ordinal new = [0..<0 + length (citation_ids c)]" "\<forall>r\<in>set new. cc_report_claim_id r = fresh stg (issued db)"
      "list_all2 (\<lambda>h r. backed_id nt (item_notice_id item) h (cc_evidence_id r)) (citation_ids c) new"
    by auto
  have own: "fresh stg (issued db) \<in> keys_between stg (issued db) (issued db3)"
    using db2(6) by (intro key_between) (simp_all add: db3)
  have "filter (\<lambda>r. cc_report_claim_id r = fresh stg (issued db)) (claim_citation_rows db3) = new"
  proof -
    have "cc_report_claim_id r \<noteq> fresh stg (issued db)" if "r \<in> set (claim_citation_rows db)" for r
      using keys_between_disjoint [OF Cons.prems(4) _ own, of 0 "issued db"] Cons.prems(6) that by auto
    with new(2) show ?thesis by (simp add: db3 db2 filter_empty_conv)
  qed
  from cited_hashes_new [OF this new(1) Cons.prems(5) new(3)]
  have hashes: "cited_hashes nt db3 (fresh stg (issued db)) = citation_ids c" .
  have known: "\<forall>r\<in>set (claim_citation_rows db3). cc_report_claim_id r \<in> keys_between stg 0 (issued db3)"
    using Cons.prems(6) new(2) keys_between_mono [OF own, of 0 "issued db3"] db2(6)
    by (auto simp: db3 db2(1-5) intro: keys_between_mono [of _ stg 0 "issued db"])
  from Cons.IH [OF rest ids3 _ Cons.prems(4,5) known] Cons.prems(3) obtain ccs rows where
    IH: "report_rows db' = report_rows db3" "item_rows db' = item_rows db3" "citation_rows db' = citation_rows db3"
      "issued db3 \<le> issued db'" "claim_citation_rows db' = claim_citation_rows db3 @ ccs"
      "\<forall>r\<in>set ccs. cc_report_claim_id r \<in> keys_between stg (issued db3) (issued db')"
      "claim_rows db' = claim_rows db3 @ rows"
      "list_all2 (claim_written nt stg db' (issued db3) x vs) (enumerate (Suc n) cs) rows"
    by auto
  have le: "issued db \<le> issued db3" using db2(6) by (simp add: db3)
  have "\<forall>r\<in>set ccs. cc_report_claim_id r \<noteq> fresh stg (issued db)"
    using IH(6) keys_between_disjoint [OF Cons.prems(4) own, of "issued db3" "issued db'"] by auto
  from cited_hashes_append [OF IH(5) this] hashes
  have "cited_hashes nt db' (fresh stg (issued db)) = citation_ids c" by simp
  then have "claim_written nt stg db' (issued db) x vs (n, c) ?row"
    using keys_between_mono [OF own, of "issued db" "issued db'"] IH(4) by (simp add: claim_written_def)
  moreover have "list_all2 (claim_written nt stg db' (issued db) x vs) (enumerate (Suc n) cs) rows"
    using IH(8) le by (elim list_all2_mono) (auto simp: claim_written_def elim!: keys_between_mono)
  ultimately have "list_all2 (claim_written nt stg db' (issued db) x vs) (enumerate n (c # cs)) (?row # rows)" by simp
  moreover have "\<forall>r\<in>set (new @ ccs). cc_report_claim_id r \<in> keys_between stg (issued db) (issued db')"
    using new(2) IH(4,6) own le by (auto elim!: keys_between_mono)
  ultimately show ?case using IH le db2 by (auto simp: db3)
qed simp

section \<open>The items of one report\<close>

text \<open>Every key a row refers to was drawn before.\<close>

definition keys_known :: "storage \<Rightarrow> ReportDb \<Rightarrow> bool" where
  "keys_known stg db \<longleftrightarrow>
     (\<forall>r\<in>set (report_rows db). rr_id r \<in> keys_between stg 0 (issued db)) \<and>
     (\<forall>r\<in>set (item_rows db). ir_report_id r \<in> keys_between stg 0 (issued db)) \<and>
     (\<forall>r\<in>set (citation_rows db). cr_report_item_id r \<in> keys_between stg 0 (issued db)) \<and>
     (\<forall>r\<in>set (claim_rows db). cl_report_item_id r \<in> keys_between stg 0 (issued db)) \<and>
     (\<forall>r\<in>set (claim_citation_rows db). cc_report_claim_id r \<in> keys_between stg 0 (issued db))"

text \<open>The later state adds rows below new keys only.\<close>

definition extends :: "storage \<Rightarrow> ReportDb \<Rightarrow> ReportDb \<Rightarrow> bool" where
  "extends stg db db' \<longleftrightarrow> issued db \<le> issued db' \<and> report_rows db' = report_rows db \<and>
     (\<exists>cs. citation_rows db' = citation_rows db @ cs \<and>
        (\<forall>r\<in>set cs. cr_report_item_id r \<in> keys_between stg (issued db) (issued db'))) \<and>
     (\<exists>cs. claim_rows db' = claim_rows db @ cs \<and>
        (\<forall>r\<in>set cs. cl_report_item_id r \<in> keys_between stg (issued db) (issued db'))) \<and>
     (\<exists>cs. claim_citation_rows db' = claim_citation_rows db @ cs \<and>
        (\<forall>r\<in>set cs. cc_report_claim_id r \<in> keys_between stg (issued db) (issued db')))"

lemma filter_append_none: "ys = xs @ zs \<Longrightarrow> \<forall>z\<in>set zs. \<not> P z \<Longrightarrow> filter P ys = filter P xs"
  by (simp add: filter_empty_conv)

lemma extends_views:
  assumes "extends stg db db'" "inj (fresh stg)" "x \<in> keys_between stg 0 (issued db)"
  shows "cited_spans nt db' x = cited_spans nt db x" "cited_hashes nt db' x = cited_hashes nt db x"
    "item_claim_rows db' x = item_claim_rows db x"
proof -
  have other: "y \<noteq> x" if "y \<in> keys_between stg (issued db) (issued db')" for y
    using keys_between_disjoint [OF assms(2,3), of "issued db" "issued db'"] that by auto
  from assms(1) obtain cs where "citation_rows db' = citation_rows db @ cs"
    "\<forall>r\<in>set cs. cr_report_item_id r \<in> keys_between stg (issued db) (issued db')" by (auto simp: extends_def)
  then have "filter (\<lambda>c. cr_report_item_id c = x) (citation_rows db') = filter (\<lambda>c. cr_report_item_id c = x) (citation_rows db)"
    using other by (intro filter_append_none) auto
  then show "cited_spans nt db' x = cited_spans nt db x" by (simp add: cited_spans_def)
  from assms(1) obtain cs where "claim_rows db' = claim_rows db @ cs"
    "\<forall>r\<in>set cs. cl_report_item_id r \<in> keys_between stg (issued db) (issued db')" by (auto simp: extends_def)
  then have "filter (\<lambda>c. cl_report_item_id c = x) (claim_rows db') = filter (\<lambda>c. cl_report_item_id c = x) (claim_rows db)"
    using other by (intro filter_append_none) auto
  then show "item_claim_rows db' x = item_claim_rows db x" by (simp add: item_claim_rows_def)
  from assms(1) obtain cs where "claim_citation_rows db' = claim_citation_rows db @ cs"
    "\<forall>r\<in>set cs. cc_report_claim_id r \<in> keys_between stg (issued db) (issued db')" by (auto simp: extends_def)
  then show "cited_hashes nt db' x = cited_hashes nt db x"
    using other by (intro cited_hashes_append) auto
qed

text \<open>What an item reads back as: its claims carry the status stored with them.\<close>

definition stored_claims :: "(nat \<times> ClaimVerification) list \<Rightarrow> ReportClaim list \<Rightarrow> ReportClaim list" where
  "stored_claims vs cs = map (\<lambda>(i, c). c\<lparr>support_status := stored_status (map_of vs i) c\<rparr>) (enumerate 0 cs)"

definition item_written ::
  "NoticeTables \<Rightarrow> storage \<Rightarrow> ReportDb \<Rightarrow> nat \<Rightarrow> (nat \<times> ClaimVerification) list \<Rightarrow> nat \<times> ReportItem \<Rightarrow> ReportItemRow \<Rightarrow> bool" where
  "item_written nt stg db rid vs = (\<lambda>(pos, item) r.
     ir_report_id r = rid \<and> ir_rank r = pos \<and> ir_notice_version_id r = item_notice_id item \<and>
     ir_title r = item_title item \<and> ir_known_fields r = jsonb stg (known_fields item) \<and>
     ir_unknown_fields r = unknown_fields item \<and> ir_relevance_reason r = relevance_reason item \<and>
     ir_risk_note r = risk_note item \<and> ir_id r \<in> keys_between stg 0 (issued db) \<and>
     cited_spans nt db (ir_id r) = item_citations item \<and>
     (\<forall>c\<in>set (item_claim_rows db (ir_id r)). cl_id c \<in> keys_between stg 0 (issued db) \<and> cited_hashes nt db (cl_id c) \<noteq> []) \<and>
     map (read_claim nt db) (item_claim_rows db (ir_id r)) = stored_claims vs (item_claims item))"

lemma item_written_extends:
  assumes "item_written nt stg db rid vs ri r" "extends stg db db'" "inj (fresh stg)"
  shows "item_written nt stg db' rid vs ri r"
proof -
  obtain pos item where ri: "ri = (pos, item)" by (cases ri)
  have le: "issued db \<le> issued db'" using assms(2) by (simp add: extends_def)
  have id: "ir_id r \<in> keys_between stg 0 (issued db)" using assms(1) ri by (simp add: item_written_def)
  have claims: "cl_id c \<in> keys_between stg 0 (issued db)" if "c \<in> set (item_claim_rows db (ir_id r))" for c
    using assms(1) ri that by (simp add: item_written_def)
  note same = extends_views [OF assms(2,3) id]
  have hashes: "cited_hashes nt db' (cl_id c) = cited_hashes nt db (cl_id c)" if "c \<in> set (item_claim_rows db (ir_id r))" for c
    by (rule extends_views(2) [OF assms(2,3) claims [OF that]])
  then have "map (read_claim nt db') (item_claim_rows db (ir_id r)) = map (read_claim nt db) (item_claim_rows db (ir_id r))"
    by (simp add: read_claim_def)
  with assms(1) same hashes keys_between_mono [OF id order_refl le] keys_between_mono [OF claims order_refl le]
  show ?thesis by (simp add: ri item_written_def)
qed

lemma extends_trans:
  assumes "extends stg a b" "extends stg b c"
  shows "extends stg a c"
proof -
  have ab: "issued a \<le> issued b" and bc: "issued b \<le> issued c" using assms by (simp_all add: extends_def)
  have widen: "x \<in> keys_between stg (issued a) (issued c)"
    if "x \<in> keys_between stg (issued a) (issued b) \<or> x \<in> keys_between stg (issued b) (issued c)" for x
    using that keys_between_mono ab bc by blast
  from assms obtain c1 l1 y1 c2 l2 y2 where
    "citation_rows b = citation_rows a @ c1" "citation_rows c = citation_rows b @ c2"
    "claim_rows b = claim_rows a @ l1" "claim_rows c = claim_rows b @ l2"
    "claim_citation_rows b = claim_citation_rows a @ y1" "claim_citation_rows c = claim_citation_rows b @ y2"
    "\<forall>r\<in>set (c1 @ c2). cr_report_item_id r \<in> keys_between stg (issued a) (issued c)"
    "\<forall>r\<in>set (l1 @ l2). cl_report_item_id r \<in> keys_between stg (issued a) (issued c)"
    "\<forall>r\<in>set (y1 @ y2). cc_report_claim_id r \<in> keys_between stg (issued a) (issued c)"
    using widen by (fastforce simp: extends_def)
  with assms ab bc show ?thesis
    unfolding extends_def by (intro conjI exI [of _ "c1 @ c2"] exI [of _ "l1 @ l2"] exI [of _ "y1 @ y2"]) auto
qed

lemma stored_claims_read:
  assumes "list_all2 (claim_written nt stg db m x vs) (enumerate n cs) rows"
  shows "map (read_claim nt db) rows = map (\<lambda>(i, c). c\<lparr>support_status := stored_status (map_of vs i) c\<rparr>) (enumerate n cs)"
  using assms by (auto simp: list_all2_conv_all_nth claim_written_def read_claim_def nth_enumerate_eq intro!: nth_equalityI)

lemma claim_rows_sorted:
  assumes "list_all2 (claim_written nt stg db m x vs) (enumerate n cs) rows"
  shows "sort_key (\<lambda>c. (cl_report_item_id c, cl_ordinal c, cl_id c)) rows = rows"
proof (rule sort_key_id_if_sorted, rule sorted_by_ordinal [where n = n and p = x])
  from assms have len: "length rows = length cs" by (auto dest: list_all2_lengthD)
  with assms show "map cl_ordinal rows = [n..<n + length rows]"
    by (auto simp: list_all2_conv_all_nth claim_written_def nth_enumerate_eq intro!: nth_equalityI)
  from assms show "\<forall>r\<in>set rows. cl_report_item_id r = x"
    by (auto simp: list_all2_conv_all_nth claim_written_def in_set_conv_nth nth_enumerate_eq split: prod.splits)
qed

lemma keys_known_step:
  assumes "keys_known stg db" "issued db \<le> n"
  shows "r \<in> set (report_rows db) \<Longrightarrow> rr_id r \<in> keys_between stg 0 n"
    "i \<in> set (item_rows db) \<Longrightarrow> ir_report_id i \<in> keys_between stg 0 n"
    "c \<in> set (citation_rows db) \<Longrightarrow> cr_report_item_id c \<in> keys_between stg 0 n"
    "l \<in> set (claim_rows db) \<Longrightarrow> cl_report_item_id l \<in> keys_between stg 0 n"
    "y \<in> set (claim_citation_rows db) \<Longrightarrow> cc_report_claim_id y \<in> keys_between stg 0 n"
  using assms by (auto simp: keys_known_def intro: keys_between_mono [of _ stg 0 "issued db"])

lemma keys_known_extends:
  assumes "keys_known stg db" "extends stg db db'" "item_rows db' = item_rows db @ is"
    and "\<forall>i\<in>set is. ir_report_id i \<in> keys_between stg 0 (issued db')"
  shows "keys_known stg db'"
proof -
  have le: "issued db \<le> issued db'" using assms(2) by (simp add: extends_def)
  have new: "x \<in> keys_between stg 0 (issued db')" if "x \<in> keys_between stg (issued db) (issued db')" for x
    by (rule keys_between_mono [OF that]) simp_all
  show ?thesis
    using assms(2,3,4) keys_known_step [OF assms(1) le] new
    by (auto simp: keys_known_def extends_def)
qed

text \<open>Claims as the domain type admits them.\<close>

definition claims_valid :: "ReportItem \<Rightarrow> bool" where
  "claims_valid item \<longleftrightarrow> (\<forall>c\<in>set (item_claims item). require_citations c = Inr c)"

lemma claims_validD:
  "claims_valid item \<Longrightarrow> c \<in> set (item_claims item) \<Longrightarrow> citation_ids c \<noteq> [] \<and> distinct (citation_ids c)"
  by (auto simp: claims_valid_def require_citations_def split: if_splits)

lemma persist_item_spec:
  assumes run: "persist_item stg nt idx by_item rid pos item db = Inr db'"
    and known: "keys_known stg db" and rid: "rid \<in> keys_between stg 0 (issued db)" and inj: "inj (fresh stg)"
    and pks: "distinct (map evr_id (evidence_rows nt))" and valid: "claims_valid item"
  shows "extends stg db db'" "keys_known stg db'"
    "\<exists>row. item_rows db' = item_rows db @ [row] \<and>
       item_written nt stg db' rid (case map_of by_item (item_notice_id item) of None \<Rightarrow> [] | Some d \<Rightarrow> d) (pos, item) row"
proof -
  let ?vs = "case map_of by_item (item_notice_id item) of None \<Rightarrow> [] | Some d \<Rightarrow> d"
  let ?x = "fresh stg (issued db)"
  let ?row = "\<lparr>ir_id = ?x, ir_report_id = rid, ir_rank = pos, ir_notice_version_id = item_notice_id item,
    ir_title = item_title item, ir_known_fields = jsonb stg (known_fields item), ir_unknown_fields = unknown_fields item,
    ir_relevance_reason = relevance_reason item, ir_risk_note = risk_note item\<rparr>"
  let ?db1 = "db\<lparr>item_rows := item_rows db @ [?row], issued := Suc (issued db)\<rparr>"
  from run obtain ids db2 where
    cit: "persist_item_citations stg nt idx ?x (item_notice_id item) 0 (item_citations item) [] ?db1 = Inr (ids, db2)"
    and cls: "persist_claims stg nt idx rid ?x item ?vs 0 (item_claims item) ids db2 = Inr db'"
    by (cases "list_ex (\<lambda>v. ver_id v = item_notice_id item) (notice_versions nt)")
      (auto simp: persist_item_def Let_def bind_res_Inr)
  from persist_item_citations_spec [OF cit] obtain new where
    ids: "ids_backed nt (item_notice_id item) ids" and
    db2: "db2 = ?db1\<lparr>citation_rows := citation_rows ?db1 @ new, issued := issued ?db1 + length (item_citations item)\<rparr>"
    and new: "map cr_ordinal new = [0..<0 + length (item_citations item)]" "\<forall>r\<in>set new. cr_report_item_id r = ?x"
      "list_all2 (\<lambda>c r. backed_id nt (item_notice_id item) (cit_evidence_id c) (cr_evidence_id r) \<and> cr_label r = cit_label c)
         (item_citations item) new"
    by auto
  have lt: "issued db < issued db2" by (simp add: db2)
  have "\<forall>r\<in>set (claim_citation_rows db2). cc_report_claim_id r \<in> keys_between stg 0 (issued db2)"
    using keys_known_step(5) [OF known] lt by (simp add: db2)
  from persist_claims_spec [OF cls ids _ inj pks this] claims_validD [OF valid] obtain ccs rows where
    same: "report_rows db' = report_rows db2" "item_rows db' = item_rows db2" "citation_rows db' = citation_rows db2"
      "issued db2 \<le> issued db'"
    and ccs: "claim_citation_rows db' = claim_citation_rows db2 @ ccs"
      "\<forall>r\<in>set ccs. cc_report_claim_id r \<in> keys_between stg (issued db2) (issued db')"
    and rows: "claim_rows db' = claim_rows db2 @ rows"
      "list_all2 (claim_written nt stg db' (issued db2) ?x ?vs) (enumerate 0 (item_claims item)) rows"
    by auto
  have own: "?x \<in> keys_between stg (issued db) (issued db')" using lt same(4) by (intro key_between) simp_all
  have rows_item: "\<forall>r\<in>set rows. cl_report_item_id r = ?x \<and> cl_id r \<in> keys_between stg (issued db2) (issued db') \<and>
      cited_hashes nt db' (cl_id r) \<noteq> []"
    using rows(2) claims_validD [OF valid nth_mem]
    by (auto simp: list_all2_conv_all_nth claim_written_def in_set_conv_nth nth_enumerate_eq split: prod.splits)
  have old: "y \<noteq> ?x" if "y \<in> keys_between stg 0 (issued db)" for y
    using keys_between_disjoint [OF inj _ own] that by blast
  show ext: "extends stg db db'"
    unfolding extends_def using same new(2) ccs rows rows_item own lt
    by (auto simp: db2 elim!: keys_between_mono)
  show "keys_known stg db'"
    by (rule keys_known_extends [OF known ext, of "[?row]"])
      (use same lt keys_between_mono [OF rid, of 0 "issued db'"] in \<open>auto simp: db2\<close>)
  have spans: "cited_spans nt db' ?x = item_citations item"
    by (rule cited_spans_new [OF _ new(1) pks new(3)])
      (use known new(2) old in \<open>auto simp: same db2 keys_known_def filter_empty_conv\<close>)
  have "filter (\<lambda>c. cl_report_item_id c = ?x) (claim_rows db') = rows"
    using known old rows_item by (auto simp: rows(1) db2 keys_known_def filter_empty_conv)
  then have claims: "item_claim_rows db' ?x = rows"
    by (simp add: item_claim_rows_def claim_rows_sorted [OF rows(2)])
  have "filter (\<lambda>c. cited_hashes nt db' (cl_id c) \<noteq> []) rows = rows" using rows_item by simp
  with spans claims stored_claims_read [OF rows(2)] rows_item keys_between_mono [OF own, of 0 "issued db'"]
  have "item_written nt stg db' rid ?vs (pos, item) ?row"
    by (auto simp: item_written_def stored_claims_def elim!: keys_between_mono)
  then show "\<exists>row. item_rows db' = item_rows db @ [row] \<and> item_written nt stg db' rid ?vs (pos, item) row"
    using same by (auto simp: db2)
qed

lemma persist_items_spec:
  assumes "keys_known stg db" "rid \<in> keys_between stg 0 (issued db)" "inj (fresh stg)"
    and "distinct (map evr_id (evidence_rows nt))" "\<forall>i\<in>set items. claims_valid i"
    and "persist_items stg nt idx by_item rid pos items db = Inr db'"
  shows "extends stg db db' \<and> keys_known stg db' \<and>
    (\<exists>rows. item_rows db' = item_rows db @ rows \<and>
       list_all2 (\<lambda>ri. item_written nt stg db' rid
         (case map_of by_item (item_notice_id (snd ri)) of None \<Rightarrow> [] | Some d \<Rightarrow> d) ri) (enumerate pos items) rows)"
  using assms(1,2,5,6)
proof (induction items arbitrary: pos db)
  case (Cons item items)
  from Cons.prems(4) obtain db1 where one: "persist_item stg nt idx by_item rid pos item db = Inr db1"
    and rest: "persist_items stg nt idx by_item rid (Suc pos) items db1 = Inr db'"
    by (auto simp: bind_res_Inr)
  have valid: "claims_valid item" using Cons.prems(3) by simp
  note step = persist_item_spec [OF one Cons.prems(1,2) assms(3,4) valid]
  from step(3) obtain row where row: "item_rows db1 = item_rows db @ [row]"
    "item_written nt stg db1 rid (case map_of by_item (item_notice_id item) of None \<Rightarrow> [] | Some d \<Rightarrow> d) (pos, item) row"
    by blast
  have "issued db \<le> issued db1" using step(1) by (simp add: extends_def)
  then have "rid \<in> keys_between stg 0 (issued db1)" by (rule keys_between_mono [OF Cons.prems(2) order_refl])
  from Cons.IH [OF step(2) this _ rest] Cons.prems(3) obtain rows where
    IH: "extends stg db1 db'" "keys_known stg db'" "item_rows db' = item_rows db1 @ rows"
      "list_all2 (\<lambda>ri. item_written nt stg db' rid
         (case map_of by_item (item_notice_id (snd ri)) of None \<Rightarrow> [] | Some d \<Rightarrow> d) ri) (enumerate (Suc pos) items) rows"
    by auto
  from item_written_extends [OF row(2) IH(1) assms(3)] IH row(1) extends_trans [OF step(1) IH(1)]
  show ?case by simp
qed (simp add: extends_def)

section \<open>The projection of a written report\<close>

text \<open>What the tables keep of a report: the dictionaries and the timestamp as PostgreSQL returns
  them, and the status of a claim's verdict in place of its own.\<close>

definition stored_item :: "storage \<Rightarrow> ClaimVerification list \<Rightarrow> ReportItem \<Rightarrow> ReportItem" where
  "stored_item stg verifications item = item\<lparr>known_fields := jsonb stg (known_fields item),
     item_claims := map (\<lambda>(i, c). case verdict_for verifications (item_notice_id item) i of
         None \<Rightarrow> c
       | Some v \<Rightarrow> c\<lparr>support_status := Some (vf_status v)\<rparr>) (enumerate 0 (item_claims item))\<rparr>"

definition stored_report :: "storage \<Rightarrow> ClaimVerification list \<Rightarrow> Report \<Rightarrow> Report" where
  "stored_report stg verifications rep = rep\<lparr>generated_at := timestamptz stg (generated_at rep),
     query_conditions := jsonb stg (query_conditions rep),
     rep_items := map (stored_item stg verifications) (rep_items rep)\<rparr>"

lemma index_verifications_lookup:
  "map_option cvf_verification
     (map_of (case map_of (index_verifications vs) notice of None \<Rightarrow> [] | Some d \<Rightarrow> d) i) = verdict_for vs notice i"
proof -
  let ?add = "\<lambda>e by_item. dict_set (cvf_notice_id e)
         (dict_set (cvf_claim_index e) e (case map_of by_item (cvf_notice_id e) of None \<Rightarrow> [] | Some d \<Rightarrow> d)) by_item"
  let ?look = "\<lambda>d. map_of (case map_of d notice of None \<Rightarrow> [] | Some d \<Rightarrow> d) i"
  have "?look (fold ?add vs d) =
      (case find (\<lambda>e. cvf_notice_id e = notice \<and> cvf_claim_index e = i) (rev vs) of Some e \<Rightarrow> Some e | None \<Rightarrow> ?look d)" for d
  proof (induction vs arbitrary: d rule: rev_induct)
    case (snoc e vs)
    then show ?case by auto
  qed simp
  from this [of "[]"] show ?thesis
    by (simp add: index_verifications_def verdict_for_def split: option.splits)
qed

lemma stored_claims_item:
  "item\<lparr>known_fields := jsonb stg (known_fields item),
        item_claims := stored_claims (case map_of (index_verifications vs) (item_notice_id item) of None \<Rightarrow> [] | Some d \<Rightarrow> d)
          (item_claims item)\<rparr> = stored_item stg vs item"
proof -
  have "stored_status (map_of (case map_of (index_verifications vs) n of None \<Rightarrow> [] | Some d \<Rightarrow> d) i) c =
      (case verdict_for vs n i of None \<Rightarrow> support_status c | Some v \<Rightarrow> Some (vf_status v))" for n i c
    unfolding index_verifications_lookup [symmetric] stored_status_def by (simp split: option.splits)
  moreover have "c\<lparr>support_status := case v of None \<Rightarrow> support_status c | Some v \<Rightarrow> Some (vf_status v)\<rparr> =
      (case v of None \<Rightarrow> c | Some v \<Rightarrow> c\<lparr>support_status := Some (vf_status v)\<rparr>)"
    for c :: ReportClaim and v :: "ClaimSupportVerification option"
    by (cases v) simp_all
  ultimately show ?thesis by (simp add: stored_item_def stored_claims_def)
qed

lemma sorted_by_rank:
  assumes "map ord rows = [n..<n + length rows]"
  shows "sorted (map (\<lambda>r. (ord r :: nat, key r :: nat)) rows)"
proof -
  have "sorted_wrt (<) (map ord rows)" unfolding assms by (rule sorted_wrt_upt)
  then have "sorted_wrt (\<lambda>a b. ord a < ord b) rows" by (simp add: sorted_wrt_map)
  then have "sorted_wrt (\<lambda>a b. (ord a, key a) \<le> (ord b, key b)) rows"
    by (rule sorted_wrt_mono_rel [rotated]) (auto simp: less_eq_prod_def)
  then show ?thesis by (simp add: sorted_map)
qed

lemma insert_report_projects:
  assumes ins: "insert_report stg nt runs idx vs rep db = Inr (rid, db')"
    and known: "keys_known stg db" and inj: "inj (fresh stg)"
    and pks: "distinct (map evr_id (evidence_rows nt))" and valid: "\<forall>i\<in>set (rep_items rep). claims_valid i"
  shows "\<exists>row. find_report_row db' (rep_run_id rep) = Some row \<and> rr_id row = rid \<and>
      project_report nt db' row = \<lparr>pr_id = uuid_text rid, pr_report = stored_report stg vs rep, pr_docx_object_key = None\<rparr>"
    and "keys_known stg db'"
    and "\<forall>i\<in>set (item_rows db'). ir_report_id i = rid \<longrightarrow> (\<forall>c\<in>set (item_claim_rows db' (ir_id i)). cited_hashes nt db' (cl_id c) \<noteq> [])"
proof -
  let ?rid = "fresh stg (issued db)"
  let ?row = "\<lparr>rr_id = ?rid, rr_run_id = rep_run_id rep, rr_export_key = u ''online:'' @ rep_run_id rep,
                 rr_conditions = jsonb stg (query_conditions rep), rr_freshness_window = freshness_window rep,
                 rr_source_availability = source_availability rep, rr_completeness_warning = completeness_warning rep,
                 rr_generated_at = timestamptz stg (generated_at rep), rr_docx_object_key = None\<rparr>"
  let ?db1 = "db\<lparr>report_rows := report_rows db @ [?row], issued := Suc (issued db)\<rparr>"
  from ins have none: "find_report_row db (rep_run_id rep) = None" and rid: "rid = ?rid"
    and items: "persist_items stg nt idx (index_verifications vs) ?rid 0 (rep_items rep) ?db1 = Inr db'"
    by (auto simp: insert_report_def Let_def bind_res_Inr split: if_splits)
  have own: "?rid \<in> keys_between stg 0 (issued ?db1)" by (rule key_between) simp_all
  have known1: "keys_known stg ?db1"
    unfolding keys_known_def using keys_known_step [OF known, of "Suc (issued db)"] own by auto
  from persist_items_spec [OF known1 own inj pks valid items] obtain rows where
    ext: "extends stg ?db1 db'" and "keys_known stg db'" and rows: "item_rows db' = item_rows db @ rows"
    and written: "list_all2 (\<lambda>ri. item_written nt stg db' ?rid
         (case map_of (index_verifications vs) (item_notice_id (snd ri)) of None \<Rightarrow> [] | Some d \<Rightarrow> d) ri)
         (enumerate 0 (rep_items rep)) rows"
    by auto
  then show "keys_known stg db'" by simp
  have len: "length rows = length (rep_items rep)" using written by (auto dest: list_all2_lengthD)
  have row_at: "item_written nt stg db' ?rid (case map_of (index_verifications vs) (item_notice_id (rep_items rep ! k)) of
      None \<Rightarrow> [] | Some d \<Rightarrow> d) (k, rep_items rep ! k) (rows ! k)" if "k < length rows" for k
    using written that len by (auto simp: list_all2_conv_all_nth nth_enumerate_eq)
  have "ir_report_id r \<noteq> ?rid" if "r \<in> set (item_rows db)" for r
    using keys_between_disjoint [OF inj, of ?rid 0 "issued db" "issued db" "Suc (issued db)"] key_between [of "issued db" "issued db" _ stg]
      keys_known_step(2) [OF known order_refl that] by auto
  moreover have "ir_report_id r = ?rid" if "r \<in> set rows" for r
    using row_at that by (auto simp: item_written_def in_set_conv_nth)
  ultimately have own_items: "filter (\<lambda>i. ir_report_id i = ?rid) (item_rows db') = rows"
    by (simp add: rows filter_empty_conv)
  have "\<forall>c\<in>set (item_claim_rows db' (ir_id i)). cited_hashes nt db' (cl_id c) \<noteq> []" if i: "i \<in> set rows" for i
  proof -
    obtain k where "k < length rows" "i = rows ! k" using i by (metis in_set_conv_nth)
    then show ?thesis using row_at [of k] by (simp add: item_written_def)
  qed
  then show "\<forall>i\<in>set (item_rows db'). ir_report_id i = rid \<longrightarrow> (\<forall>c\<in>set (item_claim_rows db' (ir_id i)). cited_hashes nt db' (cl_id c) \<noteq> [])"
    using own_items unfolding rid by (metis (mono_tags, lifting) mem_Collect_eq set_filter)
  have "map ir_rank rows = [0..<0 + length rows]"
    using row_at by (auto simp: item_written_def intro!: nth_equalityI)
  from sorted_by_rank [OF this, of ir_id] have order: "sort_key (\<lambda>i. (ir_rank i, ir_id i)) rows = rows"
    by (rule sort_key_id_if_sorted)
  let ?citations = "joined_citations nt (map ir_id rows) db'" and ?claims = "sorted_claims (map ir_id rows) db'"
  let ?item = "\<lambda>i. \<lparr>item_notice_id = ir_notice_version_id i, item_title = ir_title i,
            known_fields = ir_known_fields i, unknown_fields = ir_unknown_fields i,
            relevance_reason = ir_relevance_reason i, risk_note = ir_risk_note i,
            item_citations = citations_of_item ?citations (ir_id i),
            item_claims = claims_of_item ?claims (joined_claim_citations nt (map cl_id ?claims) db') (ir_id i)\<rparr>"
  have "?item (rows ! k) = stored_item stg vs (rep_items rep ! k)" if "k < length rows" for k
  proof -
    have "ir_id (rows ! k) \<in> set (map ir_id rows)" using that by simp
    then show ?thesis
      using row_at [OF that]
      by (simp add: citations_of_item_joined claims_of_item_joined item_written_def flip: stored_claims_item)
  qed
  then have "map ?item rows = map (stored_item stg vs) (rep_items rep)"
    using len by (auto intro!: nth_equalityI)
  then have "project_report nt db' ?row =
      \<lparr>pr_id = uuid_text rid, pr_report = stored_report stg vs rep, pr_docx_object_key = None\<rparr>"
    by (simp add: project_report_def Let_def own_items order rid stored_report_def)
  moreover have "find_report_row db' (rep_run_id rep) = Some ?row"
    using none ext find_append_None [of _ "report_rows db" ?row] by (simp add: find_report_row_def extends_def)
  ultimately show "\<exists>row. find_report_row db' (rep_run_id rep) = Some row \<and> rr_id row = rid \<and>
      project_report nt db' row = \<lparr>pr_id = uuid_text rid, pr_report = stored_report stg vs rep, pr_docx_object_key = None\<rparr>"
    using rid by auto
qed

text \<open>Stamping first and storing the verdicts then agree on every status.\<close>

definition postgres_form :: "storage \<Rightarrow> Report \<Rightarrow> Report" where
  "postgres_form stg rep = rep\<lparr>generated_at := timestamptz stg (generated_at rep),
     query_conditions := jsonb stg (query_conditions rep),
     rep_items := map (\<lambda>i. i\<lparr>known_fields := jsonb stg (known_fields i)\<rparr>) (rep_items rep)\<rparr>"

lemma stamp_twice:
  "(case verdict_for vs notice i of None \<Rightarrow> stamp_claim vs notice (i, c)
      | Some v \<Rightarrow> (stamp_claim vs notice (i, c))\<lparr>support_status := Some (vf_status v)\<rparr>) = stamp_claim vs notice (i, c)"
  by (simp add: stamp_claim_def split: option.splits)

lemma stored_report_stamped:
  assumes "rep_items rep = apply_support_status items vs"
  shows "stored_report stg vs rep = postgres_form stg rep"
proof -
  have "map (\<lambda>(i, c). case verdict_for vs n i of None \<Rightarrow> c | Some v \<Rightarrow> c\<lparr>support_status := Some (vf_status v)\<rparr>)
          (enumerate 0 (map (stamp_claim vs n) (enumerate 0 cs))) = map (stamp_claim vs n) (enumerate 0 cs)" for n cs
    by (rule nth_equalityI) (simp_all add: nth_enumerate_eq stamp_twice)
  then have "stored_item stg vs i = i\<lparr>known_fields := jsonb stg (known_fields i)\<rparr>"
    if "i \<in> set (apply_support_status items vs)" for i
    using that by (auto simp: apply_support_status_def stored_item_def split: if_splits)
  then show ?thesis by (simp add: stored_report_def postgres_form_def assms)
qed

lemma claims_valid_stamped:
  "\<forall>i\<in>set items. claims_valid i \<Longrightarrow> i \<in> set (apply_support_status items vs) \<Longrightarrow> claims_valid i"
  by (auto simp: apply_support_status_def claims_valid_def require_citations_def stamp_claim_def in_set_enumerate_eq
      split: if_splits)

section \<open>Object keys of reports\<close>

lemma hex_digit_inject: "a < 16 \<Longrightarrow> b < 16 \<Longrightarrow> hex_digit a = hex_digit b \<Longrightarrow> a = b"
  by (auto simp: hex_digit_def split: if_splits)

lemma hex_digits_inject:
  "\<forall>i<k. n div 16 ^ i mod 16 = m div 16 ^ i mod 16 \<Longrightarrow> n mod 16 ^ k = (m :: nat) mod 16 ^ k"
proof (induction k)
  case (Suc k)
  then have "n mod 16 ^ k = m mod 16 ^ k" "n div 16 ^ k mod 16 = m div 16 ^ k mod 16" by simp_all
  then show ?case by (simp only: power_Suc2 mod_mult2_eq)
qed simp

definition uuid_digits :: "nat \<Rightarrow> pystr" where
  "uuid_digits n = map (\<lambda>i. hex_digit (n div 16 ^ i mod 16)) (rev [0..<32])"

definition uuid_groups :: "nat \<Rightarrow> pystr list" where
  "uuid_groups n = (let d = uuid_digits n
     in [take 8 d, take 4 (drop 8 d), take 4 (drop 12 d), take 4 (drop 16 d), drop 20 d])"

lemma uuid_text_groups: "uuid_text n = py_join (u ''-'') (uuid_groups n)"
  by (simp add: uuid_text_def uuid_groups_def uuid_digits_def Let_def)

lemma concat_uuid_groups: "concat (uuid_groups n) = uuid_digits n"
proof -
  have "take 8 d @ take 4 (drop 8 d) @ take 4 (drop 12 d) @ take 4 (drop 16 d) @ drop 20 d = d" for d :: pystr
    using append_take_drop_id [of 8 d] append_take_drop_id [of 4 "drop 8 d"] append_take_drop_id [of 4 "drop 12 d"]
      append_take_drop_id [of 4 "drop 16 d"] by (simp add: drop_drop)
  then show ?thesis by (simp add: uuid_groups_def Let_def)
qed

lemma uuid_digit_chars: "c \<in> set (uuid_digits n) \<Longrightarrow> (48 \<le> c \<and> c \<le> 57) \<or> (97 \<le> c \<and> c \<le> 102)"
  by (auto simp: uuid_digits_def hex_digit_def)

lemma uuid_text_inject:
  assumes "uuid_text n = uuid_text m" "n < 2 ^ 128" "m < 2 ^ 128"
  shows "n = m"
proof -
  have no_dash: "\<forall>w\<in>set (uuid_groups k). 45 \<notin> set w" for k
  proof
    fix w assume "w \<in> set (uuid_groups k)"
    then have "set w \<subseteq> set (uuid_digits k)" using concat_uuid_groups [of k] by (metis UN_upper set_concat)
    then show "45 \<notin> set w" using uuid_digit_chars [of 45 k] by auto
  qed
  have split: "py_split_on 45 (uuid_text k) = uuid_groups k" for k
  proof -
    have "uuid_groups k \<noteq> []" by (simp add: uuid_groups_def Let_def)
    from py_split_on_join [OF this no_dash] show ?thesis by (simp add: uuid_text_groups)
  qed
  have "uuid_groups n = uuid_groups m" unfolding split [symmetric] assms(1) ..
  then have "uuid_digits n = uuid_digits m" unfolding concat_uuid_groups [symmetric] by (rule arg_cong)
  then have eq: "\<forall>i\<in>set (rev [0..<32]). hex_digit (n div 16 ^ i mod 16) = hex_digit (m div 16 ^ i mod 16)"
    unfolding uuid_digits_def map_eq_conv .
  have "\<forall>i<32. n div 16 ^ i mod 16 = m div 16 ^ i mod 16"
  proof (intro allI impI)
    fix i :: nat assume "i < 32"
    then have "i \<in> set (rev [0..<32])" by (simp only: set_rev set_upt atLeastLessThan_iff) simp
    from bspec [OF eq this] show "n div 16 ^ i mod 16 = m div 16 ^ i mod 16"
      by (rule hex_digit_inject [rotated 2]) simp_all
  qed
  then have "n mod 16 ^ 32 = m mod 16 ^ 32" by (rule hex_digits_inject)
  with assms(2,3) show ?thesis by simp
qed

lemma uuid_text_chars: "c \<in> set (uuid_text n) \<Longrightarrow> c = 45 \<or> (48 \<le> c \<and> c \<le> 57) \<or> (97 \<le> c \<and> c \<le> 102)"
proof -
  assume c: "c \<in> set (uuid_text n)"
  have "set (py_join (u ''-'') ws) \<subseteq> insert 45 (set (concat ws))" for ws
    by (induction "u ''-''" ws rule: py_join.induct) auto
  from subsetD [OF this] c have "c = 45 \<or> c \<in> set (concat (uuid_groups n))" unfolding uuid_text_groups by blast
  then have "c = 45 \<or> c \<in> set (uuid_digits n)" unfolding concat_uuid_groups .
  then show ?thesis using uuid_digit_chars by blast
qed

lemma length_uuid_text: "length (uuid_text n) = 36"
  by (simp add: uuid_text_def Let_def)

lemma uuid_text_nonempty: "uuid_text n \<noteq> []"
  by (simp add: uuid_text_def Let_def)

lemma sanitize_uuid: "sanitize_filename (uuid_text n) = uuid_text n"
proof -
  have key: "\<forall>c\<in>set (uuid_text n). key_char c \<and> c \<noteq> 46" 
    by (auto simp: key_char_def dest!: uuid_text_chars)
  then have "map (\<lambda>c. if key_char c then c else 95) (uuid_text n) = uuid_text n" by (auto intro: map_idI)
  moreover have keep: "dropWhile (\<lambda>c. c = 46) xs = xs" if "\<forall>c\<in>set xs. c \<noteq> 46" for xs :: pystr
    using that by (cases xs) auto
  have "dropWhile (\<lambda>c. c = 46) (uuid_text n) = uuid_text n" by (rule keep) (use key in simp)
  moreover have "dropWhile (\<lambda>c. c = 46) (rev (uuid_text n)) = rev (uuid_text n)" by (rule keep) (use key in simp)
  moreover have "\<not> (\<forall>c\<in>set (uuid_text n). c = 46)" using key uuid_text_nonempty [of n] by (cases "uuid_text n") auto
  ultimately show ?thesis using uuid_text_nonempty by (auto simp: sanitize_filename_def Let_def)
qed

lemma one_dot: "count_list s 46 < 2 \<Longrightarrow> \<not> py_contains (u ''..'') s"
  by (auto simp: py_contains_sublist sublist_def)

definition object_key_parts :: "nat \<Rightarrow> pystr list" where
  "object_key_parts n = [u ''reports'', uuid_text n, u ''docx-v1'', u ''bidscope-'' @ uuid_text n @ u ''.docx'']"

lemma object_key_join: "object_key (uuid_text n) = py_join (u ''/'') (object_key_parts n)"
  by (simp add: object_key_def sanitize_uuid RENDERER_VERSION_def object_key_parts_def Let_def)

lemma object_key_no_dots: "\<not> py_contains (u ''..'') (object_key (uuid_text k))"
proof (rule one_dot)
  have "count_list (uuid_text k) 46 = 0" using uuid_text_chars [of 46 k] by (auto simp: count_list_0_iff)
  then show "count_list (object_key (uuid_text k)) 46 < 2" by (simp add: object_key_join object_key_parts_def)
qed

lemma object_key_resolves: "resolve_key (object_key (uuid_text k)) = Inr (object_key_parts k)"
proof -
  have "47 \<notin> set (uuid_text k)" "0 \<notin> set (uuid_text k)" "46 \<notin> set (uuid_text k)"
    using uuid_text_chars [of _ k] by fastforce+
  then have "list_all plain_part (object_key_parts k)"
    using uuid_text_nonempty [of k] by (auto simp: object_key_parts_def plain_part_def)
  then show ?thesis
    unfolding object_key_join
    by (rule resolve_key_join) (use object_key_no_dots [of k] in \<open>simp_all add: object_key_join object_key_parts_def\<close>)
qed

text \<open>Every report has an object key of its own that both stores accept: the key of a report id
  resolves to a path of four plain components below the root and is no key of another report.\<close>

theorem object_keys_safe:
  assumes "n < 2 ^ 128" "m < 2 ^ 128"
  shows "resolve_key (object_key (uuid_text n)) = Inr (object_key_parts n) \<and>
     full_key pre (object_key (uuid_text n)) = Inr (logical_base pre @ object_key (uuid_text n)) \<and>
     (object_key (uuid_text n) = object_key (uuid_text m) \<longleftrightarrow> n = m)"
proof -
  have "\<not> prefix (u ''/'') (object_key (uuid_text n))" by (simp add: object_key_def Let_def)
  moreover have "object_key (uuid_text n) = object_key (uuid_text m) \<longleftrightarrow> n = m"
  proof
    assume "object_key (uuid_text n) = object_key (uuid_text m)"
    then have "object_key_parts n = object_key_parts m" using object_key_resolves [of n] object_key_resolves [of m] by simp
    then show "n = m" using uuid_text_inject [OF _ assms] by (simp add: object_key_parts_def)
  qed simp
  ultimately show ?thesis using object_key_resolves object_key_no_dots [of n] by (simp add: full_key_def logical_base_def)
qed

theorem object_keys_safe_witness:
  "object_key (uuid_text 1) \<noteq> object_key (uuid_text 2)"
  using object_keys_safe [of 1 2] by simp

section \<open>Attaching the document\<close>

lemma nonempty_Some: "nonempty k = Some l \<longleftrightarrow> k = Some l \<and> l \<noteq> []"
  by (auto simp: nonempty_def split: option.splits if_splits)

lemma nonempty_None: "nonempty k = None \<longleftrightarrow> k = None \<or> k = Some []"
  by (auto simp: nonempty_def split: option.splits if_splits)

lemma get_report_attach:
  "get_report_row db pid = Some row \<Longrightarrow>
     get_report_row (attach_key pid key db) pid =
       Some (if rr_docx_object_key row = None then row\<lparr>rr_docx_object_key := Some key\<rparr> else row)"
proof -
  have "find (\<lambda>r. uuid_text (rr_id r) = pid) rows = Some row \<Longrightarrow>
      find (\<lambda>r. uuid_text (rr_id r) = pid)
        (map (\<lambda>r. if uuid_text (rr_id r) = pid \<and> rr_docx_object_key r = None
                   then r\<lparr>rr_docx_object_key := Some key\<rparr> else r) rows) =
      Some (if rr_docx_object_key row = None then row\<lparr>rr_docx_object_key := Some key\<rparr> else row)" for rows
    by (induction rows) (auto split: if_splits)
  then show "get_report_row db pid = Some row \<Longrightarrow> ?thesis" by (simp add: get_report_row_def attach_key_def)
qed

context object_store
begin

text \<open>
  A successful export, while no other session touches the report's row, leaves the row attached to
  the returned key and the object in the store, so that a further export only reads.
\<close>

lemma export_again:
  assumes run: "export_report put ex docx others p db s = (Inr rec, db', s')"
    and row: "get_report_row db (pr_id p) = Some row" "rr_docx_object_key row \<noteq> Some []"
    and undisturbed: "get_report_row (others db) (pr_id p) = Some row"
  shows "export_report put ex docx' others' p db' s' = (Inr rec, db', s') \<and> ex (er_object_key rec) s' = Inr True"
proof -
  have again: "export_report put ex docx' others' p db2 s2 = (Inr (export_record row2 key), db2, s2)"
    if "get_report_row db2 (pr_id p) = Some row2" "rr_docx_object_key row2 = Some key" "key \<noteq> []" "ex key s2 = Inr True"
    for db2 s2 row2 key
    using that by (simp add: export_report_def nonempty_def Let_def)
  have uploaded: "put key (docx (render_report (pr_report p))) s = (Inr (), s') \<and>
      (case rr_docx_object_key row of
         None \<Rightarrow> rec = export_record row key \<and> db' = attach_key (pr_id p) key (others db)
       | Some k \<Rightarrow> rec = export_record row k \<and> db' = others db)"
    if "(case put key (docx (render_report (pr_report p))) s of
                   (Inl _, s1) \<Rightarrow> (Inl Docx_storage_failed, db, s1)
                 | (Inr _, s1) \<Rightarrow>
                     (let db1 = others db
                      in case get_report_row db1 (pr_id p) of
                           None \<Rightarrow> (Inl Report_disappeared, db1, s1)
                         | Some row1 \<Rightarrow>
                             (case rr_docx_object_key row1 of
                                None \<Rightarrow> (Inr (export_record row1 key), attach_key (pr_id p) key db1, s1)
                              | Some k \<Rightarrow> (Inr (export_record row1 k), db1, s1)))) = (Inr rec, db', s')" for key
    using that undisturbed by (auto simp: Let_def split: prod.splits sum.splits option.splits)
  show ?thesis
  proof (cases "rr_docx_object_key row")
    case None
    let ?key = "object_key (pr_id p)"
    from None run row(1) have "put ?key (docx (render_report (pr_report p))) s = (Inr (), s') \<and>
        rec = export_record row ?key \<and> db' = attach_key (pr_id p) ?key (others db)"
      using uploaded [of ?key] by (simp add: export_report_def nonempty_def Let_def)
    moreover have "?key \<noteq> []" by (simp add: object_key_def Let_def)
    moreover from this calculation have "ex ?key s' = Inr True" using ex_put by blast
    moreover have "get_report_row (attach_key (pr_id p) ?key (others db)) (pr_id p) =
        Some (row\<lparr>rr_docx_object_key := Some ?key\<rparr>)"
      using get_report_attach [OF undisturbed] None by simp
    ultimately show ?thesis using again [of _ "row\<lparr>rr_docx_object_key := Some ?key\<rparr>" ?key s'] by (simp add: export_record_def)
  next
    case (Some key)
    with row(2) have key: "key \<noteq> []" by simp
    show ?thesis
    proof (cases "ex key s")
      case (Inl e)
      with run row Some key show ?thesis by (simp add: export_report_def nonempty_def)
    next
      case (Inr found)
      show ?thesis
      proof (cases found)
        case True
        with Inr run row Some key have "rec = export_record row key" "db' = db" "s' = s"
          by (simp_all add: export_report_def nonempty_def)
        with again [OF row(1) Some key] Inr True show ?thesis by (simp add: export_record_def)
      next
        case False
        with Inr run row Some key have "put key (docx (render_report (pr_report p))) s = (Inr (), s') \<and>
            rec = export_record row key \<and> db' = others db"
          using uploaded [of key] by (simp add: export_report_def nonempty_def Let_def)
        moreover from this have "ex key s' = Inr True" using ex_put by blast
        ultimately show ?thesis using again [OF undisturbed Some key] by (simp add: export_record_def)
      qed
    qed
  qed
qed

end

section \<open>A small instance\<close>

definition demo_storage :: storage where
  "demo_storage = \<lparr>jsonb = rev, timestamptz = (\<lambda>t. t), fresh = (\<lambda>k. k)\<rparr>"

definition stored_tables :: NoticeTables where
  "stored_tables = \<lparr>source_notices = [],
     notice_versions = [\<lparr>ver_id = u ''v1'', ver_source_notice_id = u ''n'', ver_content_hash = u ''c'', ver_title = None,
       ver_purchaser = None, ver_region = None, ver_deadline = None, ver_budget_minor_units = None,
       ver_budget_currency = None, ver_cancellation = False, ver_created_at = 0,
       ver_payload_object_key = u ''k'', ver_capture_kind = RAW_RESPONSE, ver_parser_version = u ''p'', ver_publish_date = None,
       ver_summary = None, ver_raw_fields = []\<rparr>],
     evidence_rows = [\<lparr>evr_id = 7, evr_notice_version_id = u ''v1'', evr_text = u ''t'', evr_start = 0, evr_end = 1,
       evr_span_hash = u ''h''\<rparr>]\<rparr>"

definition stored_index :: evidence_index where
  "stored_index = [(u ''h'', OneSpan \<lparr>notice_version_id = u ''v1'', ev_text = u ''t'', ev_start = 0, ev_end = 1,
     span_hash = u ''h''\<rparr>)]"

definition cited_item :: ReportItem where
  "cited_item = \<lparr>item_notice_id = u ''v1'', item_title = u ''T'', known_fields = [(u ''a'', u ''1''), (u ''b'', u ''2'')],
     unknown_fields = [], relevance_reason = None, risk_note = None,
     item_citations = [\<lparr>cit_evidence_id = u ''h'', cit_label = Some (u ''L'')\<rparr>],
     item_claims = [\<lparr>claim_text = u ''c'', citation_ids = [u ''h''], support_status = None\<rparr>]\<rparr>"

definition cited_report :: Report where
  "cited_report = \<lparr>rep_run_id = u ''r'',
     generated_at = \<lparr>dt_year = 2026, dt_month = 1, dt_day = 1, dt_hour = 0, dt_minute = 0, dt_second = 0, dt_micro = 0,
       dt_offset = Some 0\<rparr>,
     query_conditions = [], freshness_window = None, source_availability = [], completeness_warning = None,
     rep_items = [cited_item]\<rparr>"

definition empty_reports :: ReportDb where
  "empty_reports = \<lparr>report_rows = [], item_rows = [], citation_rows = [], claim_rows = [], verification_rows = [],
     claim_citation_rows = [], issued = 0\<rparr>"

definition cited_verdict :: ClaimVerification where
  "cited_verdict = \<lparr>cvf_notice_id = u ''v1'', cvf_claim_index = 0, cvf_verification = \<lparr>vf_status = SUPPORTED,
     rationale = u ''ok'', evidence_ids_used = [u ''h''], conflict_evidence_ids = [], verifier_version = u ''v''\<rparr>\<rparr>"

lemma demo_persisted:
  "item_claims item = [\<lparr>claim_text = u ''c'', citation_ids = [u ''h''], support_status = st\<rparr>] \<Longrightarrow>
     item_citations item = item_citations cited_item \<Longrightarrow> item_notice_id item = u ''v1'' \<Longrightarrow>
     rep_items rep = [item] \<Longrightarrow> rep_run_id rep = u ''r'' \<Longrightarrow>
     \<exists>db'. persist_online demo_storage stored_tables [u ''r''] (\<lambda>d. d) stored_index [cited_verdict] rep empty_reports =
       (Inr \<lparr>pr_id = uuid_text 0, pr_report = rep, pr_docx_object_key = None\<rparr>, db')"
  by (simp add: persist_online_def insert_report_def persist_item_def find_report_row_def empty_reports_def
      demo_storage_def stored_tables_def stored_index_def resolve_evidence_def span_of_version_def cited_item_def Let_def
      split: option.splits)

lemma demo_storage_ok:
  "keys_known demo_storage empty_reports" "inj (fresh demo_storage)" "distinct (map evr_id (evidence_rows stored_tables))"
  "find_report_row empty_reports run = None"
  by (simp_all add: keys_known_def empty_reports_def demo_storage_def stored_tables_def find_report_row_def)

lemma cited_item_valid: "claims_valid cited_item"
  by (simp add: claims_valid_def cited_item_def require_citations_def)

section \<open>Properties\<close>

text \<open>C8: A persisted report reads back as it was written: after a report of a new run is accepted,
  loading the run returns it with the same identity, items, claims, citations and labels in order,
  the dictionaries and the timestamp as PostgreSQL keeps them, and every claim with the status of
  its verdict, or its own status when it has none.\<close>

theorem persisted_report_reloads:
  assumes "persist_online stg nt runs others idx vs rep db = (Inr p, db')"
    and "find_report_row db (rep_run_id rep) = None" "find_report_row (others db) (rep_run_id rep) = None"
    and "keys_known stg (others db)" "inj (fresh stg)" "distinct (map evr_id (evidence_rows nt))"
    and "\<forall>i\<in>set (rep_items rep). claims_valid i"
  shows "pr_report p = rep \<and> load_online_report nt db' (rep_run_id rep) =
     Some \<lparr>pr_id = pr_id p, pr_report = stored_report stg vs rep, pr_docx_object_key = None\<rparr>"
proof -
  from assms(1-3) obtain rid where ins: "insert_report stg nt runs idx vs rep (others db) = Inr (rid, db')"
    and p: "p = \<lparr>pr_id = uuid_text rid, pr_report = rep, pr_docx_object_key = None\<rparr>"
    by (auto simp: persist_online_def Let_def split: sum.splits delivery_error.splits)
  from insert_report_projects(1) [OF ins assms(4-7)] p show ?thesis by (auto simp: load_online_report_def)
qed

theorem persisted_report_reloads_witness:
  "\<exists>p db'. persist_online demo_storage stored_tables [u ''r''] (\<lambda>d. d) stored_index [cited_verdict] cited_report empty_reports =
       (Inr p, db') \<and>
     load_online_report stored_tables db' (u ''r'') =
       Some \<lparr>pr_id = uuid_text 0, pr_report = stored_report demo_storage [cited_verdict] cited_report, pr_docx_object_key = None\<rparr>"
proof -
  have run: "rep_run_id cited_report = u ''r''" by (simp add: cited_report_def)
  obtain db' where p: "persist_online demo_storage stored_tables [u ''r''] (\<lambda>d. d) stored_index [cited_verdict] cited_report
      empty_reports = (Inr \<lparr>pr_id = uuid_text 0, pr_report = cited_report, pr_docx_object_key = None\<rparr>, db')"
    using demo_persisted [of cited_item None cited_report] by (auto simp: cited_item_def cited_report_def)
  have "\<forall>i\<in>set (rep_items cited_report). claims_valid i" by (simp add: cited_report_def cited_item_valid)
  from persisted_report_reloads [OF p demo_storage_ok(4,4,1-3) this] p run show ?thesis by auto
qed

text \<open>C9: The report the workflow delivers is the report a later load returns: its claims were stamped
  with the verdicts of the run before, so the stored statuses are the delivered ones, and only the
  dictionaries and the timestamp are what PostgreSQL makes of them.\<close>

theorem workflow_report_reloads:
  assumes "persist_online stg nt runs others idx (claim_verifications s) (delivered_report deps s draft intent) db = (Inr p, db')"
    and "find_report_row db (run_id s) = None" "find_report_row (others db) (run_id s) = None"
    and "keys_known stg (others db)" "inj (fresh stg)" "distinct (map evr_id (evidence_rows nt))"
    and "\<forall>i\<in>set (draft_items draft). claims_valid i"
  shows "load_online_report nt db' (run_id s) =
     Some \<lparr>pr_id = pr_id p, pr_report = postgres_form stg (delivered_report deps s draft intent), pr_docx_object_key = None\<rparr>"
proof -
  let ?rep = "delivered_report deps s draft intent"
  have run: "rep_run_id ?rep = run_id s" by (simp add: delivered_report_def)
  have "\<forall>i\<in>set (rep_items ?rep). claims_valid i"
    using assms(7) claims_valid_stamped by (auto simp: delivered_report_def)
  from insert_report_projects(1) [OF _ assms(4-6) this] assms(1-3)
  have "load_online_report nt db' (run_id s) =
      Some \<lparr>pr_id = pr_id p, pr_report = stored_report stg (claim_verifications s) ?rep, pr_docx_object_key = None\<rparr>"
    by (fastforce simp: persist_online_def load_online_report_def run Let_def split: sum.splits delivery_error.splits)
  then show ?thesis by (simp add: stored_report_stamped delivered_report_def)
qed

theorem workflow_report_reloads_witness:
  "\<exists>s draft p db'. claim_verifications s = [cited_verdict] \<and>
     persist_online demo_storage stored_tables [u ''r''] (\<lambda>d. d) stored_index [cited_verdict]
       (delivered_report (demo_deps 1) s draft (demo_intent 1)) empty_reports = (Inr p, db') \<and>
     load_online_report stored_tables db' (u ''r'') = Some \<lparr>pr_id = pr_id p,
       pr_report = postgres_form demo_storage (delivered_report (demo_deps 1) s draft (demo_intent 1)), pr_docx_object_key = None\<rparr>"
proof -
  define s where "s = (fresh_state (u ''r'') (u ''q''))\<lparr>claim_verifications := [cited_verdict]\<rparr>"
  define draft :: ReportDraft where "draft = \<lparr>draft_items = [cited_item], draft_freshness_window = None,
    draft_source_availability = [], draft_completeness_warning = None, draft_assumptions = []\<rparr>"
  let ?rep = "delivered_report (demo_deps 1) s draft (demo_intent 1)"
  have s: "run_id s = u ''r''" "claim_verifications s = [cited_verdict]" by (simp_all add: s_def fresh_state_def)
  have "\<exists>db'. persist_online demo_storage stored_tables [u ''r''] (\<lambda>d. d) stored_index [cited_verdict] ?rep empty_reports =
      (Inr \<lparr>pr_id = uuid_text 0, pr_report = ?rep, pr_docx_object_key = None\<rparr>, db')"
    by (rule demo_persisted [of "cited_item\<lparr>item_claims := [\<lparr>claim_text = u ''c'', citation_ids = [u ''h''],
        support_status = Some SUPPORTED\<rparr>]\<rparr>" "Some SUPPORTED"])
      (simp_all add: delivered_report_def s draft_def apply_support_status_def cited_item_def stamp_claim_def verdict_for_def
        cited_verdict_def)
  then obtain p db' where p: "persist_online demo_storage stored_tables [u ''r''] (\<lambda>d. d) stored_index (claim_verifications s)
      ?rep empty_reports = (Inr p, db')" using s by auto
  have "\<forall>i\<in>set (draft_items draft). claims_valid i" by (simp add: draft_def cited_item_valid)
  from workflow_report_reloads [OF p demo_storage_ok(4,4,1-3) this] p s show ?thesis by auto
qed

text \<open>A run has one report: after a report of a run was persisted, persisting any report of the same
  run, with any evidence, returns the stored one and leaves the tables as they are.\<close>

theorem persist_once:
  assumes "persist_online stg nt runs others idx vs rep db = (Inr p, db')"
    and "keys_known stg (others db)" "inj (fresh stg)" "distinct (map evr_id (evidence_rows nt))"
    and "\<forall>i\<in>set (rep_items rep). claims_valid i" "rep_run_id rep2 = rep_run_id rep"
  shows "\<exists>q. load_online_report nt db' (rep_run_id rep) = Some q \<and> pr_id q = pr_id p \<and>
     persist_online stg2 nt runs2 others2 idx2 vs2 rep2 db' = (Inr q, db')"
proof -
  have "\<exists>row. find_report_row db' (rep_run_id rep) = Some row \<and> pr_id (project_report nt db' row) = pr_id p"
  proof (cases "find_report_row db (rep_run_id rep)")
    case (Some row)
    with assms(1) show ?thesis by (auto simp: persist_online_def)
  next
    case None
    show ?thesis
    proof (cases "insert_report stg nt runs idx vs rep (others db)")
      case (Inl e)
      with None assms(1) show ?thesis
        by (auto simp: persist_online_def Let_def split: delivery_error.splits option.splits)
    next
      case (Inr r)
      then obtain rid db2 where ins: "insert_report stg nt runs idx vs rep (others db) = Inr (rid, db2)" by (cases r) auto
      with None assms(1) have "db' = db2" "pr_id p = uuid_text rid" by (auto simp: persist_online_def Let_def)
      with insert_report_projects(1) [OF ins assms(2-5)] show ?thesis by auto
    qed
  qed
  then show ?thesis using assms(6) by (auto simp: persist_online_def load_online_report_def)
qed

theorem persist_once_witness:
  "\<exists>p q db'. persist_online demo_storage stored_tables [u ''r''] (\<lambda>d. d) stored_index [cited_verdict] cited_report empty_reports =
       (Inr p, db') \<and>
     persist_online demo_storage stored_tables [] (\<lambda>d. d) [] [] (cited_report\<lparr>rep_items := []\<rparr>) db' = (Inr q, db') \<and> pr_id q = pr_id p"
proof -
  have run: "rep_run_id (cited_report\<lparr>rep_items := []\<rparr>) = rep_run_id cited_report" by (simp add: cited_report_def)
  obtain p db' where p: "persist_online demo_storage stored_tables [u ''r''] (\<lambda>d. d) stored_index [cited_verdict] cited_report
      empty_reports = (Inr p, db')"
    using demo_persisted [of cited_item None cited_report] by (auto simp: cited_item_def cited_report_def)
  have "\<forall>i\<in>set (rep_items cited_report). claims_valid i" by (simp add: cited_report_def cited_item_valid)
  from persist_once [OF p demo_storage_ok(1-3) this run] p show ?thesis by blast
qed

text \<open>Exporting is idempotent: once an export of a report succeeded and no other session touched its
  row meanwhile, the object exists, and a further export returns the same record without
  rendering, uploading or changing anything.\<close>

theorem export_idempotent:
  assumes "export_report local_put local_exists docx others p db fs = (Inr rec, db', fs')"
    and "get_report_row db (pr_id p) = Some row" "rr_docx_object_key row \<noteq> Some []"
    and "get_report_row (others db) (pr_id p) = Some row"
  shows "export_report local_put local_exists docx' others' p db' fs' = (Inr rec, db', fs') \<and>
     local_exists (er_object_key rec) fs' = Inr True"
  by (rule local_objects.export_again [OF assms])

theorem export_idempotent_witness:
  "\<exists>rec db' fs'. export_report local_put local_exists (\<lambda>b. [1]) (\<lambda>d. d)
       \<lparr>pr_id = uuid_text 3, pr_report = cited_report, pr_docx_object_key = None\<rparr>
       (empty_reports\<lparr>report_rows := [\<lparr>rr_id = 3, rr_run_id = u ''r'', rr_export_key = u ''online:r'', rr_conditions = [],
          rr_freshness_window = None, rr_source_availability = [], rr_completeness_warning = None,
          rr_generated_at = generated_at cited_report, rr_docx_object_key = None\<rparr>]\<rparr>)
       \<lparr>fs_files = [], fs_dirs = []\<rparr> = (Inr rec, db', fs') \<and>
     local_exists (er_object_key rec) fs' = Inr True"
proof -
  let ?row = "\<lparr>rr_id = 3, rr_run_id = u ''r'', rr_export_key = u ''online:r'', rr_conditions = [],
          rr_freshness_window = None, rr_source_availability = [], rr_completeness_warning = None,
          rr_generated_at = generated_at cited_report, rr_docx_object_key = None\<rparr>"
  let ?db = "empty_reports\<lparr>report_rows := [?row]\<rparr>"
  let ?p = "\<lparr>pr_id = uuid_text 3, pr_report = cited_report, pr_docx_object_key = None\<rparr>"
  let ?fs = "\<lparr>fs_files = [], fs_dirs = []\<rparr>"
  have row: "get_report_row ?db (pr_id ?p) = Some ?row" by (simp add: get_report_row_def)
  have "resolve_key (object_key (uuid_text 3)) = Inr (object_key_parts 3)" by (rule object_key_resolves)
  then have "\<exists>fs'. local_put (object_key (uuid_text 3)) [1] ?fs = (Inr (), fs')"
    by (simp add: local_put_def is_dir_def is_file_def object_key_parts_def Let_def)
  then obtain fs' where "local_put (object_key (uuid_text 3)) [1] ?fs = (Inr (), fs')" by blast
  with row have "\<exists>rec db' fs'. export_report local_put local_exists (\<lambda>b. [1]) (\<lambda>d. d) ?p ?db ?fs = (Inr rec, db', fs')"
    by (simp add: export_report_def nonempty_def Let_def)
  then obtain rec db' fs' where run: "export_report local_put local_exists (\<lambda>b. [1]) (\<lambda>d. d) ?p ?db ?fs = (Inr rec, db', fs')"
    by blast
  have "rr_docx_object_key ?row \<noteq> Some []" by simp
  from export_idempotent [OF run row this row] run show ?thesis by blast
qed

lemma export_idempotent_s3:
  assumes "export_report (s3_put pre) (s3_exists pre) docx others p db b = (Inr rec, db', b')"
    and "get_report_row db (pr_id p) = Some row" "rr_docx_object_key row \<noteq> Some []"
    and "get_report_row (others db) (pr_id p) = Some row"
  shows "export_report (s3_put pre) (s3_exists pre) docx' others' p db' b' = (Inr rec, db', b')"
  using s3_objects.export_again [OF assms] by simp

end
