(* ===== verification/Composition.thy ===== *)
theory Composition
  imports Import_Properties Delivery_Properties
begin

text \<open>
  Properties that span import, workflow and delivery: a report whose citations the tables hold is
  always persisted, and the evidence a run binds over imported notices is what the tables hold.
\<close>

section \<open>Reports that can be persisted\<close>

definition resolvable :: "NoticeTables \<Rightarrow> evidence_index \<Rightarrow> pystr \<Rightarrow> pystr \<Rightarrow> bool" where
  "resolvable nt idx notice h \<longleftrightarrow> (\<exists>e. resolve_evidence nt idx notice h = Inr e)"










section \<open>Evidence bound over imported notices\<close>

text \<open>\<open>load_notice_views\<close> of the production wiring; an exception of the loader is \<open>None\<close>.\<close>

definition table_loader :: "NoticeTables \<Rightarrow> pystr list \<Rightarrow> (pystr \<times> NoticeView) list option" where
  "table_loader nt ids = (case load_views nt ids of Inl _ \<Rightarrow> None | Inr views \<Rightarrow> Some views)"

definition row_of_span :: "NoticeTables \<Rightarrow> NoticeEvidence \<Rightarrow> bool" where
  "row_of_span nt ev \<longleftrightarrow>
     list_ex (\<lambda>e. evr_notice_version_id e = notice_version_id ev \<and> evr_span_hash e = span_hash ev) (evidence_rows nt)"

definition index_stored :: "NoticeTables \<Rightarrow> evidence_index \<Rightarrow> bool" where
  "index_stored nt idx \<longleftrightarrow>
     (\<forall>h b. map_of idx h = Some b \<longrightarrow> list_all (\<lambda>ev. span_hash ev = h \<and> row_of_span nt ev) (candidates b))"

lemma index_stored_add:
  assumes "index_stored nt idx" "row_of_span nt ev"
  shows "index_stored nt (add_span ev idx)"
  unfolding index_stored_def
proof (intro allI impI)
  fix h b assume b: "map_of (add_span ev idx) h = Some b"
  show "list_all (\<lambda>ev. span_hash ev = h \<and> row_of_span nt ev) (candidates b)"
  proof (cases "h = span_hash ev")
    case True
    then show ?thesis
      using candidates_add_span [of ev idx b] b assms by (auto simp: index_stored_def split: option.splits)
  next
    case False
    then show ?thesis using b assms(1) by (simp add: map_of_add_span index_stored_def)
  qed
qed

lemma index_stored_fold:
  "index_stored nt idx \<Longrightarrow> list_all (row_of_span nt) spans \<Longrightarrow> index_stored nt (foldl (\<lambda>d ev. add_span ev d) idx spans)"
  by (induction spans arbitrary: idx) (simp_all add: index_stored_add)

lemma extracted_spans:
  "extract_from vid source k i snippets = Inr spans \<Longrightarrow> ev \<in> set spans \<Longrightarrow>
     notice_version_id ev = vid \<and> ev_text ev \<in> set snippets \<and> span_hash ev = hash_span (ev_text ev)"
proof (induction vid source k i snippets arbitrary: spans rule: extract_from.induct)
  case (2 vid source k i snippet rest)
  obtain st ss where ok: "snippet \<noteq> []" "py_find source snippet k = Some st"
      "extract_from vid source (st + length snippet) (Suc i) rest = Inr ss"
    and spans: "spans = \<lparr>notice_version_id = vid, ev_text = snippet, ev_start = int st, ev_end = int (st + length snippet),
       span_hash = hash_span snippet\<rparr> # ss"
    using "2.prems"(1) by (auto simp: Let_def bind_res_Inr split: if_splits option.splits)
  show ?case
  proof (cases "ev \<in> set ss")
    case True
    then show ?thesis using "2.IH" [OF ok(1,2) refl ok(3)] by simp
  next
    case False
    then show ?thesis using "2.prems"(2) spans by simp
  qed
qed simp

definition views_of_tables :: "NoticeTables \<Rightarrow> (pystr \<times> NoticeView) list \<Rightarrow> bool" where
  "views_of_tables nt views \<longleftrightarrow>
     (\<forall>vid view. map_of views vid = Some view \<longrightarrow> nv_claim_supporting_texts view = evidence_texts nt vid)"

lemma collect_views_of_tables:
  "collect_views nt vs acc = Inr views \<Longrightarrow> views_of_tables nt acc \<Longrightarrow> views_of_tables nt views"
proof (induction vs arbitrary: acc)
  case (Cons v vs)
  obtain view where view: "graph_notice_view nt v = Inr view" "collect_views nt vs (dict_set (ver_id v) view acc) = Inr views"
    using Cons.prems(1) by (auto simp: bind_res_Inr)
  have "nv_claim_supporting_texts view = evidence_texts nt (ver_id v)"
    using view(1) by (auto simp: graph_notice_view_def make_notice_view_def split: option.splits if_splits)
  then have "views_of_tables nt (dict_set (ver_id v) view acc)"
    using Cons.prems(2) by (auto simp: views_of_tables_def)
  then show ?case using Cons.IH view(2) by blast
qed simp

lemma table_loader_views: "table_loader nt ids = Some views \<Longrightarrow> views_of_tables nt views"
  using collect_views_of_tables [of nt _ "[]" views]
  by (auto simp: table_loader_def load_views_def views_of_tables_def split: sum.splits if_splits)

lemma bind_evidence_stored:
  assumes "views_of_tables nt views" "list_all row_intact (evidence_rows nt)"
  shows "bind_evidence views ids idx verified = Inr (idx', verified') \<Longrightarrow> index_stored nt idx \<Longrightarrow> index_stored nt idx'"
proof (induction ids arbitrary: idx verified)
  case (Cons vid ids)
  show ?case
  proof (cases "map_of views vid")
    case None
    then show ?thesis using Cons by simp
  next
    case (Some view)
    let ?texts = "nv_claim_supporting_texts view"
    obtain spans where spans: "extract_evidence vid (py_join [10] ?texts) ?texts = Inr spans"
      and rest: "bind_evidence views ids (foldl (\<lambda>d ev. add_span ev d) idx spans) (verified @ [opportunity_of vid view spans]) =
        Inr (idx', verified')"
      using Cons.prems(1) Some by (auto simp: Let_def split: sum.splits)
    have texts: "?texts = evidence_texts nt vid" using assms(1) Some by (simp add: views_of_tables_def)
    have "row_of_span nt ev" if "ev \<in> set spans" for ev
    proof -
      have ev: "notice_version_id ev = vid" "ev_text ev \<in> set (evidence_texts nt vid)" "span_hash ev = hash_span (ev_text ev)"
        using extracted_spans [OF spans [unfolded extract_evidence_def] that] texts by simp_all
      then obtain e where "e \<in> set (evidence_rows nt)" "evr_notice_version_id e = vid" "evr_text e = ev_text ev"
        by (auto simp: evidence_texts_def)
      then show ?thesis
        using ev assms(2) by (auto simp: row_of_span_def list_ex_iff list_all_iff row_intact_def hash_span_def)
    qed
    then show ?thesis
      using Cons.IH [OF rest] Cons.prems(2) index_stored_fold by (auto simp: list_all_iff)
  qed
qed simp

lemma index_stored_merge: "index_stored nt a \<Longrightarrow> index_stored nt b \<Longrightarrow> distinct (map fst b) \<Longrightarrow> index_stored nt (merge_dict a b)"
proof -
  have "map_of (merge_dict a b) h = Some x \<Longrightarrow> distinct (map fst b) \<Longrightarrow> map_of b h = Some x \<or> map_of a h = Some x" for h x
    unfolding merge_dict_def
  proof (induction b arbitrary: a)
    case (Cons kv b)
    obtain k v where kv: "kv = (k, v)" by (cases kv)
    have "map_of b h = Some x \<or> map_of (dict_set k v a) h = Some x"
      using Cons.IH [of "dict_set k v a"] Cons.prems kv by simp
    then show ?case using Cons.prems(2) kv by (force split: if_splits)
  qed simp
  then show "index_stored nt a \<Longrightarrow> index_stored nt b \<Longrightarrow> distinct (map fst b) \<Longrightarrow> index_stored nt (merge_dict a b)"
    by (fastforce simp: index_stored_def)
qed

lemma node_evidence_stored:
  assumes "load_notice_views deps = table_loader nt" "list_all row_intact (evidence_rows nt)"
    and "run_node deps n s = (Inr up, d)"
  shows "index_stored nt (up_evidence up) \<and> distinct (map fst (up_evidence up))"
proof (cases "n = Verify_evidence")
  case True
  then obtain views idx verified where b: "load_notice_views deps (candidate_notice_ids s) = Some views"
      "bind_evidence views (candidate_notice_ids s) [] [] = Inr (idx, verified)" "up_evidence up = idx"
    using assms(3) by (auto simp: node_defs bind_res_Inr split: option.splits)
  have "index_stored nt idx"
    using bind_evidence_stored [OF table_loader_views assms(2) b(2)] b(1) assms(1) by (simp add: index_stored_def)
  moreover have "index_intact idx"
    using bind_evidence_indexed [OF b(2)] by simp
  ultimately show ?thesis using b(3) by (simp add: index_intact_def)
next
  case False
  then have "up_evidence up = []"
    using assms(3)
    by (cases n) (auto simp: node_defs route_defs bind_res_Inr Let_def split: sum.splits option.splits if_splits prod.splits port_failure.splits)
  then show ?thesis by (simp add: index_stored_def)
qed

lemma reachable_evidence_stored:
  assumes "reachable deps rid request c" "load_notice_views deps = table_loader nt" "list_all row_intact (evidence_rows nt)"
  shows "index_stored nt (evidence_by_id (run_state c))"
  using assms(1)
proof induction
  case reachable_start
  then show ?case by (simp add: start_def fresh_state_def index_stored_def)
next
  case (reachable_step c c')
  have "index_stored nt (evidence_by_id (run_state (superstep deps n c)))" for n
    using reachable_step.IH index_stored_merge node_evidence_stored [OF assms(2,3), of n "run_state c"]
    by (auto simp: superstep_def Let_def split: prod.split sum.split)
  then show ?case using reachable_step.hyps(2) reachable_step.IH by (auto elim!: graph_stepE)
qed

lemma stored_resolvable:
  assumes "index_stored nt idx" "backed v idx h"
  shows "resolvable nt idx v h \<and> (\<exists>e \<in> set (evidence_rows nt). evr_notice_version_id e = v)"
proof -
  obtain b ev where b: "map_of idx h = Some b" "span_of_version v b = Some ev"
    using assms(2) by (auto simp: backed_def split: option.splits)
  then have "ev \<in> set (candidates b)" "notice_version_id ev = v"
    using span_of_version_SomeD by fastforce+
  then have "list_ex (\<lambda>e. evr_notice_version_id e = v \<and> evr_span_hash e = h) (evidence_rows nt)"
  proof -
    have "list_all (\<lambda>ev. span_hash ev = h \<and> row_of_span nt ev) (candidates b)"
      using assms(1) b(1) by (simp add: index_stored_def)
    then show ?thesis
      using \<open>ev \<in> set (candidates b)\<close> \<open>notice_version_id ev = v\<close> by (auto simp: list_all_iff row_of_span_def)
  qed
  then obtain e where e: "e \<in> set (evidence_rows nt)" "evr_notice_version_id e = v" "evr_span_hash e = h"
    by (auto simp: list_ex_iff)
  then have "sort_key evr_id (filter (\<lambda>e. evr_notice_version_id e = v \<and> evr_span_hash e = h) (evidence_rows nt)) \<noteq> []"
    by (metis (mono_tags, lifting) empty_filter_conv set_empty set_sort)
  then show ?thesis
    using b e by (auto simp: resolvable_def resolve_evidence_def split: list.splits)
qed

section \<open>Properties\<close>

text \<open>C3: When the workflow reads the notices that imports wrote, every citation of every claim of a report it
  delivers resolves at persistence: it is bound to the item's version and the evidence table holds it, and the
  item's version exists as soon as it has a claim.\<close>

theorem delivered_claims_resolve:
  assumes "reachable deps rid request c" "load_notice_views deps = table_loader (notice_tables db)" "import_inv imp db"
    and "d \<in> set (delivered c)" "item \<in> set (rep_items (dl_report d))" "claim \<in> set (item_claims item)"
  shows "citation_ids claim \<noteq> [] \<and> item_notice_id item \<in> ver_id ` set (notice_versions (notice_tables db))
     \<and> list_all (resolvable (notice_tables db) (dl_evidence d) (item_notice_id item)) (citation_ids claim)"
proof -
  let ?nt = "notice_tables db"
  have rows: "list_all row_intact (evidence_rows ?nt)"
    and owners: "\<forall>e \<in> set (evidence_rows ?nt). evr_notice_version_id e \<in> ver_id ` set (notice_versions ?nt)"
    using assms(3) by (auto simp: import_inv_def Let_def list_all_iff)
  have d: "delivery_backed d" "dl_evidence d = evidence_by_id (run_state c)"
    using reachable_run_inv [OF assms(1)] assms(4) by (auto simp: run_inv_def list_all_iff)
  have idx: "index_stored ?nt (dl_evidence d)"
    using reachable_evidence_stored [OF assms(1,2) rows] d(2) by simp
  have cited: "citation_ids claim \<noteq> []" "\<forall>h \<in> set (citation_ids claim). backed (item_notice_id item) (dl_evidence d) h"
    using d(1) assms(5,6) by (auto simp: delivery_backed_def report_backed_def claim_backed_def list_all_iff)
  then have "backed (item_notice_id item) (dl_evidence d) (hd (citation_ids claim))" by simp
  then have "item_notice_id item \<in> ver_id ` set (notice_versions ?nt)"
    using stored_resolvable [OF idx] owners by metis
  then show ?thesis
    using cited stored_resolvable [OF idx] by (simp add: list_all_iff)
qed


section \<open>Witnesses\<close>



text \<open>One imported notice whose only evidence is its title.\<close>

definition imported_version :: NoticeVersion where
  "imported_version = \<lparr>ver_id = u ''v1'', ver_source_notice_id = u ''n1'', ver_content_hash = u ''c'', ver_title = Some (u ''t''),
     ver_purchaser = None, ver_region = None, ver_deadline = None, ver_budget_minor_units = None, ver_budget_currency = None,
     ver_cancellation = False, ver_created_at = 0, ver_payload_object_key = u ''o'', ver_capture_kind = CaptureKind.SYNTHETIC_DEMO,
     ver_parser_version = u ''p'', ver_publish_date = None, ver_summary = None, ver_raw_fields = []\<rparr>"

definition imported_tables :: "pystr \<Rightarrow> NoticeTables" where
  "imported_tables h = \<lparr>source_notices = [], notice_versions = [imported_version\<lparr>ver_content_hash := h\<rparr>],
     evidence_rows = [\<lparr>evr_id = 0, evr_notice_version_id = u ''v1'', evr_text = u ''t'', evr_start = 0, evr_end = 1,
       evr_span_hash = sha256_hex (u ''t'')\<rparr>]\<rparr>"

definition imported_view :: "pystr \<Rightarrow> NoticeView" where
  "imported_view h = \<lparr>nv_source = u ''synthetic_demo'', nv_external_id = u ''v1'', nv_canonical_url = u ''https://example.invalid/v1'',
     nv_project_number = None, nv_content_hash = h, nv_title = Some (u ''t''), nv_purchaser = None, nv_region = None,
     nv_budget_minor_units = None, nv_budget_currency = None, nv_deadline = None, nv_procurement_scope = None,
     nv_cancellation = False, nv_claim_supporting_texts = [u ''t'']\<rparr>"

definition one_key :: import_env where
  "one_key = demo_import\<lparr>key_text := \<lambda>_. u ''v1''\<rparr>"

definition imported_db :: ImportDb where
  "imported_db = no_tables\<lparr>notice_tables := imported_tables (content_hash one_key demo_notice), drawn := 1\<rparr>"

definition imported_deps :: "pystr \<Rightarrow> GraphDeps" where
  "imported_deps h = (demo_deps 1)\<lparr>load_notice_views := table_loader (imported_tables h)\<rparr>"

lemma imported_inv: "import_inv one_key imported_db"
  by (simp add: import_inv_def imported_db_def no_tables_def imported_tables_def imported_version_def one_key_def row_intact_def
      rows_of_def exI [of _ demo_notice] copy_of_def demo_notice_def evidence_fields_def opt_list_def Let_def)

lemma imported_loader:
  "table_loader (imported_tables h) ids = Some (if u ''v1'' \<in> set ids then [(u ''v1'', imported_view h)] else [])"
  by (auto simp: table_loader_def load_views_def imported_tables_def imported_version_def graph_notice_view_def
      make_notice_view_def imported_view_def evidence_texts_def dict_set.simps)

lemma imported_healthy: "healthy (imported_deps h) (u ''q'') (demo_intent 1)"
proof -
  have "load_notice_views (imported_deps h) ids = Some (if u ''v1'' \<in> set ids then [(u ''v1'', imported_view h)] else [])" for ids
    using imported_loader by (simp add: imported_deps_def)
  moreover have "\<exists>gs. pair_groups (imported_deps h) (if b then [(u ''v1'', imported_view h)] else []) st = Inr gs" for b st
    by (cases st) (simp add: pair_groups_def)
  moreover have "\<forall>t \<in> set (nv_claim_supporting_texts (imported_view h)). t \<noteq> []"
    by (simp add: imported_view_def)
  ultimately have "\<exists>views. load_notice_views (imported_deps h) ids = Some views \<and>
      list_all (\<lambda>(vid, view). list_all (\<lambda>t. t \<noteq> []) (nv_claim_supporting_texts view)) views \<and>
      (\<forall>st. \<exists>gs. pair_groups (imported_deps h) views st = Inr gs)" for ids
    by (auto simp: list_all_iff simp del: u_Cons)
  moreover have "parse_attempts (imported_deps h) (u ''q'') 0 (MAX_MODEL_RETRIES + 1) [] = Inr (demo_intent 1, None)"
    by (simp add: demo_deps_def imported_deps_def)
  ultimately show ?thesis unfolding healthy_def
    by (simp add: imported_deps_def demo_deps_def demo_intent_def intent_errors_def dates_inverted_def
      budget_inverted_def needs_confirmation_def fake_synthesize_def)
qed

lemma imported_run:
  "\<exists>c. reachable (imported_deps h) rid (u ''q'') c \<and> length (delivered c) = 1"
proof -
  obtain c where c: "settled c" "reachable (imported_deps h) rid (u ''q'') c"
    using run_workflow_reachable [of "imported_deps h" rid "u ''q''"] by blast
  have "report_synthesize (imported_deps h) = fake_synthesize" by (simp add: imported_deps_def demo_deps_def)
  from healthy_on_course [OF imported_healthy this c(2)] c reachable_run_inv [OF c(2)] show ?thesis
    by (auto simp: on_course_def settled_def run_inv_def split: phase.splits)
qed

theorem delivered_claims_resolve_witness:
  "\<exists>c. reachable (imported_deps (content_hash one_key demo_notice)) (u ''r'') (u ''q'') c \<and> length (delivered c) = 1 \<and>
     list_all (\<lambda>d. list_all (\<lambda>item. list_all (\<lambda>claim. citation_ids claim \<noteq> [] \<and>
         item_notice_id item \<in> ver_id ` set (notice_versions (notice_tables imported_db)) \<and>
         list_all (resolvable (notice_tables imported_db) (dl_evidence d) (item_notice_id item)) (citation_ids claim))
       (item_claims item)) (rep_items (dl_report d))) (delivered c)"
proof -
  obtain c where c: "reachable (imported_deps (content_hash one_key demo_notice)) (u ''r'') (u ''q'') c" "length (delivered c) = 1"
    using imported_run by blast
  have "load_notice_views (imported_deps (content_hash one_key demo_notice)) = table_loader (notice_tables imported_db)"
    by (simp add: imported_deps_def imported_db_def)
  note claims = delivered_claims_resolve [OF c(1) this imported_inv]
  have "list_all (\<lambda>d. list_all (\<lambda>item. list_all (\<lambda>claim. citation_ids claim \<noteq> [] \<and>
         item_notice_id item \<in> ver_id ` set (notice_versions (notice_tables imported_db)) \<and>
         list_all (resolvable (notice_tables imported_db) (dl_evidence d) (item_notice_id item)) (citation_ids claim))
       (item_claims item)) (rep_items (dl_report d))) (delivered c)"
    unfolding list_all_iff using claims [unfolded list_all_iff] by blast
  then show ?thesis using c by blast
qed

end
