(* ===== verification/Floats.thy ===== *)
theory Floats
  imports Prelude
begin

text \<open>
  IEEE 754 binary64, as Python's \<open>float\<close> computes it on non-negative values: the correctly rounded
  double of an exact rational (ties to even, subnormals, \<open>None\<close> for infinity) and \<open>round\<close>.
\<close>

definition round_half_even :: "rat \<Rightarrow> int" where
  "round_half_even q =
     (let f = \<lfloor>q\<rfloor>; d = q - of_int f
      in if d < 1 / 2 then f else if 1 / 2 < d then f + 1 else if even f then f else f + 1)"

fun ilog2 :: "nat \<Rightarrow> nat" where
  "ilog2 n = (if n < 2 then 0 else Suc (ilog2 (n div 2)))"

declare ilog2.simps [simp del]

definition pow2 :: "int \<Rightarrow> rat" where
  "pow2 e = (if 0 \<le> e then 2 ^ nat e else 1 / 2 ^ nat (- e))"

definition exponent :: "rat \<Rightarrow> int" where
  "exponent q =
     (if 1 \<le> q then int (ilog2 (nat \<lfloor>q\<rfloor>))
      else (let k = ilog2 (nat \<lfloor>1 / q\<rfloor>) in if 2 ^ k * q = 1 then - int k else - int k - 1))"

definition double :: "rat \<Rightarrow> rat option" where
  "double q =
     (if q = 0 then Some 0
      else (let ulp = pow2 (max (exponent q - 52) (- 1074));
                v = of_int (round_half_even (q / ulp)) * ulp
            in if v < 2 ^ 1024 then Some v else None))"

section \<open>Rounding\<close>

lemma round_half_even_error: "\<bar>of_int (round_half_even q) - q\<bar> \<le> 1 / 2"
proof -
  have "of_int \<lfloor>q\<rfloor> \<le> q" "q < of_int \<lfloor>q\<rfloor> + 1" by linarith+
  then show ?thesis by (simp add: round_half_even_def Let_def abs_le_iff)
qed

lemma round_half_even_near:
  assumes "\<bar>q - of_int n\<bar> < 1 / 2"
  shows "round_half_even q = n"
proof -
  have "\<bar>of_int (round_half_even q) - (of_int n :: rat)\<bar> < 1"
    using round_half_even_error [of q] assms by linarith
  then show ?thesis by linarith
qed

lemma pow2_pos [simp]: "0 < pow2 e"
  by (simp add: pow2_def)

lemma pow2_powi: "pow2 e = 2 powi e"
  by (simp add: pow2_def power_int_def field_simps)

lemma pow2_add: "pow2 (a + b) = pow2 a * pow2 b"
  by (simp add: pow2_powi power_int_add)

lemma pow2_mono: "a \<le> b \<Longrightarrow> pow2 a \<le> pow2 b"
  by (simp add: pow2_powi power_int_increasing)

lemma of_nat_pow2_le: "2 ^ k \<le> n \<Longrightarrow> (2 :: rat) ^ k \<le> of_nat n"
  by (metis of_nat_le_iff of_nat_numeral of_nat_power)

lemma of_nat_pow2_ge: "n \<le> 2 ^ k \<Longrightarrow> of_nat n \<le> (2 :: rat) ^ k"
  by (metis of_nat_le_iff of_nat_numeral of_nat_power)

lemma ilog2_bounds: "0 < n \<Longrightarrow> 2 ^ ilog2 n \<le> n \<and> n < 2 ^ Suc (ilog2 n)"
proof (induction n rule: ilog2.induct)
  case (1 n)
  show ?case
  proof (cases "n < 2")
    case True
    then show ?thesis using 1(2) by (simp add: ilog2.simps [of n])
  next
    case False
    then have "2 ^ ilog2 (n div 2) \<le> n div 2" "n div 2 < 2 ^ Suc (ilog2 (n div 2))"
      using 1(1) by simp_all
    then show ?thesis using False by (simp add: ilog2.simps [of n]) linarith
  qed
qed

lemma exponent_bounds:
  assumes "0 < q"
  shows "pow2 (exponent q) \<le> q \<and> q < pow2 (exponent q + 1)"
proof (cases "1 \<le> q")
  case True
  define n where "n = nat \<lfloor>q\<rfloor>"
  have n: "of_nat n \<le> q" "q < of_nat n + 1" "0 < n"
    using True by (simp_all add: n_def) linarith+
  have b: "2 ^ ilog2 n \<le> n" "n + 1 \<le> 2 ^ Suc (ilog2 n)" using ilog2_bounds [OF n(3)] by simp_all
  have "(2 :: rat) ^ ilog2 n \<le> q" using of_nat_pow2_le [OF b(1)] n(1) by linarith
  moreover have "q < (2 :: rat) ^ Suc (ilog2 n)" using of_nat_pow2_ge [OF b(2)] n(2) by simp
  moreover have "exponent q = int (ilog2 n)" using True by (simp add: exponent_def n_def)
  moreover have "pow2 (int k) = 2 ^ k" for k by (simp add: pow2_def)
  moreover have "pow2 (int k + 1) = 2 ^ Suc k" for k
    using \<open>\<And>k. pow2 (int k) = 2 ^ k\<close> [of "Suc k"] by (simp add: add.commute)
  ultimately show ?thesis by metis
next
  case False
  define r where "r = 1 / q"
  define n where "n = nat \<lfloor>r\<rfloor>"
  define k where "k = ilog2 n"
  have r: "1 \<le> r" "q = 1 / r" using False assms by (simp_all add: r_def)
  have n: "of_nat n \<le> r" "r < of_nat n + 1" "0 < n"
    using r(1) by (simp_all add: n_def) linarith+
  have b: "2 ^ k \<le> n" "n + 1 \<le> 2 ^ Suc k" using ilog2_bounds [OF n(3)] by (simp_all add: k_def)
  have lo: "(2 :: rat) ^ k \<le> r" using of_nat_pow2_le [OF b(1)] n(1) by linarith
  have hi: "r < 2 * 2 ^ k" using of_nat_pow2_ge [OF b(2)] n(2) by simp
  have neg: "pow2 (- int j) = 1 / 2 ^ j" for j by (simp add: pow2_powi power_int_minus field_simps)
  have e: "exponent q = (if 2 ^ k * q = 1 then - int k else - int k - 1)"
    using False by (simp add: exponent_def k_def n_def r_def Let_def)
  show ?thesis
  proof (cases "2 ^ k * q = 1")
    case True
    then have q: "q = 1 / 2 ^ k" by (simp add: field_simps)
    have "pow2 (- int k + 1) = pow2 (- int k) * 2"
      using pow2_add [of "- int k" 1] by (simp add: pow2_def)
    then show ?thesis using q True e neg [of k] by (simp add: divide_strict_right_mono)
  next
    case F: False
    have "- int k - 1 = - int (Suc k)" by simp
    then have "pow2 (- int k - 1) = 1 / (2 * 2 ^ k)" using neg [of "Suc k"] by (simp only: power_Suc)
    moreover have "1 / (2 * 2 ^ k) \<le> q" unfolding r(2) using hi r(1) by (intro divide_left_mono) simp_all
    moreover have "q < 1 / 2 ^ k"
    proof -
      have "r \<noteq> 2 ^ k" using F r by auto
      then have "2 ^ k < r" using lo by simp
      then show ?thesis unfolding r(2) using r(1) by (intro divide_strict_left_mono) simp_all
    qed
    ultimately show ?thesis using F e neg [of k] by simp
  qed
qed

text \<open>The relative error of a rounding in the normal range.\<close>

lemma double_error:
  assumes "pow2 (- 1022) \<le> q" "q \<le> 2 ^ 1000"
  shows "\<exists>v. double q = Some v \<and> \<bar>v - q\<bar> \<le> q / 2 ^ 53"
proof -
  have q: "0 < q" using assms(1) pow2_pos [of "- 1022"] by linarith
  note e = exponent_bounds [OF q]
  have lo: "- 1022 \<le> exponent q"
  proof (rule ccontr)
    assume "\<not> ?thesis"
    then have "pow2 (exponent q + 1) \<le> pow2 (- 1022)" by (intro pow2_mono) simp
    then show False using e assms(1) by linarith
  qed
  define ulp where "ulp = pow2 (exponent q - 52)"
  have ulp: "0 < ulp" "pow2 (max (exponent q - 52) (- 1074)) = ulp"
    using lo by (simp_all only: ulp_def pow2_pos max_absorb1 [of "- 1074" "exponent q - 52"])
  define v where "v = of_int (round_half_even (q / ulp)) * ulp"
  have "v - q = (of_int (round_half_even (q / ulp)) - q / ulp) * ulp"
    using ulp(1) by (simp add: v_def field_simps)
  then have "\<bar>v - q\<bar> = \<bar>of_int (round_half_even (q / ulp)) - q / ulp\<bar> * ulp"
    using ulp(1) by (simp add: abs_mult)
  also have "\<dots> \<le> 1 / 2 * ulp"
    using round_half_even_error ulp(1) by (intro mult_right_mono) simp_all
  also have "\<dots> = pow2 (exponent q) / 2 ^ 53"
    using pow2_add [of "exponent q - 52" 52] by (simp add: ulp_def pow2_def [of 52])
  also have "\<dots> \<le> q / 2 ^ 53" using e by (simp add: divide_right_mono)
  finally have err: "\<bar>v - q\<bar> \<le> q / 2 ^ 53" .
  have "q / 2 ^ 53 \<le> q" using q by simp
  then have "v \<le> 2 * q" using err by linarith
  also have "\<dots> \<le> 2 * 2 ^ 1000" using assms(2) by simp
  also have "\<dots> < (2 :: rat) ^ 1024" by simp
  finally have "double q = Some v" using q ulp(2) by (simp add: double_def v_def Let_def)
  then show ?thesis using err by blast
qed

end
