(* ===== verification/Parsers.thy ===== *)
theory Parsers
  imports Importer Semantic Floats
begin

text \<open>
  The source adapters (\<open>snapshots/_parse.py\<close>, \<open>snapshots/ccgp.py\<close>, \<open>snapshots/ggzy.py\<close>, \<open>snapshots/demo.py\<close>):
  text-level normalisation, money and time parsing, and the parse of a bundle into notices.  The HTML
  parser is third-party code: a page is what the adapter's selectors find in it.
\<close>

section \<open>Text, time and money (_parse.py)\<close>

text \<open>\<open>ParseDrift\<close>, a validation error of pydantic, and every other exception.\<close>

datatype parse_error = Drift | Validation_failed | Other_exception

fun collapse_ws :: "bool \<Rightarrow> pystr \<Rightarrow> pystr" where
  "collapse_ws after_space [] = []"
| "collapse_ws after_space (c # s) =
     (if py_isspace c then (if after_space then [] else [32]) @ collapse_ws True s
      else c # collapse_ws False s)"

definition normalize_whitespace :: "pystr option \<Rightarrow> pystr option" where
  "normalize_whitespace t =
     (case t of None \<Rightarrow> None
      | Some s \<Rightarrow> (let cleaned = py_strip (collapse_ws False s) in if cleaned = [] then None else Some cleaned))"

definition CHN_TZ :: int where "CHN_TZ = 8 * 3600 * 1000000"
definition YEAR_SIGN :: nat where "YEAR_SIGN = 24180"
definition MONTH_SIGN :: nat where "MONTH_SIGN = 26376"
definition DAY_SIGN :: nat where "DAY_SIGN = 26085"

text \<open>\<open>\d{w}\<close> at the front: the digits' value and the rest; \<open>\d{1,2}\<close> takes two digits when it can.\<close>

definition read_width :: "nat \<Rightarrow> pystr \<Rightarrow> (nat \<times> pystr) option" where
  "read_width w s =
     (if length (takeWhile is_digit (take w s)) = w then Some (digits_value 0 (take w s), drop w s) else None)"

definition read_one_or_two :: "pystr \<Rightarrow> (nat \<times> pystr) option" where
  "read_one_or_two s = (case read_width 2 s of Some r \<Rightarrow> Some r | None \<Rightarrow> read_width 1 s)"

definition eat :: "nat \<Rightarrow> pystr \<Rightarrow> pystr option" where
  "eat c s = (case s of d # r \<Rightarrow> if d = c then Some r else None | [] \<Rightarrow> None)"

text \<open>\<open>_ISO_RE\<close>, which any Unicode digit satisfies.\<close>

definition iso_match :: "pystr \<Rightarrow> bool" where
  "iso_match s \<longleftrightarrow>
     19 \<le> length s \<and> list_all is_digit (map (\<lambda>i. s ! i) [0, 1, 2, 3, 5, 6, 8, 9, 11, 12, 14, 15, 17, 18])
     \<and> s ! 4 = 45 \<and> s ! 7 = 45 \<and> (s ! 10 = 84 \<or> s ! 10 = 32) \<and> s ! 13 = 58 \<and> s ! 16 = 58"

text \<open>
  \<open>datetime.fromisoformat\<close> on such a text, in the documented formats: a fraction of any length after a dot
  or a comma is cut to microseconds, a zone is \<open>Z\<close> or an offset with or without colons.
\<close>

definition ascii_digit :: "nat \<Rightarrow> bool" where
  "ascii_digit c \<longleftrightarrow> 48 \<le> c \<and> c \<le> 57"

definition iso_fraction :: "pystr \<Rightarrow> (int \<times> pystr) option" where
  "iso_fraction s =
     (case s of
        [] \<Rightarrow> Some (0, [])
      | c # r \<Rightarrow>
          if c = 46 \<or> c = 44
          then (let ds = takeWhile ascii_digit r
                in if ds = [] then None
                   else Some (int (digits_value 0 (take 6 (ds @ replicate 6 48))), dropWhile ascii_digit r))
          else Some (0, s))"

text \<open>The parts of an offset after its hours; \<open>colon\<close> tells whether they are separated.\<close>

definition iso_seconds :: "bool \<Rightarrow> pystr \<Rightarrow> (int \<times> int) option" where
  "iso_seconds colon s =
     (if s = [] then Some (0, 0)
      else Option.bind (if colon then eat 58 s else Some s) (\<lambda>s.
        Option.bind (read_last 2 s) (\<lambda>(sec, s).
        Option.bind (iso_fraction s) (\<lambda>(us, s). if s = [] then Some (sec, us) else None))))"

definition iso_minutes :: "pystr \<Rightarrow> (int \<times> int \<times> int) option" where
  "iso_minutes s =
     (if s = [] then Some (0, 0, 0)
      else (let colon = hd s = 58 in
        Option.bind (read_last 2 (if colon then tl s else s)) (\<lambda>(m, s).
          map_option (\<lambda>(sec, us). (m, sec, us)) (iso_seconds colon s))))"

definition iso_zone :: "pystr \<Rightarrow> int option option" where
  "iso_zone s =
     (case s of
        [] \<Rightarrow> Some None
      | c # r \<Rightarrow>
          if c = 90 then (if r = [] then Some (Some 0) else None)
          else if c = 43 \<or> c = 45
          then Option.bind (read_last 2 r) (\<lambda>(h, r).
            Option.bind (iso_minutes r) (\<lambda>(m, sec, us).
              (let v = ((h * 60 + m) * 60 + sec) * 1000000 + us
               in if v < 86400000000 then Some (Some (if c = 45 then - v else v)) else None)))
          else None)"

definition iso_datetime :: "pystr \<Rightarrow> datetime option" where
  "iso_datetime s =
     Option.bind (read_field 4 45 s) (\<lambda>(y, s).
     Option.bind (read_field 2 45 s) (\<lambda>(mo, s).
     Option.bind (read_last 2 s) (\<lambda>(d, s).
     Option.bind (read_field 2 58 (tl s)) (\<lambda>(h, s).
     Option.bind (read_field 2 58 s) (\<lambda>(mi, s).
     Option.bind (read_last 2 s) (\<lambda>(sec, s).
     Option.bind (iso_fraction s) (\<lambda>(us, s).
     Option.bind (iso_zone s) (\<lambda>off.
       (let t = \<lparr>dt_year = y, dt_month = mo, dt_day = d, dt_hour = h, dt_minute = mi,
                 dt_second = sec, dt_micro = us, dt_offset = off\<rparr>
        in if valid_datetime t then Some t else None)))))))))"

text \<open>\<open>_CHINESE_DT_RE\<close>; the clock part is optional and nothing needs to follow it.\<close>

definition chinese_clock :: "pystr \<Rightarrow> nat \<times> nat \<times> nat" where
  "chinese_clock s =
     (case Option.bind (read_one_or_two (dropWhile py_isspace s)) (\<lambda>(h, s).
           Option.bind (eat 58 s) (\<lambda>s. map_option (\<lambda>(m, s). (h, m, s)) (read_width 2 s))) of
        None \<Rightarrow> (0, 0, 0)
      | Some (h, m, s) \<Rightarrow>
          (h, m, case Option.bind (eat 58 s) (read_width 2) of None \<Rightarrow> 0 | Some (sec, _) \<Rightarrow> sec))"

definition chinese_match :: "pystr \<Rightarrow> datetime option" where
  "chinese_match s =
     Option.bind (read_width 4 s) (\<lambda>(y, s).
     Option.bind (eat YEAR_SIGN s) (\<lambda>s.
     Option.bind (read_one_or_two s) (\<lambda>(mo, s).
     Option.bind (eat MONTH_SIGN s) (\<lambda>s.
     Option.bind (read_one_or_two s) (\<lambda>(d, s).
     Option.bind (eat DAY_SIGN s) (\<lambda>s.
       (case chinese_clock s of (h, m, sec) \<Rightarrow>
         Some \<lparr>dt_year = int y, dt_month = int mo, dt_day = int d, dt_hour = int h, dt_minute = int m,
              dt_second = int sec, dt_micro = 0, dt_offset = Some CHN_TZ\<rparr>)))))))"

definition parse_datetime :: "pystr option \<Rightarrow> parse_error + datetime option" where
  "parse_datetime raw =
     (case raw of None \<Rightarrow> Inr None
      | Some r \<Rightarrow>
          (let s = py_strip r
           in if s = [] then Inr None
              else if iso_match s then (case iso_datetime s of None \<Rightarrow> Inl Other_exception | Some t \<Rightarrow> Inr (Some t))
              else (case chinese_match s of
                      None \<Rightarrow> Inr None
                    | Some t \<Rightarrow> if valid_datetime t then Inr (Some t) else Inl Other_exception)))"

text \<open>
  \<open>_CURRENCY_RE.search\<close>: the first run of ASCII digits, a fraction if a digit follows the dot, and a
  unit if one follows the spaces.  A product of floats is rounded again; an infinite amount cannot be
  converted to an integer.
\<close>

definition money_number :: "pystr \<Rightarrow> (rat \<times> pystr) option" where
  "money_number text =
     (let s = dropWhile (\<lambda>c. \<not> ascii_digit c) text;
          ip = takeWhile ascii_digit s;
          r = dropWhile ascii_digit s
      in if ip = [] then None
         else (case r of
                 [] \<Rightarrow> Some (of_nat (digits_value 0 ip), r)
               | c # cs \<Rightarrow>
                   (let fp = takeWhile ascii_digit cs
                    in if c = 46 \<and> fp \<noteq> []
                       then Some (of_nat (digits_value 0 ip) + of_nat (digits_value 0 fp) / 10 ^ length fp,
                                  dropWhile ascii_digit cs)
                       else Some (of_nat (digits_value 0 ip), r))))"

definition money_unit :: "pystr \<Rightarrow> rat option" where
  "money_unit rest =
     (case dropWhile py_isspace rest of
        [] \<Rightarrow> None
      | c # _ \<Rightarrow> if c = WAN then Some 10000 else if c = YI then Some 100000000 else None)"

definition float_times :: "rat option \<Rightarrow> rat \<Rightarrow> rat option" where
  "float_times x y = Option.bind x (\<lambda>v. double (v * y))"

definition parse_money :: "pystr option \<Rightarrow> parse_error + Money option" where
  "parse_money raw =
     (case raw of None \<Rightarrow> Inr None
      | Some r \<Rightarrow>
          (let text = py_strip r
           in if text = [] then Inr None
              else (case money_number text of
                      None \<Rightarrow> Inr None
                    | Some (q, rest) \<Rightarrow>
                        (let v = double q;
                             yuan = (case money_unit rest of None \<Rightarrow> v | Some m \<Rightarrow> float_times v m)
                         in case float_times yuan 100 of
                              None \<Rightarrow> Inl Other_exception
                            | Some fen \<Rightarrow>
                                Inr (Some \<lparr>minor_units = round_half_even fen, currency = u ''CNY'', raw_text = Some text\<rparr>)))))"

text \<open>\<open>FIELD_RULES\<close>: the first rule one of whose words occurs in the label names the field.\<close>

definition FIELD_RULES :: "(pystr list \<times> string) list" where
  "FIELD_RULES =
     [([[39033, 30446, 32534, 21495]], ''external_id''), ([[37319, 36141, 20154]], ''purchaser''),
      ([[22320, 21306]], ''region''), ([[39044, 31639]], ''budget''),
      ([[21457, 24067], [20844, 21578]], ''publish_time''), ([[25130, 27490]], ''deadline'')]"

definition map_field :: "pystr \<Rightarrow> string option" where
  "map_field label =
     map_option snd (find (\<lambda>(words, field). list_ex (\<lambda>w. py_contains w label) words) FIELD_RULES)"

definition CANCELLATION_WORDS :: "pystr list" where
  "CANCELLATION_WORDS =
     [u ''withdrawn'', u ''withdrawal'', u ''cancelled'', u ''canceled'', [25764, 22238], [21462, 28040], u ''true'', u ''1'']"

definition cancellation_word :: "(pystr \<Rightarrow> pystr) \<Rightarrow> pystr \<Rightarrow> bool" where
  "cancellation_word casefold s \<longleftrightarrow> casefold (py_strip s) \<in> set CANCELLATION_WORDS"

definition parse_cancellation :: "(pystr \<Rightarrow> pystr) \<Rightarrow> jvalue \<Rightarrow> bool" where
  "parse_cancellation casefold v =
     (case v of
        JBool b \<Rightarrow> b
      | JInt n \<Rightarrow> n = 1
      | JFloat x \<Rightarrow> x = 1
      | JString s \<Rightarrow> cancellation_word casefold s
      | _ \<Rightarrow> False)"

text \<open>The normalised fields of a record: absent, \<open>None\<close> or text, and one cancellation value.\<close>

type_synonym field_dict = "(string \<times> jvalue) list"

definition text_field :: "field_dict \<Rightarrow> string \<Rightarrow> pystr option" where
  "text_field fs k = (case map_of fs k of Some (JString s) \<Rightarrow> Some s | _ \<Rightarrow> None)"

definition opt_json :: "pystr option \<Rightarrow> jvalue" where
  "opt_json t = (case t of None \<Rightarrow> JNull | Some s \<Rightarrow> JString s)"

text \<open>\<open>build_notice\<close>; an amount that was not understood stays in the raw fields.\<close>

definition build_notice ::
  "(pystr \<Rightarrow> pystr) \<Rightarrow> SourceName \<Rightarrow> CaptureKind \<Rightarrow> pystr \<Rightarrow> HttpUrl \<Rightarrow> field_dict \<Rightarrow> jobject \<Rightarrow>
     parse_error + NormalizedNotice" where
  "build_notice casefold source kind parser_version url fs extra =
     bind_res (parse_money (text_field fs ''budget'')) (\<lambda>budget.
     let raw_budget = text_field fs ''budget'';
         raw0 = (if budget = None then (case raw_budget of
                   None \<Rightarrow> [] | Some s \<Rightarrow> if s = [] then [] else [(u ''budget_text'', JString s)]) else []);
         raw_fields = fold (\<lambda>(k, v). dict_set k v) extra raw0
     in bind_res (parse_datetime (text_field fs ''publish_time'')) (\<lambda>published.
        bind_res (parse_datetime (text_field fs ''deadline'')) (\<lambda>closes.
          case make_notice
            \<lparr>nn_source = source,
             nn_external_id = (case text_field fs ''external_id'' of None \<Rightarrow> [] | Some s \<Rightarrow> s),
             nn_source_url = url, nn_capture_kind = kind,
             nn_title = normalize_whitespace (text_field fs ''title''),
             nn_purchaser = normalize_whitespace (text_field fs ''purchaser''),
             nn_region = normalize_whitespace (text_field fs ''region''),
             nn_publish_time = published, nn_deadline = closes, nn_budget = budget, nn_summary = None,
             nn_cancellation = parse_cancellation casefold
               (case map_of fs ''cancellation'' of None \<Rightarrow> JNull | Some v \<Rightarrow> v),
             nn_parser_version = parser_version, nn_raw_fields = raw_fields\<rparr> of
            Inl _ \<Rightarrow> Inl Validation_failed
          | Inr n \<Rightarrow> Inr n)))"

section \<open>Adapters\<close>

text \<open>
  A page as the adapter's selectors see it: the text of the title node and of the label and value nodes of
  every row.  \<open>read_page\<close> decodes and parses the file for the selectors of a source; \<open>http_url\<close> is pydantic's
  URL parser, \<open>float_text\<close> and \<open>any_text\<close> are \<open>str\<close> of a float and of a nested value.
\<close>

record html_page =
  page_title :: "pystr option"
  page_rows :: "(pystr option \<times> pystr option) list"

record parse_env =
  pe_bundle :: bundle_env
  pe_links :: "pystr list \<Rightarrow> pystr list option"
  read_page :: "SourceName \<Rightarrow> bytes \<Rightarrow> html_page option"
  http_url :: "pystr \<Rightarrow> HttpUrl option"
  float_text :: "rat \<Rightarrow> pystr"
  any_text :: "jvalue \<Rightarrow> pystr"

definition bundle_file :: "directory \<Rightarrow> string \<Rightarrow> bytes option" where
  "bundle_file dir name = (case map_of dir [u name] of Some (File d) \<Rightarrow> d | _ \<Rightarrow> None)"

text \<open>\<open>load_manifest\<close>.\<close>

definition load_manifest :: "bundle_env \<Rightarrow> directory \<Rightarrow> parse_error + SnapshotManifest" where
  "load_manifest env dir =
     (case bundle_file dir ''manifest.json'' of
        None \<Rightarrow> Inl Other_exception
      | Some data \<Rightarrow>
          (case be_decode env data of
             Some (JObject raw) \<Rightarrow>
               (case validate_manifest env raw of Inl _ \<Rightarrow> Inl Other_exception | Inr m \<Rightarrow> Inr m)
           | _ \<Rightarrow> Inl Other_exception))"

text \<open>The label and value rows of a page; a later row of the same field wins.\<close>

definition row_field :: "pystr option \<times> pystr option \<Rightarrow> field_dict \<Rightarrow> field_dict" where
  "row_field row fs =
     (case row of
        (Some label_text, Some value_text) \<Rightarrow>
          (case (normalize_whitespace (Some label_text), normalize_whitespace (Some value_text)) of
             (Some label, Some value) \<Rightarrow>
               (case map_field label of None \<Rightarrow> fs | Some f \<Rightarrow> dict_set f (JString value) fs)
           | _ \<Rightarrow> fs)
      | _ \<Rightarrow> fs)"

definition html_parser_version :: "SourceName \<Rightarrow> pystr" where
  "html_parser_version source = (case source of CCGP \<Rightarrow> u ''ccgp-v1'' | _ \<Rightarrow> u ''ggzy-v1'')"

definition parse_html :: "parse_env \<Rightarrow> SourceName \<Rightarrow> directory \<Rightarrow> SnapshotManifest \<Rightarrow> parse_error + NormalizedNotice list" where
  "parse_html env source dir m =
     (case Option.bind (bundle_file dir ''detail.html'') (read_page env source) of
        None \<Rightarrow> Inl Other_exception
      | Some page \<Rightarrow>
          (case normalize_whitespace (page_title page) of
             None \<Rightarrow> Inl Drift
           | Some title \<Rightarrow>
               (case mf_source_urls m of
                  [] \<Rightarrow> Inl Other_exception
                | url # _ \<Rightarrow>
                    bind_res (build_notice (be_casefold (pe_bundle env)) source (mf_capture_kind m) (html_parser_version source) url
                        (fold row_field (page_rows page) [(''title'', JString title)]) [])
                      (\<lambda>n. Inr [n]))))"

text \<open>\<open>_mapped_text\<close> and \<open>_mapped_cancellation\<close>: a field is read under its mapped key.\<close>

definition mapped_key :: "(pystr \<times> pystr) list \<Rightarrow> string \<Rightarrow> pystr" where
  "mapped_key field_map field = (case map_of field_map (u field) of None \<Rightarrow> u field | Some k \<Rightarrow> k)"

definition mapped_text :: "parse_env \<Rightarrow> jobject \<Rightarrow> string \<Rightarrow> (pystr \<times> pystr) list \<Rightarrow> pystr option" where
  "mapped_text env item field field_map =
     (case map_of item (mapped_key field_map field) of
        Some (JString s) \<Rightarrow> normalize_whitespace (Some s)
      | Some (JInt n) \<Rightarrow> Some (show_int n)
      | Some (JFloat x) \<Rightarrow> Some (float_text env x)
      | _ \<Rightarrow> None)"

definition mapped_cancellation :: "parse_env \<Rightarrow> jobject \<Rightarrow> (pystr \<times> pystr) list \<Rightarrow> bool" where
  "mapped_cancellation env item field_map =
     list_ex (\<lambda>field. case map_of item (mapped_key field_map field) of
                 None \<Rightarrow> False | Some v \<Rightarrow> parse_cancellation (be_casefold (pe_bundle env)) v)
       [''cancellation'', ''withdrawn'', ''status'']"

definition item_fields :: "parse_env \<Rightarrow> jobject \<Rightarrow> (pystr \<times> pystr) list \<Rightarrow> pystr \<Rightarrow> field_dict" where
  "item_fields env item field_map external_id =
     (''external_id'', JString external_id) #
     map (\<lambda>f. (f, opt_json (mapped_text env item f field_map)))
       [''title'', ''purchaser'', ''region'', ''publish_time'', ''deadline'', ''budget''] @
     [(''cancellation'', JBool (mapped_cancellation env item field_map))]"

definition parse_item ::
  "parse_env \<Rightarrow> SnapshotManifest \<Rightarrow> HttpUrl \<Rightarrow> (pystr \<times> pystr) list \<Rightarrow> jvalue \<Rightarrow> parse_error + NormalizedNotice" where
  "parse_item env m url field_map v =
     (case v of
        JObject item \<Rightarrow>
          (case mapped_text env item ''external_id'' field_map of
             None \<Rightarrow> Inl Drift
           | Some external_id \<Rightarrow>
               if external_id = [] then Inl Drift
               else build_notice (be_casefold (pe_bundle env)) CCGP (mf_capture_kind m) (mf_parser_version m) url
                      (item_fields env item field_map external_id) [])
      | _ \<Rightarrow> Inl Drift)"

definition parse_raw_response :: "parse_env \<Rightarrow> directory \<Rightarrow> SnapshotManifest \<Rightarrow> parse_error + NormalizedNotice list" where
  "parse_raw_response env dir m =
     (case Option.bind (bundle_file dir ''response.json'') (be_decode (pe_bundle env)) of
        None \<Rightarrow> Inl Drift
      | Some payload \<Rightarrow>
          (case mf_acquisition_metadata m of
             None \<Rightarrow> Inl Drift
           | Some a \<Rightarrow>
               (case (case payload of JObject d \<Rightarrow> map_of d (am_response_items_field a) | _ \<Rightarrow> None) of
                  Some (JArray items) \<Rightarrow>
                    map_res (\<lambda>v. case mf_source_urls m of [] \<Rightarrow> Inl Other_exception
                                  | url # _ \<Rightarrow> parse_item env m url (am_notice_field_map a) v) items
                | _ \<Rightarrow> Inl Drift)))"

text \<open>The demo adapter: a record that fails validation is skipped, any other exception ends the parse.\<close>

definition py_str :: "parse_env \<Rightarrow> jvalue \<Rightarrow> pystr" where
  "py_str env v =
     (case v of JString s \<Rightarrow> s | JInt n \<Rightarrow> show_int n | JFloat x \<Rightarrow> float_text env x
      | JNull \<Rightarrow> u ''None'' | JBool b \<Rightarrow> u (if b then ''True'' else ''False'') | _ \<Rightarrow> any_text env v)"

definition demo_text :: "jobject \<Rightarrow> string \<Rightarrow> parse_error + jvalue" where
  "demo_text record k =
     (case map_of record (u k) of
        None \<Rightarrow> Inr JNull
      | Some JNull \<Rightarrow> Inr JNull
      | Some (JString s) \<Rightarrow> Inr (opt_json (normalize_whitespace (Some s)))
      | Some _ \<Rightarrow> Inl Other_exception)"

definition parse_record :: "parse_env \<Rightarrow> SnapshotManifest \<Rightarrow> jvalue \<Rightarrow> parse_error + NormalizedNotice" where
  "parse_record env m v =
     (case v of
        JObject record \<Rightarrow>
          (let text_of = (\<lambda>k. case map_of record (u k) of None \<Rightarrow> [] | Some v \<Rightarrow> py_str env v);
               names = [''title'', ''purchaser'', ''region'', ''publish_time'', ''deadline'', ''budget'']
           in bind_res (map_res (demo_text record) names) (\<lambda>texts.
              let extra = (case map_of record (u ''synthetic_channel'') of
                             None \<Rightarrow> [] | Some JNull \<Rightarrow> [] | Some c \<Rightarrow> [(u ''synthetic_channel'', c)])
              in case http_url env (text_of ''url'') of
                   None \<Rightarrow> Inl Validation_failed
                 | Some url \<Rightarrow>
                     build_notice (be_casefold (pe_bundle env)) SourceName.SYNTHETIC_DEMO CaptureKind.SYNTHETIC_DEMO
                       (mf_parser_version m) url ((''external_id'', JString (text_of ''id'')) # zip names texts) extra))
      | _ \<Rightarrow> Inl Other_exception)"

fun parse_records :: "(jvalue \<Rightarrow> parse_error + NormalizedNotice) \<Rightarrow> jvalue list \<Rightarrow> parse_error + NormalizedNotice list" where
  "parse_records parse [] = Inr []"
| "parse_records parse (v # vs) =
     (case parse v of
        Inr n \<Rightarrow> bind_res (parse_records parse vs) (\<lambda>ns. Inr (n # ns))
      | Inl Other_exception \<Rightarrow> Inl Other_exception
      | Inl _ \<Rightarrow> parse_records parse vs)"

definition parse_demo :: "parse_env \<Rightarrow> directory \<Rightarrow> SnapshotManifest \<Rightarrow> parse_error + NormalizedNotice list" where
  "parse_demo env dir m =
     (case Option.bind (bundle_file dir ''notices.json'') (be_decode (pe_bundle env)) of
        Some (JObject payload) \<Rightarrow>
          (case map_of payload (u ''notices'') of
             Some (JArray records) \<Rightarrow>
               bind_res (parse_records (parse_record env m) records)
                 (\<lambda>ns. if ns = [] then Inl Drift else Inr ns)
           | _ \<Rightarrow> Inl Drift)
      | _ \<Rightarrow> Inl Other_exception)"

text \<open>\<open>parse\<close> of the adapters, and \<open>_parse\<close> of the importer, which picks one by the declared source.\<close>

definition adapter_parse :: "parse_env \<Rightarrow> SourceName \<Rightarrow> directory \<Rightarrow> parse_error + NormalizedNotice list" where
  "adapter_parse env source dir =
     (let ins = inspect_bundle (pe_bundle env) (pe_links env) dir
      in case ins_manifest ins of
           None \<Rightarrow> Inl Drift
         | Some m \<Rightarrow>
             if \<not> ins_valid ins then Inl Drift
             else if source = SourceName.SYNTHETIC_DEMO then parse_demo env dir m
             else if source = CCGP \<and> mf_capture_kind m = RAW_RESPONSE then parse_raw_response env dir m
             else parse_html env source dir m)"

definition parse_bundle :: "parse_env \<Rightarrow> directory \<Rightarrow> import_error + NormalizedNotice list" where
  "parse_bundle env dir =
     (case bind_res (load_manifest (pe_bundle env) dir) (\<lambda>m. adapter_parse env (mf_source m) dir) of
        Inl Drift \<Rightarrow> Inl Parse_drift
      | Inl _ \<Rightarrow> Inl Parse_rejected
      | Inr ns \<Rightarrow> Inr ns)"

end
