(* ===== verification/Acquisition.thy ===== *)
theory Acquisition
  imports Digest Cron Utc Objects "HOL-Library.Product_Lexorder"
begin

text \<open>
  Authorized source acquisition (\<open>ingestion/service.py\<close>, \<open>ingestion/ccgp.py\<close>,
  \<open>ingestion/scheduler.py\<close> and \<open>SourceAcquisitionRepository\<close>): fetching pages with bounded retries,
  the per-source cursor with its optimistic version, and the record of every run.  The source, the
  object store, the materializer and the importer are ports over a state \<open>'w\<close>; each may raise.
\<close>

section \<open>Failures of the source client (ccgp.py)\<close>

definition MAX_RETRY_AFTER_SECONDS :: int where "MAX_RETRY_AFTER_SECONDS = 86400"
definition DEFAULT_RETRY_AFTER_SECONDS :: int where "DEFAULT_RETRY_AFTER_SECONDS = 60"
definition MAX_CURSOR_LENGTH :: nat where "MAX_CURSOR_LENGTH = 512"

datatype SourceClientError =
    SourceAuthorizationError int
  | SourceRateLimitedError int
  | SourceResponseTooLargeError
  | SourceTimeoutError
  | SourceSigningError
  | SourcePayloadError pystr
  | SourceTransportError
  | SourceHTTPError int

fun client_code :: "SourceClientError \<Rightarrow> pystr" where
  "client_code (SourceAuthorizationError _) = u ''authorization_rejected''"
| "client_code (SourceRateLimitedError _) = u ''rate_limited''"
| "client_code SourceResponseTooLargeError = u ''response_too_large''"
| "client_code SourceTimeoutError = u ''timeout''"
| "client_code SourceSigningError = u ''signature_failed''"
| "client_code (SourcePayloadError _) = u ''invalid_response''"
| "client_code SourceTransportError = u ''transport_error''"
| "client_code (SourceHTTPError _) = u ''source_http_error''"

fun retryable :: "SourceClientError \<Rightarrow> bool" where
  "retryable (SourceRateLimitedError _) = True"
| "retryable SourceTimeoutError = True"
| "retryable SourceTransportError = True"
| "retryable (SourceHTTPError s) = (500 \<le> s)"
| "retryable _ = False"

fun client_retry_after :: "SourceClientError \<Rightarrow> int option" where
  "client_retry_after (SourceRateLimitedError n) = Some n"
| "client_retry_after _ = None"

fun client_status :: "SourceClientError \<Rightarrow> int option" where
  "client_status (SourceAuthorizationError s) = Some s"
| "client_status (SourceRateLimitedError _) = Some 429"
| "client_status (SourceHTTPError s) = Some s"
| "client_status _ = None"

fun rate_limited :: "SourceClientError \<Rightarrow> bool" where
  "rate_limited (SourceRateLimitedError _) = True"
| "rate_limited _ = False"

section \<open>One response (ccgp.py)\<close>

record AuthorizedEndpoint =
  cursor_field :: pystr
  items_field :: pystr
  next_cursor_field :: pystr
  endpoint_field_map :: "(pystr \<times> pystr) list"

fun page_items :: "jvalue list \<Rightarrow> jobject list option" where
  "page_items [] = Some []"
| "page_items (JObject d # rest) = map_option (Cons d) (page_items rest)"
| "page_items (_ # rest) = None"

text \<open>\<open>_parse_page\<close>; the detail of an error names the offending part.\<close>

definition parse_page :: "AuthorizedEndpoint \<Rightarrow> jobject \<Rightarrow> SourceClientError + jobject list \<times> pystr option" where
  "parse_page ep payload =
     (case map_of payload (items_field ep) of
        None \<Rightarrow> Inl (SourcePayloadError (u ''missing items''))
      | Some (JArray raw_items) \<Rightarrow>
          (case page_items raw_items of
             None \<Rightarrow> Inl (SourcePayloadError (u ''item''))
           | Some items \<Rightarrow>
               (case map_of payload (next_cursor_field ep) of
                  None \<Rightarrow> Inl (SourcePayloadError (u ''missing cursor''))
                | Some JNull \<Rightarrow> Inr (items, None)
                | Some (JString c) \<Rightarrow>
                    if MAX_CURSOR_LENGTH < length c then Inl (SourcePayloadError (u ''cursor length''))
                    else Inr (items, if c = [] then None else Some c)
                | Some _ \<Rightarrow> Inl (SourcePayloadError (u ''cursor type''))))
      | Some _ \<Rightarrow> Inl (SourcePayloadError (u ''items type'')))"

text \<open>Python's \<open>int(s.strip())\<close> for a decimal literal with optional sign and single underscores.\<close>

definition py_int :: "pystr \<Rightarrow> int option" where
  "py_int raw =
     (let s = py_strip raw;
          neg = prefix (u ''-'') s;
          digits = (if neg \<or> prefix (u ''+'') s then drop 1 s else s);
          parts = py_split_on 95 digits
      in if list_all (\<lambda>p. p \<noteq> [] \<and> list_all is_digit p) parts
         then Some ((if neg then -1 else 1) * int (digits_value 0 (concat parts)))
         else None)"

text \<open>
  \<open>_retry_after_seconds\<close>; \<open>http_date\<close> is \<open>email.utils.parsedate_to_datetime\<close> (\<open>None\<close> when it
  raises), \<open>int(x)\<close> of a duration truncates towards zero.
\<close>

definition retry_after_seconds :: "(pystr \<Rightarrow> datetime option) \<Rightarrow> datetime \<Rightarrow> int \<Rightarrow> pystr option \<Rightarrow> int" where
  "retry_after_seconds http_date now max_retry header =
     (case header of
        None \<Rightarrow> min DEFAULT_RETRY_AFTER_SECONDS max_retry
      | Some raw \<Rightarrow>
          (case py_int raw of
             Some seconds \<Rightarrow> max 0 (min seconds max_retry)
           | None \<Rightarrow>
               (case http_date raw of
                  None \<Rightarrow> min DEFAULT_RETRY_AFTER_SECONDS max_retry
                | Some retry_at \<Rightarrow>
                    (let retry_at = (if dt_aware retry_at then retry_at else replace_utc retry_at);
                         us = instant retry_at - instant now;
                         seconds = max 0 (if 0 \<le> us then us div 1000000 else - (- us div 1000000))
                     in max 0 (min seconds max_retry)))))"

text \<open>\<open>_read_bounded_response\<close>: chunks are taken until the total exceeds the bound.\<close>

fun read_bounded :: "nat \<Rightarrow> nat \<Rightarrow> bytes list \<Rightarrow> SourceClientError + bytes" where
  "read_bounded limit seen [] = Inr []"
| "read_bounded limit seen (c # cs) =
     (if limit < seen + length c then Inl SourceResponseTooLargeError
      else bind_res (read_bounded limit (seen + length c) cs) (\<lambda>rest. Inr (c @ rest)))"

text \<open>
  The answer to one request, as the HTTP library delivers it: a timeout, another transport failure,
  or a response.  \<open>decode\<close> is the JSON decoder (\<open>None\<close> when the bytes are no JSON).
\<close>

record http_response =
  resp_status :: int
  resp_retry_after :: "pystr option"
  resp_content_length :: "pystr option"
  resp_chunks :: "bytes list"

datatype http_outcome = Http_timeout | Http_transport_failure | Http_response http_response

record AuthorizedSourcePage =
  cursor_before :: "pystr option"
  next_cursor :: "pystr option"
  source_items :: "jobject list"
  response_bytes :: bytes
  response_sha256 :: pystr
  retrieved_at :: datetime
  status_code :: int
  source_url :: pystr
  response_items_field :: pystr
  notice_field_map :: "(pystr \<times> pystr) list"

record source_client =
  endpoint :: AuthorizedEndpoint
  base_url_path :: pystr
  max_response_bytes :: nat
  max_retry_after :: int

definition read_response ::
  "(pystr \<Rightarrow> datetime option) \<Rightarrow> (bytes \<Rightarrow> jvalue option) \<Rightarrow> source_client \<Rightarrow> datetime \<Rightarrow> datetime \<Rightarrow> pystr option \<Rightarrow>
     http_response \<Rightarrow> SourceClientError + AuthorizedSourcePage" where
  "read_response http_date decode client timestamp now cursor r =
     (let s = resp_status r
      in if s = 401 \<or> s = 403 then Inl (SourceAuthorizationError s)
         else if s = 429 then
           Inl (SourceRateLimitedError (retry_after_seconds http_date now (max_retry_after client) (resp_retry_after r)))
         else if s < 200 \<or> 300 \<le> s then Inl (SourceHTTPError s)
         else bind_res
           (case resp_content_length r of
              None \<Rightarrow> Inr ()
            | Some declared \<Rightarrow>
                (case py_int declared of
                   None \<Rightarrow> Inl (SourcePayloadError (u ''Content-Length''))
                 | Some n \<Rightarrow> if int (max_response_bytes client) < n then Inl SourceResponseTooLargeError else Inr ()))
           (\<lambda>_. bind_res (read_bounded (max_response_bytes client) 0 (resp_chunks r)) (\<lambda>bs.
             case decode bs of
               Some (JObject payload) \<Rightarrow>
                 bind_res (parse_page (endpoint client) payload) (\<lambda>(items, next).
                   Inr \<lparr>cursor_before = cursor, next_cursor = next, source_items = items, response_bytes = bs,
                     response_sha256 = hash_bytes bs, retrieved_at = timestamp, status_code = s,
                     source_url = base_url_path client, response_items_field = items_field (endpoint client),
                     notice_field_map = endpoint_field_map (endpoint client)\<rparr>)
             | _ \<Rightarrow> Inl (SourcePayloadError (u ''JSON'')))))"

text \<open>
  \<open>fetch_page\<close>: \<open>signer_ok\<close> tells whether the operator's signer succeeded, \<open>send\<close> is the transport.
\<close>

definition fetch_page ::
  "(pystr \<Rightarrow> datetime option) \<Rightarrow> (bytes \<Rightarrow> jvalue option) \<Rightarrow> source_client \<Rightarrow> datetime \<Rightarrow> datetime \<Rightarrow> bool \<Rightarrow>
     (pystr option \<Rightarrow> http_outcome) \<Rightarrow> pystr option \<Rightarrow> SourceClientError + AuthorizedSourcePage" where
  "fetch_page http_date decode client timestamp now signer_ok send cursor =
     (if (case cursor of None \<Rightarrow> False | Some c \<Rightarrow> MAX_CURSOR_LENGTH < length c)
      then Inl (SourcePayloadError (u ''cursor length''))
      else if \<not> signer_ok then Inl SourceSigningError
      else (case send cursor of
              Http_timeout \<Rightarrow> Inl SourceTimeoutError
            | Http_transport_failure \<Rightarrow> Inl SourceTransportError
            | Http_response r \<Rightarrow> read_response http_date decode client timestamp now cursor r))"

section \<open>Cursors and runs (SourceAcquisitionRepository)\<close>

record SourceSyncCursor =
  sc_source :: pystr
  sc_cursor_value :: pystr
  sc_watermark_at :: datetime
  sc_last_success_at :: "datetime option"
  sc_updated_at :: datetime
  sc_consecutive_failures :: nat
  sc_version :: nat

record SourceAcquisitionRun =
  ar_id :: nat
  ar_source :: pystr
  ar_started_at :: datetime
  ar_finished_at :: "datetime option"
  ar_status :: string
  ar_cursor_before :: pystr
  ar_cursor_after :: "pystr option"
  ar_request_count :: nat
  ar_record_count :: nat
  ar_new_bundle_count :: nat
  ar_imported_notice_count :: nat
  ar_response_object_key :: "pystr option"
  ar_response_sha256 :: "pystr option"
  ar_response_object_keys :: "pystr list"
  ar_response_sha256s :: "pystr list"
  ar_http_status :: "int option"
  ar_retry_after_seconds :: "int option"
  ar_failure_code :: "pystr option"

record AcqDb =
  sync_cursors :: "SourceSyncCursor list"
  acquisition_runs :: "SourceAcquisitionRun list"

definition get_source_sync_cursor :: "AcqDb \<Rightarrow> pystr \<Rightarrow> SourceSyncCursor option" where
  "get_source_sync_cursor db source = find (\<lambda>c. sc_source c = source) (sync_cursors db)"

text \<open>A lost insertion race re-reads the row that won; \<open>others\<close> commits between look-up and insertion.\<close>

definition get_or_create_source_sync_cursor ::
  "(AcqDb \<Rightarrow> AcqDb) \<Rightarrow> datetime \<Rightarrow> pystr \<Rightarrow> pystr \<Rightarrow> AcqDb \<Rightarrow> SourceSyncCursor \<times> AcqDb" where
  "get_or_create_source_sync_cursor others now source value db =
     (case get_source_sync_cursor db source of
        Some c \<Rightarrow> (c, db)
      | None \<Rightarrow>
          (let db1 = others db
           in case get_source_sync_cursor db1 source of
                Some c \<Rightarrow> (c, db1)
              | None \<Rightarrow>
                  (let c = \<lparr>sc_source = source, sc_cursor_value = value, sc_watermark_at = now, sc_last_success_at = None,
                            sc_updated_at = now, sc_consecutive_failures = 0, sc_version = 0\<rparr>
                   in (c, db1\<lparr>sync_cursors := sync_cursors db1 @ [c]\<rparr>))))"

text \<open>The conditional update; the result tells whether exactly one row matched.\<close>

definition owns_cursor :: "pystr \<Rightarrow> nat \<Rightarrow> pystr \<Rightarrow> SourceSyncCursor \<Rightarrow> bool" where
  "owns_cursor source version value c \<longleftrightarrow> sc_source c = source \<and> sc_version c = version \<and> sc_cursor_value c = value"

definition advance_source_sync_cursor ::
  "pystr \<Rightarrow> nat \<Rightarrow> pystr \<Rightarrow> pystr \<Rightarrow> datetime \<Rightarrow> datetime \<Rightarrow> AcqDb \<Rightarrow> bool \<times> AcqDb" where
  "advance_source_sync_cursor source expected before after watermark succeeded db =
     (length (filter (owns_cursor source expected before) (sync_cursors db)) = 1,
      db\<lparr>sync_cursors := map (\<lambda>c. if owns_cursor source expected before c
           then c\<lparr>sc_cursor_value := after, sc_watermark_at := watermark, sc_last_success_at := Some succeeded,
                  sc_updated_at := succeeded, sc_consecutive_failures := 0, sc_version := sc_version c + 1\<rparr>
           else c) (sync_cursors db)\<rparr>)"

definition create_acquisition_run :: "nat \<Rightarrow> pystr \<Rightarrow> datetime \<Rightarrow> pystr \<Rightarrow> AcqDb \<Rightarrow> AcqDb" where
  "create_acquisition_run rid source started before db =
     db\<lparr>acquisition_runs := acquisition_runs db @ [\<lparr>ar_id = rid, ar_source = source, ar_started_at = started,
       ar_finished_at = None, ar_status = ''running'', ar_cursor_before = before, ar_cursor_after = None,
       ar_request_count = 0, ar_record_count = 0, ar_new_bundle_count = 0, ar_imported_notice_count = 0,
       ar_response_object_key = None, ar_response_sha256 = None, ar_response_object_keys = [],
       ar_response_sha256s = [], ar_http_status = None, ar_retry_after_seconds = None, ar_failure_code = None\<rparr>]\<rparr>"

text \<open>What \<open>_finish\<close> hands over; the counters and lists are always given.\<close>

record Progress =
  pg_request_count :: nat
  pg_record_count :: nat
  pg_imported_notice_count :: nat
  pg_new_bundle_count :: nat
  pg_request_cursor :: "pystr option"
  pg_last_cursor :: pystr
  pg_last_retrieved_at :: datetime
  pg_response_object_key :: "pystr option"
  pg_response_sha256 :: "pystr option"
  pg_response_object_keys :: "pystr list"
  pg_response_sha256s :: "pystr list"
  pg_http_status :: "int option"

definition finalized_run ::
  "datetime \<Rightarrow> string \<Rightarrow> pystr option \<Rightarrow> Progress \<Rightarrow> int option \<Rightarrow> int option \<Rightarrow> pystr option \<Rightarrow>
     SourceAcquisitionRun \<Rightarrow> SourceAcquisitionRun" where
  "finalized_run finished status after pg http retry failure run =
     run\<lparr>ar_finished_at := Some finished, ar_status := status, ar_cursor_after := after,
       ar_request_count := pg_request_count pg, ar_record_count := pg_record_count pg,
       ar_new_bundle_count := pg_new_bundle_count pg, ar_imported_notice_count := pg_imported_notice_count pg,
       ar_response_object_key := (case pg_response_object_key pg of None \<Rightarrow> ar_response_object_key run | k \<Rightarrow> k),
       ar_response_sha256 := (case pg_response_sha256 pg of None \<Rightarrow> ar_response_sha256 run | h \<Rightarrow> h),
       ar_response_object_keys := pg_response_object_keys pg, ar_response_sha256s := pg_response_sha256s pg,
       ar_http_status := (case http of None \<Rightarrow> ar_http_status run | h \<Rightarrow> h),
       ar_retry_after_seconds := (case retry of None \<Rightarrow> ar_retry_after_seconds run | r \<Rightarrow> r),
       ar_failure_code := failure\<rparr>"

definition FAILED_STATUSES :: "string list" where
  "FAILED_STATUSES = [''failed'', ''quarantined'', ''rate_limited'']"

definition count_failure :: "pystr \<Rightarrow> datetime \<Rightarrow> AcqDb \<Rightarrow> AcqDb" where
  "count_failure source finished db =
     db\<lparr>sync_cursors := map (\<lambda>c. if sc_source c = source
          then c\<lparr>sc_consecutive_failures := sc_consecutive_failures c + 1, sc_updated_at := finished,
                 sc_version := sc_version c + 1\<rparr>
          else c) (sync_cursors db)\<rparr>"

text \<open>Only a run that is still running is finalized; a failed one counts against its source.\<close>

definition finalize_acquisition_run ::
  "nat \<Rightarrow> datetime \<Rightarrow> string \<Rightarrow> pystr option \<Rightarrow> Progress \<Rightarrow> int option \<Rightarrow> int option \<Rightarrow> pystr option \<Rightarrow> AcqDb \<Rightarrow> AcqDb" where
  "finalize_acquisition_run rid finished status after pg http retry failure db =
     (case find (\<lambda>r. ar_id r = rid \<and> ar_status r = ''running'') (acquisition_runs db) of
        None \<Rightarrow> db
      | Some run \<Rightarrow>
          (let db1 = db\<lparr>acquisition_runs := map (\<lambda>r. if ar_id r = rid \<and> ar_status r = ''running''
                then finalized_run finished status after pg http retry failure r else r) (acquisition_runs db)\<rparr>
           in if status \<in> set FAILED_STATUSES then count_failure (ar_source run) finished db1 else db1))"

datatype bounds_error = Limit_out_of_range | Offset_out_of_range

definition bounded_limit :: "int \<Rightarrow> bounds_error + nat" where
  "bounded_limit limit = (if limit < 1 \<or> 100 < limit then Inl Limit_out_of_range else Inr (nat limit))"

definition list_source_statuses :: "int \<Rightarrow> AcqDb \<Rightarrow> bounds_error + SourceSyncCursor list" where
  "list_source_statuses limit db =
     bind_res (bounded_limit limit) (\<lambda>n. Inr (take n (sort_key sc_source (sync_cursors db))))"

text \<open>Newest first; runs that started together by descending key.\<close>

definition run_order :: "SourceAcquisitionRun \<Rightarrow> int \<times> int" where
  "run_order r = (- instant (ar_started_at r), - int (ar_id r))"

definition list_acquisition_runs ::
  "pystr option \<Rightarrow> int \<Rightarrow> int \<Rightarrow> AcqDb \<Rightarrow> bounds_error + SourceAcquisitionRun list" where
  "list_acquisition_runs source limit offset db =
     bind_res (bounded_limit limit) (\<lambda>n.
       if offset < 0 \<or> 100000 < offset then Inl Offset_out_of_range
       else Inr (take n (drop (nat offset) (sort_key run_order
              (filter (\<lambda>r. case source of None \<Rightarrow> True | Some s \<Rightarrow> ar_source r = s) (acquisition_runs db))))))"

section \<open>One acquisition run (service.py)\<close>

definition MAX_PAGES_PER_RUN :: nat where "MAX_PAGES_PER_RUN = 100"
definition MAX_TRANSIENT_RETRIES :: nat where "MAX_TRANSIENT_RETRIES = 2"
definition MAX_TRANSIENT_BACKOFF_SECONDS :: nat where "MAX_TRANSIENT_BACKOFF_SECONDS = 30"

text \<open>What a step of a run may raise; a quarantine carries its code, an import error has none.\<close>

datatype step_error =
    Client_error SourceClientError | Bundle_quarantined pystr | Snapshot_import_error | Unexpected

record import_outcome =
  io_notice_count :: "nat option"
  io_reused :: bool

record ('w, 'b) AcqPorts =
  fetch_port :: "pystr option \<Rightarrow> 'w \<Rightarrow> (step_error + AuthorizedSourcePage) \<times> 'w"
  put_port :: "pystr \<Rightarrow> bytes \<Rightarrow> 'w \<Rightarrow> (step_error + unit) \<times> 'w"
  materialize_port :: "AuthorizedSourcePage \<Rightarrow> 'w \<Rightarrow> (step_error + 'b) \<times> 'w"
  import_port :: "'b \<Rightarrow> 'w \<Rightarrow> (step_error + import_outcome) \<times> 'w"
  sleep_port :: "nat \<Rightarrow> 'w \<Rightarrow> 'w"

text \<open>\<open>_fetch_page_with_retry\<close>: \<open>attempts\<close> counts the retries made.\<close>

function fetch_page_with_retry ::
  "('w, 'b) AcqPorts \<Rightarrow> pystr option \<Rightarrow> nat \<Rightarrow> 'w \<Rightarrow> (step_error + AuthorizedSourcePage) \<times> 'w" where
  "fetch_page_with_retry ports cursor attempts w =
     (case fetch_port ports cursor w of
        (Inl (Client_error e), w1) \<Rightarrow>
          if \<not> retryable e \<or> rate_limited e \<or> MAX_TRANSIENT_RETRIES \<le> attempts then (Inl (Client_error e), w1)
          else fetch_page_with_retry ports cursor (attempts + 1)
                 (sleep_port ports (min (2 ^ attempts) MAX_TRANSIENT_BACKOFF_SECONDS) w1)
      | r \<Rightarrow> r)"
  by pat_completeness auto

termination
  by (relation "measure (\<lambda>(ports, cursor, attempts, w). MAX_TRANSIENT_RETRIES - attempts)") auto

declare fetch_page_with_retry.simps [simp del]

text \<open>The steps of one fetched page, in order; what was counted before a failure stays counted.\<close>

definition acquisition_key :: "pystr \<Rightarrow> pystr \<Rightarrow> pystr" where
  "acquisition_key source h = u ''acquisitions/'' @ source @ u ''/'' @ h @ u ''.json''"

definition take_page ::
  "('w, 'b) AcqPorts \<Rightarrow> pystr \<Rightarrow> AuthorizedSourcePage \<Rightarrow> Progress \<Rightarrow> 'w \<Rightarrow> step_error option \<times> Progress \<times> 'w" where
  "take_page ports source page pg w =
     (let pg1 = pg\<lparr>pg_request_count := pg_request_count pg + 1,
                pg_record_count := pg_record_count pg + length (source_items page),
                pg_last_retrieved_at := retrieved_at page, pg_http_status := Some (status_code page)\<rparr>;
          h = hash_bytes (response_bytes page);
          key = acquisition_key source h
      in case put_port ports key (response_bytes page) w of
           (Inl e, w1) \<Rightarrow> (Some e, pg1, w1)
         | (Inr _, w1) \<Rightarrow>
             (let pg2 = pg1\<lparr>pg_response_object_key := Some key, pg_response_sha256 := Some h,
                    pg_response_object_keys := pg_response_object_keys pg1 @ [key],
                    pg_response_sha256s := pg_response_sha256s pg1 @ [h]\<rparr>
              in case materialize_port ports page w1 of
                   (Inl e, w2) \<Rightarrow> (Some e, pg2, w2)
                 | (Inr b, w2) \<Rightarrow>
                     (case import_port ports b w2 of
                        (Inl e, w3) \<Rightarrow> (Some e, pg2, w3)
                      | (Inr r, w3) \<Rightarrow>
                          (None, pg2\<lparr>pg_imported_notice_count := pg_imported_notice_count pg2 +
                               (case io_notice_count r of None \<Rightarrow> length (source_items page) | Some n \<Rightarrow> n),
                             pg_new_bundle_count := pg_new_bundle_count pg2 + (if io_reused r then 0 else 1)\<rparr>, w3))))"

text \<open>The page loop; the argument counts the pages that may still be requested.\<close>

fun page_loop ::
  "('w, 'b) AcqPorts \<Rightarrow> pystr \<Rightarrow> nat \<Rightarrow> nat \<Rightarrow> Progress \<Rightarrow> 'w \<Rightarrow> step_error option \<times> Progress \<times> 'w" where
  "page_loop ports source interval 0 pg w = (Some (Client_error (SourcePayloadError (u ''maximum pages''))), pg, w)"
| "page_loop ports source interval (Suc pages) pg w =
     (case fetch_page_with_retry ports (pg_request_cursor pg) 0 w of
        (Inl e, w1) \<Rightarrow> (Some e, pg, w1)
      | (Inr page, w1) \<Rightarrow>
          (case take_page ports source page pg w1 of
             (Some e, pg1, w2) \<Rightarrow> (Some e, pg1, w2)
           | (None, pg1, w2) \<Rightarrow>
               (case next_cursor page of
                  None \<Rightarrow> (None, pg1, w2)
                | Some next \<Rightarrow>
                    if Some next = pg_request_cursor pg1
                    then (Some (Client_error (SourcePayloadError (u ''cursor did not advance''))), pg1, w2)
                    else (let pg2 = pg1\<lparr>pg_last_cursor := next, pg_request_cursor := Some next\<rparr>
                          in if pages = 0 then (Some (Client_error (SourcePayloadError (u ''maximum pages''))), pg2, w2)
                             else page_loop ports source interval pages pg2 (sleep_port ports interval w2)))))"

text \<open>The \<open>except\<close> clauses: status, HTTP status, retry delay and failure code of a run that raised.\<close>

definition classify_failure :: "step_error \<Rightarrow> int option \<Rightarrow> string \<times> int option \<times> int option \<times> pystr" where
  "classify_failure e http =
     (case e of
        Client_error c \<Rightarrow>
          (if rate_limited c
           then (''rate_limited'', Some 429, client_retry_after c, client_code c)
           else (case c of
                   SourcePayloadError _ \<Rightarrow> (''quarantined'', http, None, client_code c)
                 | _ \<Rightarrow> (''failed'',
                          (case client_status c of None \<Rightarrow> http | Some s \<Rightarrow> if s = 0 then http else Some s),
                          client_retry_after c, client_code c)))
      | Bundle_quarantined code \<Rightarrow> (''quarantined'', http, None, code)
      | Snapshot_import_error \<Rightarrow> (''quarantined'', http, None, u ''import_failed'')
      | Unexpected \<Rightarrow> (''failed'', http, None, u ''unexpected_error''))"

record AcquisitionResult =
  aq_run_id :: nat
  aq_status :: string
  aq_cursor_before :: pystr
  aq_cursor_after :: "pystr option"
  aq_request_count :: nat
  aq_record_count :: nat
  aq_imported_notice_count :: nat
  aq_failure_code :: "pystr option"
  aq_retry_after_seconds :: "int option"

text \<open>What a run draws from outside: its key and the times of its start, its advance and its end.\<close>

record run_inputs =
  in_run_id :: nat
  in_started :: datetime
  in_succeeded :: datetime
  in_finished :: datetime

definition finish ::
  "run_inputs \<Rightarrow> pystr \<Rightarrow> string \<Rightarrow> pystr option \<Rightarrow> Progress \<Rightarrow> int option \<Rightarrow> int option \<Rightarrow> pystr option \<Rightarrow> AcqDb \<Rightarrow>
     AcquisitionResult \<times> AcqDb" where
  "finish inputs before status after pg http retry failure db =
     (\<lparr>aq_run_id = in_run_id inputs, aq_status = status, aq_cursor_before = before, aq_cursor_after = after,
        aq_request_count = pg_request_count pg, aq_record_count = pg_record_count pg,
        aq_imported_notice_count = pg_imported_notice_count pg, aq_failure_code = failure, aq_retry_after_seconds = retry\<rparr>,
      finalize_acquisition_run (in_run_id inputs) (in_finished inputs) status after pg http retry failure db)"

text \<open>
  \<open>run_once\<close>.  \<open>first\<close> and \<open>others\<close> are what other sessions commit before the cursor is inserted and
  before it is advanced.
\<close>

definition run_once ::
  "('w, 'b) AcqPorts \<Rightarrow> pystr \<Rightarrow> nat \<Rightarrow> nat \<Rightarrow> run_inputs \<Rightarrow> (AcqDb \<Rightarrow> AcqDb) \<Rightarrow> (AcqDb \<Rightarrow> AcqDb) \<Rightarrow> AcqDb \<Rightarrow> 'w \<Rightarrow>
     AcquisitionResult \<times> AcqDb \<times> 'w" where
  "run_once ports source interval max_pages inputs first others db w =
     (let started = in_started inputs;
          (cursor, db1) = get_or_create_source_sync_cursor first started source [] db;
          before = sc_cursor_value cursor;
          db2 = create_acquisition_run (in_run_id inputs) source started before db1;
          pg0 = \<lparr>pg_request_count = 0, pg_record_count = 0, pg_imported_notice_count = 0, pg_new_bundle_count = 0,
                 pg_request_cursor = (if before = [] then None else Some before), pg_last_cursor = before,
                 pg_last_retrieved_at = started, pg_response_object_key = None, pg_response_sha256 = None,
                 pg_response_object_keys = [], pg_response_sha256s = [], pg_http_status = None\<rparr>;
          (failure, pg, w1) = page_loop ports source interval max_pages pg0 w;
          db3 = others db2;
          fail = (\<lambda>e db. case classify_failure e (pg_http_status pg) of (status, http, retry, code) \<Rightarrow>
                    finish inputs before status None pg http retry (Some code) db)
      in case failure of
           Some e \<Rightarrow> (case fail e db3 of (r, db') \<Rightarrow> (r, db', w1))
         | None \<Rightarrow>
             (case advance_source_sync_cursor source (sc_version cursor) before (pg_last_cursor pg)
                     (pg_last_retrieved_at pg) (in_succeeded inputs) db3 of
                (False, db4) \<Rightarrow> (case fail Unexpected db4 of (r, db') \<Rightarrow> (r, db', w1))
              | (True, db4) \<Rightarrow>
                  (case finish inputs before ''success''
                          (if pg_last_cursor pg \<noteq> before then Some (pg_last_cursor pg) else None) pg
                          (pg_http_status pg) None None db4 of (r, db') \<Rightarrow> (r, db', w1))))"

section \<open>The worker loop (scheduler.py)\<close>

definition MAX_RETRY_DELAY_SECONDS :: int where "MAX_RETRY_DELAY_SECONDS = 86400"

definition bounded_retry_delay_seconds :: "int option \<Rightarrow> int" where
  "bounded_retry_delay_seconds retry_after =
     (let requested = (case retry_after of None \<Rightarrow> 60 | Some r \<Rightarrow> r) in max 1 (min requested MAX_RETRY_DELAY_SECONDS))"

text \<open>Aware arithmetic keeps the offset and moves the wall clock.\<close>

definition add_seconds :: "datetime \<Rightarrow> int \<Rightarrow> time_error + datetime" where
  "add_seconds t s = bind_res (utc_of_micros (local_micros t + s * 1000000)) (\<lambda>v. Inr (v\<lparr>dt_offset := dt_offset t\<rparr>))"

definition next_eligible_ingestion_at :: "datetime \<Rightarrow> int option \<Rightarrow> time_error + datetime" where
  "next_eligible_ingestion_at now retry_after =
     (let now = (if dt_aware now then now else replace_utc now)
      in add_seconds now (bounded_retry_delay_seconds retry_after))"

text \<open>\<open>run_with_ingestion_lock\<close>: \<open>None\<close> is the skipped result.\<close>

definition run_with_ingestion_lock :: "bool \<Rightarrow> ('s \<Rightarrow> 'r \<times> 's) \<Rightarrow> 's \<Rightarrow> 'r option \<times> 's" where
  "run_with_ingestion_lock locked runner s =
     (if locked then (None, s) else (case runner s of (r, s') \<Rightarrow> (Some r, s')))"

text \<open>The delay before the next poll.\<close>

definition poll_delay :: "int \<Rightarrow> AcquisitionResult option \<Rightarrow> int" where
  "poll_delay poll_seconds result =
     (case result of
        Some r \<Rightarrow> if aq_status r = ''rate_limited'' then bounded_retry_delay_seconds (aq_retry_after_seconds r) else poll_seconds
      | None \<Rightarrow> poll_seconds)"

end
