(* ===== verification/Materializer.thy ===== *)
theory Materializer
  imports Parsers Acquisition
begin

text \<open>
  Materialization of an authorized page (\<open>ingestion/materializer.py\<close>): the checks of contract, URL, digest
  and metadata, the content-addressed bundle identifier, and the staging directory, whose entries are
  replaced as a whole.  The canonical JSON of an identity and of a manifest and pydantic's URL parser are
  parameters.  Contract objects were validated when they were made; the staging directory exists, and
  \<open>disk_ok\<close> tells whether the files of a bundle can be written.
\<close>

section \<open>The parts of a URL\<close>

text \<open>\<open>urlsplit\<close> as far as query and fragment, and the properties of its result.\<close>

definition url_rest :: "pystr \<Rightarrow> pystr" where
  "url_rest raw = snd (split_netloc (snd (split_scheme (filter (\<lambda>c. c \<notin> {9, 10, 13}) (dropWhile (\<lambda>c. c \<le> 32) raw)))))"

definition url_fragment :: "pystr \<Rightarrow> pystr" where
  "url_fragment raw = tl (dropWhile (\<lambda>c. c \<noteq> 35) (url_rest raw))"

definition url_query :: "pystr \<Rightarrow> pystr" where
  "url_query raw = tl (dropWhile (\<lambda>c. c \<noteq> 63) (takeWhile (\<lambda>c. c \<noteq> 35) (url_rest raw)))"

text \<open>What follows the last at sign of the authority; the user part exists when there is one.\<close>

definition host_info :: "pystr \<Rightarrow> pystr" where
  "host_info netloc = rev (takeWhile (\<lambda>c. c \<noteq> 64) (rev netloc))"

definition has_user :: "pystr \<Rightarrow> bool" where
  "has_user netloc \<longleftrightarrow> 64 \<in> set netloc"

definition split_host :: "pystr \<Rightarrow> pystr \<times> pystr" where
  "split_host netloc =
     (let info = host_info netloc
      in if 91 \<in> set info
         then (let b = tl (dropWhile (\<lambda>c. c \<noteq> 91) info)
               in (takeWhile (\<lambda>c. c \<noteq> 93) b, tl (dropWhile (\<lambda>c. c \<noteq> 58) (tl (dropWhile (\<lambda>c. c \<noteq> 93) b)))))
         else (takeWhile (\<lambda>c. c \<noteq> 58) info, tl (dropWhile (\<lambda>c. c \<noteq> 58) info)))"

definition url_hostname :: "text_tables \<Rightarrow> pystr \<Rightarrow> pystr option" where
  "url_hostname tab netloc =
     (let h = fst (split_host netloc)
      in if h = [] then None
         else Some (lower tab (takeWhile (\<lambda>c. c \<noteq> 37) h) @ dropWhile (\<lambda>c. c \<noteq> 37) h))"

definition url_port :: "pystr \<Rightarrow> url_error + nat option" where
  "url_port netloc =
     (let p = snd (split_host netloc)
      in if p = [] then Inr None
         else if list_all (\<lambda>c. 48 \<le> c \<and> c \<le> 57) p
         then (let n = digits_value 0 p in if n \<le> 65535 then Inr (Some n) else Inl Invalid_url)
         else Inl Invalid_url)"

text \<open>\<open>_validate_source_url\<close>: accepted or refused.\<close>

definition source_url_ok :: "bundle_env \<Rightarrow> pystr \<Rightarrow> bool" where
  "source_url_ok env url =
     (case urlsplit (be_tab env) url of
        Inl _ \<Rightarrow> False
      | Inr p \<Rightarrow>
          (case url_port (url_netloc p) of
             Inl _ \<Rightarrow> False
           | Inr port \<Rightarrow>
               (case url_hostname (be_tab env) (url_netloc p) of
                  None \<Rightarrow> False
                | Some h \<Rightarrow>
                    url_scheme p = u ''https''
                    \<and> (case OFFICIAL_HOSTS_BY_SOURCE CCGP of None \<Rightarrow> False | Some hs \<Rightarrow> be_casefold env h \<in> set hs)
                    \<and> port \<in> {None, Some 443} \<and> \<not> has_user (url_netloc p)
                    \<and> url_query url = [] \<and> url_fragment url = [])))"

section \<open>Extra metadata\<close>

datatype quarantine =
    Missing_data_contract | Authorization_not_approved | Invalid_source_url | Missing_response_hash
  | Response_hash_mismatch | Response_too_large | Credential_metadata | Invalid_metadata | Invalid_manifest
  | Bundle_too_large | Bundle_collision | Materialization_failed | Inspection_failed string

definition sensitive_key :: "bundle_env \<Rightarrow> pystr \<Rightarrow> bool" where
  "sensitive_key env k \<longleftrightarrow> list_ex (\<lambda>p. py_contains (u p) (normalized_key env k)) SENSITIVE_METADATA_PARTS"

definition credential_value :: "bundle_env \<Rightarrow> pystr \<Rightarrow> bool" where
  "credential_value env s \<longleftrightarrow> list_ex (\<lambda>m. py_contains (u m) (be_casefold env s)) CREDENTIAL_MARKERS"

text \<open>\<open>walk\<close> raises on a credential at any depth; every JSON value has a supported type.\<close>

fun walk_ok :: "bundle_env \<Rightarrow> jvalue \<Rightarrow> bool" where
  "walk_ok env (JObject kvs) = list_all (\<lambda>(k, v). \<not> sensitive_key env k \<and> walk_ok env v) kvs"
| "walk_ok env (JArray vs) = list_all (walk_ok env) vs"
| "walk_ok env (JString s) = (\<not> credential_value env s)"
| "walk_ok env _ = True"

fun scalar_metadata :: "parse_env \<Rightarrow> jobject \<Rightarrow> quarantine + (pystr \<times> pystr) list" where
  "scalar_metadata env [] = Inr []"
| "scalar_metadata env ((k, v) # kvs) =
     (case v of
        JObject _ \<Rightarrow> Inl Invalid_metadata
      | JArray _ \<Rightarrow> Inl Invalid_metadata
      | JNull \<Rightarrow> Inl Invalid_metadata
      | _ \<Rightarrow> bind_res (scalar_metadata env kvs) (\<lambda>safe. Inr ((k, py_str env v) # safe)))"

definition safe_extra_metadata :: "parse_env \<Rightarrow> jobject \<Rightarrow> quarantine + (pystr \<times> pystr) list" where
  "safe_extra_metadata env extra =
     (if \<not> walk_ok (pe_bundle env) (JObject extra) then Inl Credential_metadata else scalar_metadata env extra)"

section \<open>Staging\<close>

text \<open>The identity of a batch page; an entry of the staging directory is a bundle or something else.\<close>

record batch_identity =
  id_metadata :: AuthorizedAcquisitionMetadata
  id_batch_id :: pystr
  id_contract :: AuthorizedSourceContract
  id_cursor_before :: "pystr option"
  id_next_cursor :: "pystr option"
  id_parser_version :: pystr
  id_retrieval_outcome :: pystr
  id_retrieved_at :: pystr
  id_response_sha256 :: pystr
  id_source_url :: pystr

datatype staged = Bundle_dir directory | Other_entry

type_synonym staging = "(pystr \<times> staged) list"

record mat_env =
  me_parse :: parse_env
  identity_json :: "batch_identity \<Rightarrow> bytes"
  manifest_json_bytes :: "SnapshotManifest \<Rightarrow> bytes"
  hidden_size :: "entry \<Rightarrow> nat"
  disk_ok :: bool
  max_bundle_bytes :: nat

record MaterializedBundle =
  mb_bundle_id :: pystr
  mb_manifest :: SnapshotManifest
  mb_response_sha256 :: pystr

text \<open>The size of the regular files of a directory.\<close>

definition file_size :: "mat_env \<Rightarrow> entry \<Rightarrow> nat" where
  "file_size mat e = (case e of File (Some d) \<Rightarrow> length d | _ \<Rightarrow> hidden_size mat e)"

definition bundle_size :: "mat_env \<Rightarrow> directory \<Rightarrow> nat" where
  "bundle_size mat dir = sum_list (map (\<lambda>(p, e). if regular e then file_size mat e else 0) dir)"

definition acquisition_metadata_of :: "AuthorizedSourcePage \<Rightarrow> (pystr \<times> pystr) list \<Rightarrow> AuthorizedAcquisitionMetadata" where
  "acquisition_metadata_of page extra =
     \<lparr>am_response_sha256 = hash_bytes (response_bytes page), am_status_code = status_code page,
      am_cursor_before = cursor_before page, am_cursor_after = next_cursor page, am_request_count = 1,
      am_record_count = int (length (source_items page)), am_response_items_field = response_items_field page,
      am_notice_field_map = notice_field_map page, am_extra = extra\<rparr>"

text \<open>\<open>_build_manifest\<close>: the typed parts are taken over, the URL is parsed, the validators run.\<close>

definition build_manifest ::
  "parse_env \<Rightarrow> AuthorizedSourcePage \<Rightarrow> pystr \<Rightarrow> pystr \<Rightarrow> AuthorizedSourceContract \<Rightarrow> AuthorizedAcquisitionMetadata \<Rightarrow> pystr \<Rightarrow> pystr \<Rightarrow>
     SnapshotManifest option" where
  "build_manifest env page batch_id bundle_id contract meta parser_version outcome =
     Option.bind (http_url env (source_url page)) (\<lambda>url.
       (let m = \<lparr>mf_schema_version = 2, mf_bundle_id = bundle_id, mf_source = CCGP, mf_capture_kind = RAW_RESPONSE,
                 mf_source_urls = [url], mf_retrieved_at = retrieved_at page, mf_retrieval_outcome = outcome,
                 mf_parser_version = parser_version, mf_files = [(u ''response.json'', am_response_sha256 meta)],
                 mf_batch_id = Some batch_id, mf_data_contract = Some contract, mf_acquisition_metadata = Some meta\<rparr>
        in if manifest_issues (pe_bundle env) (JArray [JString (source_url page)]) m = [] then Some m else None))"

definition first_error :: "InspectionResult \<Rightarrow> quarantine" where
  "first_error ins = Inspection_failed (case ins_errors ins of [] \<Rightarrow> ''invalid_bundle'' | e # _ \<Rightarrow> ie_code e)"

text \<open>\<open>_reuse_existing\<close>: an existing bundle must pass inspection and hold the same bytes.\<close>

definition reuse_existing :: "mat_env \<Rightarrow> staged \<Rightarrow> SnapshotManifest \<Rightarrow> bytes \<Rightarrow> bytes \<Rightarrow> quarantine + MaterializedBundle" where
  "reuse_existing mat target m manifest_bytes response =
     (case target of
        Other_entry \<Rightarrow> Inl Bundle_collision
      | Bundle_dir dir \<Rightarrow>
          if max_bundle_bytes mat < bundle_size mat dir then Inl Bundle_too_large
          else if \<not> ins_valid (inspect_bundle (pe_bundle (me_parse mat)) (pe_links (me_parse mat)) dir)
            \<or> bundle_file dir ''manifest.json'' \<noteq> Some manifest_bytes \<or> bundle_file dir ''response.json'' \<noteq> Some response
          then Inl Bundle_collision
          else Inr \<lparr>mb_bundle_id = mf_bundle_id m, mb_manifest = m, mb_response_sha256 = hash_bytes response\<rparr>)"

text \<open>
  Writing a new bundle: into a temporary directory, which is inspected and renamed.  Without success the
  temporary directory is removed again.
\<close>

definition stage_new :: "mat_env \<Rightarrow> SnapshotManifest \<Rightarrow> bytes \<Rightarrow> bytes \<Rightarrow> staging \<Rightarrow> (quarantine + MaterializedBundle) \<times> staging" where
  "stage_new mat m manifest_bytes response stg =
     (let dir = [([u ''response.json''], File (Some response)), ([u ''manifest.json''], File (Some manifest_bytes))];
          ins = inspect_bundle (pe_bundle (me_parse mat)) (pe_links (me_parse mat)) dir
      in if \<not> disk_ok mat then (Inl Materialization_failed, stg)
         else if max_bundle_bytes mat < bundle_size mat dir then (Inl Bundle_too_large, stg)
         else if \<not> ins_valid ins then (Inl (first_error ins), stg)
         else (Inr \<lparr>mb_bundle_id = mf_bundle_id m, mb_manifest = m, mb_response_sha256 = hash_bytes response\<rparr>,
               dict_set (mf_bundle_id m) (Bundle_dir dir) stg))"

text \<open>The checks of the contract, the URL, the digest and the size, in this order.\<close>

definition page_error :: "mat_env \<Rightarrow> AuthorizedSourcePage \<Rightarrow> AuthorizedSourceContract \<Rightarrow> quarantine option" where
  "page_error mat page contract =
     (if ac_review_status contract \<noteq> ''approved'' then Some Authorization_not_approved
      else if \<not> source_url_ok (pe_bundle (me_parse mat)) (source_url page) then Some Invalid_source_url
      else if response_sha256 page = [] then Some Missing_response_hash
      else if lower (be_tab (pe_bundle (me_parse mat))) (response_sha256 page) \<noteq> hash_bytes (response_bytes page)
      then Some Response_hash_mismatch
      else if max_bundle_bytes mat < length (response_bytes page) then Some Response_too_large else None)"

definition bundle_identifier :: "mat_env \<Rightarrow> AuthorizedSourcePage \<Rightarrow> batch_identity \<Rightarrow> pystr" where
  "bundle_identifier mat page identity =
     u ''ccgp-live-'' @ hash_bytes (response_bytes page @ [10] @ identity_json mat identity)"

definition page_identity ::
  "AuthorizedSourcePage \<Rightarrow> pystr \<Rightarrow> AuthorizedSourceContract \<Rightarrow> AuthorizedAcquisitionMetadata \<Rightarrow> pystr \<Rightarrow> pystr \<Rightarrow> batch_identity" where
  "page_identity page batch_id contract meta outcome parser_version =
     \<lparr>id_metadata = meta, id_batch_id = batch_id, id_contract = contract,
      id_cursor_before = cursor_before page, id_next_cursor = next_cursor page,
      id_parser_version = parser_version, id_retrieval_outcome = outcome,
      id_retrieved_at = isoformat (retrieved_at page),
      id_response_sha256 = hash_bytes (response_bytes page), id_source_url = source_url page\<rparr>"

text \<open>The target directory: reused when it exists, written otherwise.\<close>

definition settle_bundle ::
  "mat_env \<Rightarrow> AuthorizedSourcePage \<Rightarrow> SnapshotManifest \<Rightarrow> staging \<Rightarrow> (quarantine + MaterializedBundle) \<times> staging" where
  "settle_bundle mat page m stg =
     (case map_of stg (mf_bundle_id m) of
        Some target \<Rightarrow> (reuse_existing mat target m (manifest_json_bytes mat m) (response_bytes page), stg)
      | None \<Rightarrow> stage_new mat m (manifest_json_bytes mat m) (response_bytes page) stg)"

definition materialize ::
  "mat_env \<Rightarrow> AuthorizedSourcePage \<Rightarrow> pystr \<Rightarrow> AuthorizedSourceContract option \<Rightarrow> pystr \<Rightarrow> pystr \<Rightarrow> jobject \<Rightarrow> staging \<Rightarrow>
     (quarantine + MaterializedBundle) \<times> staging" where
  "materialize mat page batch_id data_contract outcome parser_version extra stg =
     (case data_contract of
        None \<Rightarrow> (Inl Missing_data_contract, stg)
      | Some contract \<Rightarrow>
          (case page_error mat page contract of
             Some e \<Rightarrow> (Inl e, stg)
           | None \<Rightarrow>
               (case safe_extra_metadata (me_parse mat) extra of
                  Inl e \<Rightarrow> (Inl e, stg)
                | Inr safe \<Rightarrow>
                    (let meta = acquisition_metadata_of page safe;
                         bundle_id = bundle_identifier mat page
                           (page_identity page batch_id contract meta outcome parser_version)
                     in if metadata_issues (pe_bundle (me_parse mat)) [] meta \<noteq> [] then (Inl Invalid_metadata, stg)
                        else (case build_manifest (me_parse mat) page batch_id bundle_id contract meta parser_version outcome of
                                None \<Rightarrow> (Inl Invalid_manifest, stg)
                              | Some m \<Rightarrow> settle_bundle mat page m stg)))))"

end
