(* ===== verification/Parser_Properties.thy ===== *)
theory Parser_Properties
  imports Parsers Import_Properties
begin

text \<open>
  What the source adapters guarantee: amounts below \<open>2 ^ 50\<close> fen are converted exactly although the
  code computes with floats, every parsed notice keeps the provenance of its bundle, and a raw
  response yields one notice per item.
\<close>

section \<open>Exact amounts\<close>

text \<open>A range of amounts far from the limits of a double.\<close>

definition tiny :: rat where "tiny = 1 / 2 ^ 100"
definition huge :: rat where "huge = 2 ^ 900"

lemma range_facts:
  "0 < tiny" "pow2 (- 1022) \<le> tiny / 2" "2 * huge \<le> 2 ^ 1000" "tiny \<le> 1 / (100000000 * 100)" "2 ^ 50 \<le> huge"
  by (simp_all add: tiny_def huge_def pow2_def)

text \<open>Rounding once more an approximation with the relative error \<open>a\<close>.\<close>

lemma double_near:
  assumes "\<bar>x - y\<bar> \<le> a * y" "a \<le> 1 / 2" "tiny \<le> y" "y \<le> huge"
  shows "\<exists>v. double x = Some v \<and> \<bar>v - y\<bar> \<le> (a + 1 / 2 ^ 53 + a / 2 ^ 53) * y"
proof -
  have y: "0 < y" using range_facts(1) assms(3) by linarith
  have "a * y \<le> 1 / 2 * y" using assms(2) y by (intro mult_right_mono) simp_all
  then have x: "y / 2 \<le> x" "x \<le> 2 * y" using assms(1) y by linarith+
  then have "pow2 (- 1022) \<le> x" "x \<le> 2 ^ 1000"
    using range_facts(2,3) assms(3,4) by linarith+
  then obtain v where v: "double x = Some v" "\<bar>v - x\<bar> \<le> x / 2 ^ 53"
    using double_error by blast
  have "x \<le> y + a * y" using assms(1) by linarith
  then have "x / 2 ^ 53 \<le> (y + a * y) / 2 ^ 53" by (simp add: divide_right_mono)
  then have "\<bar>v - y\<bar> \<le> a * y + (y + a * y) / 2 ^ 53" using v(2) assms(1) by linarith
  also have "\<dots> = (a + 1 / 2 ^ 53 + a / 2 ^ 53) * y" by (simp add: algebra_simps add_divide_distrib)
  finally show ?thesis using v(1) by blast
qed

lemma near_relax: "\<bar>v - y\<bar> \<le> a * y \<Longrightarrow> a \<le> b \<Longrightarrow> 0 \<le> y \<Longrightarrow> \<bar>v - y\<bar> \<le> b * (y :: rat)"
  by (meson mult_right_mono order_trans)

text \<open>The code's product of floats for an exact amount \<open>q\<close>, with and without a unit.\<close>

definition float_fen :: "rat \<Rightarrow> rat option \<Rightarrow> rat option" where
  "float_fen q unit =
     float_times (case unit of None \<Rightarrow> double q | Some m \<Rightarrow> float_times (double q) m) 100"

lemma float_fen_exact:
  assumes "q * (case unit of None \<Rightarrow> 1 | Some m \<Rightarrow> m) * 100 = of_nat n" "n < 2 ^ 50"
    and "unit \<in> {None, Some 10000, Some 100000000}"
  shows "\<exists>v. float_fen q unit = Some v \<and> round_half_even v = int n"
proof (cases "n = 0")
  case True
  then have "q = 0" using assms(1,3) by auto
  then show ?thesis
    using True by (auto simp: float_fen_def float_times_def double_def round_half_even_def split: option.splits)
next
  case False
  define m where "m = (case unit of None \<Rightarrow> 1 | Some m \<Rightarrow> m)"
  have m: "1 \<le> m" "m \<le> 100000000" using assms(3) by (auto simp: m_def)
  have n: "1 \<le> (of_nat n :: rat)" "(of_nat n :: rat) < 2 ^ 50"
  proof -
    show "1 \<le> (of_nat n :: rat)" using False by simp
    have "(of_nat n :: rat) < of_nat (2 ^ 50)" using assms(2) by (simp only: of_nat_less_iff)
    then show "(of_nat n :: rat) < 2 ^ 50" by simp
  qed
  have qm: "q * m * 100 = of_nat n" using assms(1) by (simp add: m_def)
  have q: "tiny \<le> q" "q \<le> huge"
  proof -
    have "q = of_nat n / (m * 100)" using qm m by (simp add: field_simps)
    moreover have "1 / (100000000 * 100) \<le> of_nat n / (m * 100)"
      using n m by (intro frac_le) simp_all
    moreover have "of_nat n / (m * 100) \<le> of_nat n / 1" using n m by (intro frac_le) simp_all
    ultimately show "tiny \<le> q" "q \<le> huge" using range_facts(4,5) n by linarith+
  qed
  define e :: rat where "e = 1 / 2 ^ 53"
  have range: "tiny \<le> q * k" "q * k \<le> huge" if "1 \<le> k" "k \<le> m * 100" for k
  proof -
    have "0 < q" using q(1) range_facts(1) by linarith
    then have "q * 1 \<le> q * k" "q * k \<le> q * (m * 100)" using that by (simp_all add: mult_left_mono)
    moreover have "q * (m * 100) = of_nat n" using qm by (simp only: mult.assoc)
    ultimately show "tiny \<le> q * k" "q * k \<le> huge" using q n range_facts(5) by linarith+
  qed
  obtain v1 where v1: "double q = Some v1" "\<bar>v1 - q\<bar> \<le> e * q"
    using double_near [of q q 0] q by (auto simp: e_def)
  have scaled: "\<bar>v * k - q * (j * k)\<bar> \<le> c * (q * (j * k))" if "\<bar>v - q * j\<bar> \<le> c * (q * j)" "0 < k" for v k j c
  proof -
    have "v * k - q * (j * k) = (v - q * j) * k" by (simp only: left_diff_distrib mult.assoc)
    then have "\<bar>v * k - q * (j * k)\<bar> = \<bar>v - q * j\<bar> * k" using that(2) by (simp only: abs_mult abs_of_pos)
    also have "\<dots> \<le> c * (q * j) * k" using that by (simp add: mult_right_mono)
    finally show ?thesis by (simp add: mult.assoc)
  qed
  obtain v2 where v2: "(case unit of None \<Rightarrow> double q | Some m \<Rightarrow> float_times (double q) m) = Some v2"
      "\<bar>v2 - q * m\<bar> \<le> (2 * e + e * e) * (q * m)"
  proof (cases unit)
    case None
    have "e \<le> 2 * e + e * e" by (simp add: e_def)
    moreover have "0 \<le> q" using q(1) range_facts(1) by linarith
    ultimately have "\<bar>v1 - q\<bar> \<le> (2 * e + e * e) * q" by (rule near_relax [OF v1(2)])
    then show ?thesis using that v1(1) None by (simp add: m_def)
  next
    case (Some k)
    then have k: "k = m" by (simp add: m_def)
    have "\<bar>v1 * m - q * m\<bar> \<le> e * (q * m)" using scaled [of v1 1 e m] v1(2) m by simp
    then obtain v where "double (v1 * m) = Some v" "\<bar>v - q * m\<bar> \<le> (e + 1 / 2 ^ 53 + e / 2 ^ 53) * (q * m)"
      using double_near [of "v1 * m" "q * m" e] range [of m] m by (auto simp: e_def)
    then show ?thesis using that [of v] v1(1) Some k by (simp add: float_times_def e_def)
  qed
  have "\<bar>v2 * 100 - q * (m * 100)\<bar> \<le> (2 * e + e * e) * (q * (m * 100))"
    using scaled [OF v2(2), of 100] by simp
  then obtain v3 where v3: "double (v2 * 100) = Some v3"
      "\<bar>v3 - q * (m * 100)\<bar> \<le> (2 * e + e * e + 1 / 2 ^ 53 + (2 * e + e * e) / 2 ^ 53) * (q * (m * 100))"
    using double_near [of "v2 * 100" "q * (m * 100)" "2 * e + e * e"] range [of "m * 100"] m by (auto simp: e_def)
  have n_eq: "q * (m * 100) = of_nat n" using qm by (simp only: mult.assoc)
  have "2 * e + e * e + 1 / 2 ^ 53 + (2 * e + e * e) / 2 ^ 53 \<le> 4 * e" by (simp add: e_def)
  then have "\<bar>v3 - of_nat n\<bar> \<le> (4 * e) * of_nat n"
    using near_relax [OF v3(2) [unfolded n_eq]] by simp
  also have "\<dots> < (4 * e) * 2 ^ 50" using n by (simp add: e_def)
  also have "\<dots> = 1 / 2" by (simp add: e_def)
  finally have "round_half_even v3 = int n" by (intro round_half_even_near) simp
  then show ?thesis using v2(1) v3(1) by (simp add: float_fen_def float_times_def)
qed

section \<open>Reading an amount\<close>

text \<open>The exact value of a decimal literal.\<close>

definition decimal :: "pystr \<Rightarrow> pystr \<Rightarrow> rat" where
  "decimal ip fp = of_nat (digits_value 0 ip) + of_nat (digits_value 0 fp) / 10 ^ length fp"

definition amount_text :: "pystr \<Rightarrow> pystr \<Rightarrow> pystr \<Rightarrow> pystr" where
  "amount_text ip fp unit = ip @ (if fp = [] then [] else 46 # fp) @ unit @ [YUAN]"

definition unit_of :: "pystr \<Rightarrow> rat option" where
  "unit_of unit = (if unit = [WAN] then Some 10000 else if unit = [YI] then Some 100000000 else None)"

lemma digits_front:
  "list_all ascii_digit ds \<Longrightarrow> \<not> ascii_digit c \<Longrightarrow>
     takeWhile ascii_digit (ds @ c # r) = ds \<and> dropWhile ascii_digit (ds @ c # r) = c # r"
  by (induction ds) simp_all

lemma not_digits [simp]: "\<not> ascii_digit 46" "\<not> ascii_digit WAN" "\<not> ascii_digit YI" "\<not> ascii_digit YUAN"
  by (simp_all add: ascii_digit_def WAN_def YI_def YUAN_def)

lemma not_spaces [simp]: "\<not> py_isspace WAN" "\<not> py_isspace YI" "\<not> py_isspace YUAN"
  by (simp_all add: py_isspace_def WAN_def YI_def YUAN_def)

lemma digit_not_space: "ascii_digit c \<Longrightarrow> \<not> py_isspace c"
  by (simp add: ascii_digit_def py_isspace_def)

lemma strip_amount:
  assumes "ip \<noteq> []" "list_all ascii_digit ip"
  shows "py_strip (amount_text ip fp unit) = amount_text ip fp unit"
proof -
  obtain c cs where "ip = c # cs" using assms(1) by (cases ip) auto
  then show ?thesis using assms(2) digit_not_space by (simp add: py_strip_def amount_text_def)
qed

lemma money_number_amount:
  assumes "ip \<noteq> []" "list_all ascii_digit ip" "list_all ascii_digit fp" "unit \<in> {[], [WAN], [YI]}"
  shows "money_number (amount_text ip fp unit) = Some (decimal ip fp, unit @ [YUAN])"
proof -
  obtain c cs where ip: "ip = c # cs" using assms(1) by (cases ip) auto
  obtain d r where tail: "unit @ [YUAN] = d # r" "\<not> ascii_digit d" "d \<noteq> 46"
    using assms(4) by (auto simp: WAN_def YI_def YUAN_def ascii_digit_def)
  have start: "dropWhile (\<lambda>c. \<not> ascii_digit c) (amount_text ip fp unit) = amount_text ip fp unit"
    using ip assms(2) by (simp add: amount_text_def)
  show ?thesis
  proof (cases "fp = []")
    case True
    then have "amount_text ip fp unit = ip @ d # r" by (simp add: amount_text_def tail(1))
    then show ?thesis
      using start True assms(1) tail digits_front [OF assms(2) tail(2)] by (simp add: money_number_def decimal_def Let_def)
  next
    case False
    then have "amount_text ip fp unit = ip @ 46 # fp @ d # r" by (simp add: amount_text_def tail(1))
    then show ?thesis
      using start False assms(1) tail(1) digits_front [OF assms(2)] digits_front [OF assms(3) tail(2)]
      by (simp add: money_number_def decimal_def Let_def)
  qed
qed

lemma money_unit_amount: "unit \<in> {[], [WAN], [YI]} \<Longrightarrow> money_unit (unit @ [YUAN]) = unit_of unit"
  by (auto simp: money_unit_def unit_of_def) (simp_all add: WAN_def YI_def YUAN_def)

section \<open>Properties\<close>

text \<open>C0: An amount in yuan, ten thousand yuan or hundred million yuan that is a whole number of fen below
  \<open>2 ^ 50\<close> (about 11 trillion yuan) is converted to exactly that number, although the code multiplies and
  rounds binary floats.\<close>

theorem parse_money_exact:
  assumes "ip \<noteq> []" "list_all ascii_digit ip" "list_all ascii_digit fp" "unit \<in> {[], [WAN], [YI]}"
    and "decimal ip fp * (case unit_of unit of None \<Rightarrow> 1 | Some m \<Rightarrow> m) * 100 = of_nat fen" "fen < 2 ^ 50"
  shows "parse_money (Some (amount_text ip fp unit)) =
     Inr (Some \<lparr>minor_units = int fen, currency = u ''CNY'', raw_text = Some (amount_text ip fp unit)\<rparr>)"
proof -
  have "unit_of unit \<in> {None, Some 10000, Some 100000000}" by (simp add: unit_of_def)
  then obtain v where "float_fen (decimal ip fp) (unit_of unit) = Some v" "round_half_even v = int fen"
    using float_fen_exact [OF assms(5,6)] by blast
  moreover have "amount_text ip fp unit \<noteq> []" by (simp add: amount_text_def)
  ultimately show ?thesis
    using strip_amount [OF assms(1,2)] money_number_amount [OF assms(1-4)] money_unit_amount [OF assms(4)]
    by (simp add: parse_money_def float_fen_def Let_def)
qed

text \<open>680.5 ten thousand yuan.\<close>

theorem parse_money_exact_witness:
  "parse_money (Some (u ''680.5'' @ [WAN, YUAN])) =
     Inr (Some \<lparr>minor_units = 680500000, currency = u ''CNY'', raw_text = Some (u ''680.5'' @ [WAN, YUAN])\<rparr>)"
proof -
  have "digits_value 0 (u ''680'') = 680" "digits_value 0 (u ''5'') = 5"
    by (simp_all add: digit_value_def nd_zeros_def)
  then have "decimal (u ''680'') (u ''5'') * (case unit_of [WAN] of None \<Rightarrow> 1 | Some m \<Rightarrow> m) * 100 = of_nat 680500000"
    by (simp add: decimal_def unit_of_def del: u_Cons)
  from parse_money_exact [OF _ _ _ _ this] show ?thesis
    by (simp add: ascii_digit_def amount_text_def)
qed

text \<open>An amount with a thousands separator is cut at the separator and loses its unit: the text of 1,200
  ten thousand yuan is read as one yuan.\<close>

theorem thousands_separator_cut:
  "parse_money (Some (u ''1,200'' @ [WAN, YUAN])) =
     Inr (Some \<lparr>minor_units = 100, currency = u ''CNY'', raw_text = Some (u ''1,200'' @ [WAN, YUAN])\<rparr>)"
proof -
  obtain v where v: "float_fen 1 None = Some v" "round_half_even v = 100"
    using float_fen_exact [of 1 None 100] by auto
  have "py_strip (u ''1,200'' @ [WAN, YUAN]) = u ''1,200'' @ [WAN, YUAN]"
    by (simp add: py_strip_def) (simp add: py_isspace_def)
  moreover have "money_number (u ''1,200'' @ [WAN, YUAN]) = Some (1, u '',200'' @ [WAN, YUAN])"
    by (simp add: money_number_def ascii_digit_def digit_value_def nd_zeros_def)
  moreover have "money_unit (u '',200'' @ [WAN, YUAN]) = None"
    by (simp add: money_unit_def py_isspace_def WAN_def YI_def)
  ultimately show ?thesis using v by (simp add: parse_money_def float_fen_def Let_def del: u_Cons) 
qed

section \<open>Parsed notices\<close>

definition provenance_ok :: "NormalizedNotice \<Rightarrow> bool" where
  "provenance_ok n \<longleftrightarrow>
     pv_valid (validate_provenance (nn_source n) (nn_capture_kind n) (hu_host (nn_source_url n)) (nn_external_id n))
     \<and> \<not> naive (nn_publish_time n) \<and> \<not> naive (nn_deadline n)"

lemma make_notice_Inr: "make_notice n = Inr n' \<longleftrightarrow> n' = n \<and> provenance_ok n"
  by (auto simp: make_notice_def provenance_ok_def raise_invalid_def split: if_splits)

lemma case_Inr: "(case r of Inl _ \<Rightarrow> Inl e | Inr n \<Rightarrow> Inr n) = Inr y \<longleftrightarrow> r = Inr y"
  by (cases r) auto

lemma build_notice_Inr:
  assumes "build_notice casefold source kind version url fs extra = Inr n"
  shows "nn_source n = source \<and> nn_capture_kind n = kind \<and> nn_source_url n = url \<and> nn_parser_version n = version
     \<and> provenance_ok n \<and> nn_external_id n = (case text_field fs ''external_id'' of None \<Rightarrow> [] | Some s \<Rightarrow> s)
     \<and> nn_title n = normalize_whitespace (text_field fs ''title'')
     \<and> nn_purchaser n = normalize_whitespace (text_field fs ''purchaser'')
     \<and> nn_region n = normalize_whitespace (text_field fs ''region'')
     \<and> nn_cancellation n = parse_cancellation casefold (case map_of fs ''cancellation'' of None \<Rightarrow> JNull | Some v \<Rightarrow> v)"
  using assms by (auto simp: build_notice_def bind_res_Inr Let_def case_Inr make_notice_Inr)

lemma parse_records_all:
  "parse_records parse vs = Inr ns \<Longrightarrow> n \<in> set ns \<Longrightarrow> \<exists>v \<in> set vs. parse v = Inr n"
  by (induction vs arbitrary: ns) (fastforce simp: bind_res_Inr split: sum.splits parse_error.splits)+

lemma map_res_all: "map_res f xs = Inr ys \<Longrightarrow> y \<in> set ys \<Longrightarrow> \<exists>x \<in> set xs. f x = Inr y"
  by (induction xs arbitrary: ys) (auto simp: bind_res_Inr)

lemma parse_record_kind:
  "parse_record env m v = Inr n \<Longrightarrow>
     nn_source n = SourceName.SYNTHETIC_DEMO \<and> nn_capture_kind n = CaptureKind.SYNTHETIC_DEMO \<and> provenance_ok n"
  by (auto simp: parse_record_def bind_res_Inr Let_def dest: build_notice_Inr split: jvalue.splits option.splits)

lemma parse_item_kind:
  "parse_item env m url fm v = Inr n \<Longrightarrow> nn_source n = CCGP \<and> nn_capture_kind n = mf_capture_kind m \<and> provenance_ok n"
  by (auto simp: parse_item_def dest!: build_notice_Inr split: jvalue.splits option.splits if_splits)

lemma adapter_kind:
  assumes "adapter_parse env source dir = Inr ns" "n \<in> set ns"
    and "ins_manifest (inspect_bundle (pe_bundle env) (pe_links env) dir) = Some m"
  shows "nn_source n = source \<and> provenance_ok n
     \<and> nn_capture_kind n = (if source = SourceName.SYNTHETIC_DEMO then CaptureKind.SYNTHETIC_DEMO else mf_capture_kind m)"
proof -
  consider "source = SourceName.SYNTHETIC_DEMO" "parse_demo env dir m = Inr ns"
    | "source = CCGP" "parse_raw_response env dir m = Inr ns"
    | "source \<noteq> SourceName.SYNTHETIC_DEMO" "parse_html env source dir m = Inr ns"
    using assms(1,3) by (auto simp: adapter_parse_def Let_def split: if_splits)
  then show ?thesis
  proof cases
    case 1
    then obtain v where "parse_record env m v = Inr n"
      using assms(2) parse_records_all [of "parse_record env m"]
      by (auto simp: parse_demo_def bind_res_Inr split: option.splits jvalue.splits if_splits)
    then show ?thesis using parse_record_kind 1(1) by simp
  next
    case 2
    then obtain url fm v where "parse_item env m url fm v = Inr n"
      using assms(2) by (auto simp: parse_raw_response_def split: option.splits jvalue.splits list.splits dest!: map_res_all)
    then show ?thesis using parse_item_kind 2(1) by fastforce
  next
    case 3
    then show ?thesis
      using assms(2) by (auto simp: parse_html_def bind_res_Inr dest!: build_notice_Inr split: option.splits list.splits)
  qed
qed

lemma load_inspected:
  assumes "ins_valid (inspect_bundle env links dir)"
  shows "ins_manifest (inspect_bundle env links dir) = Some m \<longleftrightarrow> load_manifest env dir = Inr m"
  using assms
  by (auto simp: inspect_bundle_def inspect_manifest_def ins_valid_def rejected_def load_manifest_def bundle_file_def Let_def
      split: option.splits entry.splits link_kind.splits jvalue.splits sum.splits prod.splits if_splits simp del: u_Cons)

lemma check_provenance_all:
  "check_provenance env m hs = None \<Longrightarrow> h \<in> set hs \<Longrightarrow>
     pv_valid (validate_provenance (mf_source m) (mf_capture_kind m) (hu_host h) (mf_bundle_id m))"
  by (induction hs) (auto simp: raise_invalid_def split: if_splits)

lemma admitted_kind:
  assumes "load_manifest env dir = Inr m"
  shows "mf_source m = SourceName.SYNTHETIC_DEMO \<longleftrightarrow> mf_capture_kind m = CaptureKind.SYNTHETIC_DEMO"
proof -
  obtain raw where v: "validate_manifest env raw = Inr m"
    using assms by (auto simp: load_manifest_def split: option.splits jvalue.splits sum.splits)
  then have "url_issues env (case map_of raw (u ''source_urls'') of None \<Rightarrow> JNull | Some v \<Rightarrow> v) (mf_source_urls m) = []"
    by (simp add: validate_manifest_Inr manifest_field_issues_def del: u_Cons)
  then have "mf_source_urls m \<noteq> []"
    by (auto simp: url_issues_def field_issues_def split: option.splits simp del: u_Cons)
  then obtain h where "h \<in> set (mf_source_urls m)" by (cases "mf_source_urls m") auto
  then have "pv_valid (validate_provenance (mf_source m) (mf_capture_kind m) (hu_host h) (mf_bundle_id m))"
    using check_provenance_all v unfolding validate_manifest_Inr by blast
  then show ?thesis unfolding validate_provenance_iff by auto
qed

text \<open>C15: Whatever adapter parses a bundle, the bundle passed inspection, every notice carries the source and the
  capture kind of its manifest, its host and identifier satisfy the provenance rule and its times are aware.\<close>

theorem parsed_notices_sound:
  assumes "parse_bundle env dir = Inr ns"
  shows "\<exists>m. ins_manifest (inspect_bundle (pe_bundle env) (pe_links env) dir) = Some m
     \<and> ins_valid (inspect_bundle (pe_bundle env) (pe_links env) dir)
     \<and> list_all (\<lambda>n. nn_source n = mf_source m \<and> nn_capture_kind n = mf_capture_kind m \<and> provenance_ok n) ns"
proof -
  obtain m where m: "load_manifest (pe_bundle env) dir = Inr m" "adapter_parse env (mf_source m) dir = Inr ns"
    using assms by (auto simp: parse_bundle_def bind_res_Inr split: sum.splits parse_error.splits)
  then have v: "ins_valid (inspect_bundle (pe_bundle env) (pe_links env) dir)"
    by (auto simp: adapter_parse_def Let_def split: option.splits if_splits)
  then have i: "ins_manifest (inspect_bundle (pe_bundle env) (pe_links env) dir) = Some m"
    using load_inspected m(1) by blast
  have "nn_source n = mf_source m \<and> nn_capture_kind n = mf_capture_kind m \<and> provenance_ok n" if "n \<in> set ns" for n
    using adapter_kind [OF m(2) that i] admitted_kind [OF m(1)] by (simp split: if_splits)
  then show ?thesis using i v by (simp add: list_all_iff)
qed

lemma item_fields_read:
  "text_field (item_fields env item fm x) ''external_id'' = Some x"
  "text_field (item_fields env item fm x) ''title'' = mapped_text env item ''title'' fm"
  "text_field (item_fields env item fm x) ''purchaser'' = mapped_text env item ''purchaser'' fm"
  "text_field (item_fields env item fm x) ''region'' = mapped_text env item ''region'' fm"
  "map_of (item_fields env item fm x) ''cancellation'' = Some (JBool (mapped_cancellation env item fm))"
  by (simp_all add: item_fields_def text_field_def opt_json_def split: option.split)

definition notice_of_item :: "parse_env \<Rightarrow> (pystr \<times> pystr) list \<Rightarrow> jvalue \<Rightarrow> NormalizedNotice \<Rightarrow> bool" where
  "notice_of_item env fm v n \<longleftrightarrow>
     (\<exists>item. v = JObject item
        \<and> mapped_text env item ''external_id'' fm = Some (nn_external_id n) \<and> nn_external_id n \<noteq> []
        \<and> nn_title n = normalize_whitespace (mapped_text env item ''title'' fm)
        \<and> nn_purchaser n = normalize_whitespace (mapped_text env item ''purchaser'' fm)
        \<and> nn_region n = normalize_whitespace (mapped_text env item ''region'' fm)
        \<and> nn_cancellation n = mapped_cancellation env item fm)"

lemma parse_item_notice:
  assumes "parse_item env m url fm v = Inr n"
  shows "notice_of_item env fm v n"
proof -
  obtain item x where i: "v = JObject item" "mapped_text env item ''external_id'' fm = Some x" "x \<noteq> []"
      "build_notice (be_casefold (pe_bundle env)) CCGP (mf_capture_kind m) (mf_parser_version m) url (item_fields env item fm x) []
         = Inr n"
    using assms by (auto simp: parse_item_def split: jvalue.splits option.splits if_splits)
  then show ?thesis
    using build_notice_Inr [OF i(4)] by (simp add: notice_of_item_def item_fields_read parse_cancellation_def)
qed

lemma raw_items:
  assumes "parse_raw_response env dir m = Inr ns"
  shows "\<exists>data payload a items. bundle_file dir ''response.json'' = Some data
     \<and> be_decode (pe_bundle env) data = Some (JObject payload) \<and> mf_acquisition_metadata m = Some a
     \<and> map_of payload (am_response_items_field a) = Some (JArray items)
     \<and> list_all2 (notice_of_item env (am_notice_field_map a)) items ns"
proof -
  obtain payload a items where
      d: "Option.bind (bundle_file dir ''response.json'') (be_decode (pe_bundle env)) = Some (JObject payload)"
    and a: "mf_acquisition_metadata m = Some a"
    and items: "map_of payload (am_response_items_field a) = Some (JArray items)"
    and r: "map_res (\<lambda>v. case mf_source_urls m of [] \<Rightarrow> Inl Other_exception
         | url # _ \<Rightarrow> parse_item env m url (am_notice_field_map a) v) items = Inr ns"
    using assms by (auto simp: parse_raw_response_def split: option.splits jvalue.splits)
  have "list_all2 (notice_of_item env (am_notice_field_map a)) items ns"
    using map_res_InrD [OF r] by (rule list_all2_mono) (auto split: list.splits intro: parse_item_notice)
  then show ?thesis using d a items by (auto simp: bind_eq_Some_conv)
qed

text \<open>A raw response is parsed into one notice per item of its items list, in order; the identifier is the
  text under the item's mapped key, the title, purchaser and region are the normalised texts under theirs.\<close>

theorem raw_response_items:
  assumes "parse_raw_response env dir m = Inr ns"
  shows "\<exists>data payload a items. bundle_file dir ''response.json'' = Some data
     \<and> be_decode (pe_bundle env) data = Some (JObject payload) \<and> mf_acquisition_metadata m = Some a
     \<and> map_of payload (am_response_items_field a) = Some (JArray items)
     \<and> list_all2 (notice_of_item env (am_notice_field_map a)) items ns"
  using assms by (rule raw_items)

text \<open>A page without a row for the project number is not refused: the notice gets the empty identifier, which
  all such pages of a source share.\<close>

theorem missing_identifier_admitted:
  assumes "bundle_file dir ''detail.html'' = Some data" "read_page env source data = Some \<lparr>page_title = Some t, page_rows = []\<rparr>"
    and "normalize_whitespace (Some t) = Some title" "mf_source_urls m = url # urls"
    and "pv_valid (validate_provenance source (mf_capture_kind m) (hu_host url) [])"
  shows "\<exists>n. parse_html env source dir m = Inr [n] \<and> nn_external_id n = []"
  using assms
  by (simp add: parse_html_def build_notice_def text_field_def parse_money_def parse_datetime_def make_notice_def naive_def
      raise_invalid_def)

section \<open>Witnesses\<close>

definition page_url :: HttpUrl where
  "page_url = \<lparr>hu_text = u ''https://www.ccgp.gov.cn/'', hu_scheme = u ''https'', hu_host = Some (u ''www.ccgp.gov.cn''),
     hu_port = None, hu_username = None, hu_password = None, hu_query = None, hu_fragment = None\<rparr>"

definition demo_url :: HttpUrl where
  "demo_url = page_url\<lparr>hu_text := u ''https://example.invalid/1'', hu_host := Some (u ''example.invalid'')\<rparr>"

definition demo_payload :: jobject where
  "demo_payload = [(u ''notices'', JArray [JObject [(u ''id'', JString (u ''demo-1'')), (u ''title'', JString (u ''t''))]])]"

definition demo_parse :: parse_env where
  "demo_parse = \<lparr>pe_bundle = (im_env demo_import)\<lparr>be_decode := \<lambda>d. Some (JObject (if d = [0] then demo_raw else demo_payload)),
        be_coerce := \<lambda>_. Inr (demo_manifest\<lparr>mf_files := [(u ''notices.json'', hash_bytes [1])]\<rparr>)\<rparr>,
     pe_links = (\<lambda>_. None), read_page = (\<lambda>_ _. Some \<lparr>page_title = Some (u ''t''), page_rows = []\<rparr>),
     http_url = (\<lambda>_. Some demo_url), float_text = (\<lambda>_. []), any_text = (\<lambda>_. [])\<rparr>"

definition demo_bundle :: directory where
  "demo_bundle = [([u ''manifest.json''], File (Some [0])), ([u ''notices.json''], File (Some [1]))]"

definition raw_payload :: jobject where
  "raw_payload = [(u ''items'', JArray [JObject [(u ''external_id'', JInt 7), (u ''title'', JString (u '' a  b ''))]])]"

definition raw_parse :: parse_env where
  "raw_parse = demo_parse\<lparr>pe_bundle := (pe_bundle demo_parse)\<lparr>be_decode := \<lambda>_. Some (JObject raw_payload)\<rparr>\<rparr>"

definition raw_manifest :: SnapshotManifest where
  "raw_manifest = v1_manifest\<lparr>mf_acquisition_metadata := Some \<lparr>am_response_sha256 = [], am_status_code = 200,
     am_cursor_before = None, am_cursor_after = None, am_request_count = 1, am_record_count = 1,
     am_response_items_field = u ''items'', am_notice_field_map = [], am_extra = []\<rparr>\<rparr>"

theorem raw_response_items_witness:
  "\<exists>ns. parse_raw_response raw_parse [([u ''response.json''], File (Some []))] raw_manifest = Inr ns
     \<and> length ns = 1"
proof -
  have p: "\<exists>ns. parse_raw_response raw_parse [([u ''response.json''], File (Some []))] raw_manifest = Inr ns"
    by (simp add: parse_raw_response_def bundle_file_def raw_parse_def raw_payload_def raw_manifest_def v1_manifest_def
        parse_item_def mapped_text_def mapped_key_def show_int_def build_notice_def item_fields_def text_field_def opt_json_def
        parse_money_def parse_datetime_def make_notice_def naive_def raise_invalid_def validate_provenance_def
        provenance_errors_official_def OFFICIAL_HOSTS_BY_SOURCE_def SYNTHETIC_HOST_def synthetic_id_prefix_def show_nat.simps Let_def)
  then obtain ns where ns: "parse_raw_response raw_parse [([u ''response.json''], File (Some []))] raw_manifest = Inr ns" by blast
  from raw_response_items [OF this] obtain payload a items where
    "be_decode (pe_bundle raw_parse) [] = Some (JObject payload)" "mf_acquisition_metadata raw_manifest = Some a"
    "map_of payload (am_response_items_field a) = Some (JArray items)"
    "list_all2 (notice_of_item raw_parse (am_notice_field_map a)) items ns"
    by (auto simp: bundle_file_def)
  then have "length ns = 1"
    by (auto simp: raw_parse_def raw_payload_def raw_manifest_def dest!: list_all2_lengthD)
  then show ?thesis using ns by blast
qed

theorem missing_identifier_admitted_witness:
  "\<exists>n. parse_html demo_parse CCGP [([u ''detail.html''], File (Some []))] (v1_manifest\<lparr>mf_source_urls := [page_url]\<rparr>) = Inr [n]
     \<and> nn_external_id n = []"
proof (rule missing_identifier_admitted)
  show "normalize_whitespace (Some (u ''t'')) = Some (u ''t'')"
    by (simp add: normalize_whitespace_def py_strip_def py_isspace_def Let_def)
  show "pv_valid (validate_provenance CCGP (mf_capture_kind (v1_manifest\<lparr>mf_source_urls := [page_url]\<rparr>)) (hu_host page_url) [])"
    by (simp add: v1_manifest_def page_url_def validate_provenance_def provenance_errors_official_def
        OFFICIAL_HOSTS_BY_SOURCE_def SYNTHETIC_HOST_def synthetic_id_prefix_def)
qed (simp_all add: bundle_file_def demo_parse_def)

lemma demo_bundle_manifest:
  "validate_manifest (pe_bundle demo_parse) demo_raw = Inr (demo_manifest\<lparr>mf_files := [(u ''notices.json'', hash_bytes [1])]\<rparr>)"
proof -
  let ?m = "demo_manifest\<lparr>mf_files := [(u ''notices.json'', hash_bytes [1])]\<rparr>"
  have "manifest_field_issues (pe_bundle demo_parse)
      (case map_of demo_raw (u ''source_urls'') of None \<Rightarrow> JNull | Some v \<Rightarrow> v) ?m = []"
    by (simp add: manifest_field_issues_def demo_parse_def demo_import_def demo_raw_def demo_manifest_def field_issues_def
        url_issues_def check_raw_urls_def urlsplit_def split_scheme_def split_netloc_def ascii_alpha_def scheme_char_def
        ascii_lower_def hash_bytes_match dt_aware_def)
  moreover have "check_provenance (pe_bundle demo_parse) ?m (mf_source_urls ?m) = None"
    by (simp add: demo_manifest_def raise_invalid_def validate_provenance_def provenance_errors_synthetic_def
        SYNTHETIC_HOST_def synthetic_id_prefix_def)
  ultimately show ?thesis
    by (simp add: validate_manifest_Inr check_authorized_contract_def) (simp add: demo_parse_def demo_manifest_def)
qed

lemma demo_bundle_inspected:
  "ins_manifest (inspect_bundle (pe_bundle demo_parse) (pe_links demo_parse) demo_bundle) =
     Some (demo_manifest\<lparr>mf_files := [(u ''notices.json'', hash_bytes [1])]\<rparr>)"
  "ins_errors (inspect_bundle (pe_bundle demo_parse) (pe_links demo_parse) demo_bundle) = []"
  "load_manifest (pe_bundle demo_parse) demo_bundle = Inr (demo_manifest\<lparr>mf_files := [(u ''notices.json'', hash_bytes [1])]\<rparr>)"
  "mf_source demo_manifest = SourceName.SYNTHETIC_DEMO"
proof -
  let ?m = "demo_manifest\<lparr>mf_files := [(u ''notices.json'', hash_bytes [1])]\<rparr>"
  have dec: "be_decode (pe_bundle demo_parse) [0] = Some (JObject demo_raw)" by (simp add: demo_parse_def)
  have files: "inspect_files (pe_links demo_parse) demo_bundle (mf_files ?m) = ([], [(u ''notices.json'', hash_bytes [1])])"
    by (simp add: inspect_files_def inspect_declared_def unexpected_files_def payload_files_def safe_relative_def
        contains_symlink_def path_parts_def demo_manifest_def demo_bundle_def regular_def Let_def)
  then have i: "inspect_bundle (pe_bundle demo_parse) (pe_links demo_parse) demo_bundle =
      \<lparr>ins_bundle_id = Some (mf_bundle_id ?m), ins_errors = [], ins_actual_hashes = [(u ''notices.json'', hash_bytes [1])],
       ins_manifest_sha256 = Some (hash_bytes [0]), ins_manifest = Some ?m\<rparr>"
    using demo_bundle_manifest dec by (simp add: inspect_bundle_def inspect_manifest_def demo_bundle_def Let_def)
  show "ins_manifest (inspect_bundle (pe_bundle demo_parse) (pe_links demo_parse) demo_bundle) = Some ?m"
    "ins_errors (inspect_bundle (pe_bundle demo_parse) (pe_links demo_parse) demo_bundle) = []"
    using i by simp_all
  show "load_manifest (pe_bundle demo_parse) demo_bundle = Inr ?m"
    using demo_bundle_manifest dec by (simp add: load_manifest_def bundle_file_def demo_bundle_def)
  show "mf_source demo_manifest = SourceName.SYNTHETIC_DEMO" by (simp add: demo_manifest_def)
qed

theorem parsed_notices_sound_witness:
  "\<exists>m ns. ins_manifest (inspect_bundle (pe_bundle demo_parse) (pe_links demo_parse) demo_bundle) = Some m \<and> length ns = 1
     \<and> parse_bundle demo_parse demo_bundle = Inr ns
     \<and> list_all (\<lambda>n. nn_source n = mf_source m \<and> nn_capture_kind n = mf_capture_kind m \<and> provenance_ok n) ns"
proof -
  have "\<exists>ns. parse_demo demo_parse demo_bundle (demo_manifest\<lparr>mf_files := [(u ''notices.json'', hash_bytes [1])]\<rparr>) = Inr ns
      \<and> length ns = 1"
    by (simp add: parse_demo_def bundle_file_def demo_bundle_def demo_parse_def demo_payload_def parse_record_def demo_text_def
        py_str_def build_notice_def text_field_def opt_json_def parse_money_def parse_datetime_def make_notice_def naive_def
        raise_invalid_def validate_provenance_def provenance_errors_synthetic_def demo_url_def SYNTHETIC_HOST_def
        synthetic_id_prefix_def normalize_whitespace_def py_strip_def py_isspace_def Let_def)
  then obtain ns where ns: "parse_demo demo_parse demo_bundle (demo_manifest\<lparr>mf_files := [(u ''notices.json'', hash_bytes [1])]\<rparr>)
      = Inr ns" "length ns = 1"
    by blast
  then have "parse_bundle demo_parse demo_bundle = Inr ns"
    using demo_bundle_inspected by (simp add: parse_bundle_def adapter_parse_def ins_valid_def)
  then have "\<exists>ns. parse_bundle demo_parse demo_bundle = Inr ns \<and> length ns = 1" using ns(2) by blast
  then show ?thesis using parsed_notices_sound [of demo_parse demo_bundle] by blast
qed

end
