(* ===== verification/Materializer_Properties.thy ===== *)
theory Materializer_Properties
  imports Materializer Parser_Properties Acquisition_Properties
begin

text \<open>
  What materialization guarantees: a staged bundle passes inspection and holds the page's bytes, a refusal
  stages nothing, repeating it changes nothing, and the notices parsed from it are the items the client
  fetched.
\<close>

section \<open>Staged bundles\<close>

definition staged_bundle :: "mat_env \<Rightarrow> AuthorizedSourcePage \<Rightarrow> MaterializedBundle \<Rightarrow> directory \<Rightarrow> bool" where
  "staged_bundle mat page b dir \<longleftrightarrow>
     ins_valid (inspect_bundle (pe_bundle (me_parse mat)) (pe_links (me_parse mat)) dir)
     \<and> bundle_file dir ''response.json'' = Some (response_bytes page)
     \<and> bundle_file dir ''manifest.json'' = Some (manifest_json_bytes mat (mb_manifest b))
     \<and> bundle_size mat dir \<le> max_bundle_bytes mat
     \<and> mf_bundle_id (mb_manifest b) = mb_bundle_id b
     \<and> mf_files (mb_manifest b) = [(u ''response.json'', hash_bytes (response_bytes page))]
     \<and> mb_response_sha256 b = hash_bytes (response_bytes page)
     \<and> (\<exists>c. mf_data_contract (mb_manifest b) = Some c \<and> ac_review_status c = ''approved'')"

lemma two_files [simp]:
  "bundle_file [([u ''response.json''], File (Some r)), ([u ''manifest.json''], File (Some m))] ''response.json'' = Some r"
  "bundle_file [([u ''response.json''], File (Some r)), ([u ''manifest.json''], File (Some m))] ''manifest.json'' = Some m"
  by (simp_all add: bundle_file_def)

lemma build_manifest_Some:
  "build_manifest env page batch_id bundle_id contract meta parser_version outcome = Some m \<Longrightarrow>
     mf_bundle_id m = bundle_id \<and> mf_files m = [(u ''response.json'', am_response_sha256 meta)]
     \<and> mf_data_contract m = Some contract \<and> mf_acquisition_metadata m = Some meta
     \<and> mf_source m = CCGP \<and> mf_capture_kind m = RAW_RESPONSE"
  by (auto simp: build_manifest_def bind_eq_Some_conv Let_def split: if_splits)

text \<open>A page is refused whatever is staged, or its admitted manifest is settled.\<close>

definition admits :: "AuthorizedSourcePage \<Rightarrow> SnapshotManifest \<Rightarrow> bool" where
  "admits page m \<longleftrightarrow>
     mf_files m = [(u ''response.json'', hash_bytes (response_bytes page))] \<and> mf_source m = CCGP
     \<and> mf_capture_kind m = RAW_RESPONSE \<and> (\<exists>c. mf_data_contract m = Some c \<and> ac_review_status c = ''approved'')
     \<and> (\<exists>safe. mf_acquisition_metadata m = Some (acquisition_metadata_of page safe))"

lemma materialize_cases:
  "(\<exists>e. \<forall>stg. materialize mat page batch_id data_contract outcome parser_version extra stg = (Inl e, stg)) \<or>
   (\<exists>m. admits page m \<and> (\<forall>stg. materialize mat page batch_id data_contract outcome parser_version extra stg = settle_bundle mat page m stg))"
proof (cases data_contract)
  case None
  then show ?thesis by (simp add: materialize_def)
next
  case (Some c)
  show ?thesis
  proof (cases "page_error mat page c")
    case None
    then have approved: "ac_review_status c = ''approved''" by (simp add: page_error_def split: if_splits)
    show ?thesis
    proof (cases "safe_extra_metadata (me_parse mat) extra")
      case (Inl e)
      then show ?thesis using Some None by (simp add: materialize_def)
    next
      case (Inr safe)
      let ?meta = "acquisition_metadata_of page safe"
      let ?built = "build_manifest (me_parse mat) page batch_id (bundle_identifier mat page
         (page_identity page batch_id c ?meta outcome parser_version)) c ?meta parser_version outcome"
      have "admits page m" if "?built = Some m" for m
        using build_manifest_Some [OF that] approved by (auto simp: admits_def acquisition_metadata_of_def)
      moreover have "materialize mat page batch_id data_contract outcome parser_version extra stg =
          (if metadata_issues (pe_bundle (me_parse mat)) [] ?meta \<noteq> [] then (Inl Invalid_metadata, stg)
           else case ?built of None \<Rightarrow> (Inl Invalid_manifest, stg) | Some m \<Rightarrow> settle_bundle mat page m stg)" for stg
        using Some None Inr by (simp add: materialize_def Let_def)
      ultimately show ?thesis by (cases ?built) auto
    qed
  qed (use Some in \<open>simp add: materialize_def\<close>)
qed

lemma settle_Inr:
  assumes "settle_bundle mat page m stg = (Inr b, stg')" "admits page m"
  shows "mb_manifest b = m \<and> mb_bundle_id b = mf_bundle_id m
     \<and> (\<exists>dir. map_of stg' (mf_bundle_id m) = Some (Bundle_dir dir) \<and> staged_bundle mat page b dir
          \<and> (stg' = stg \<or> stg' = dict_set (mf_bundle_id m) (Bundle_dir dir) stg))"
proof (cases "map_of stg (mf_bundle_id m)")
  case None
  then show ?thesis
    using assms by (auto simp: settle_bundle_def stage_new_def staged_bundle_def admits_def Let_def not_less split: if_splits
        simp del: u_Cons)
next
  case (Some t)
  then show ?thesis
    using assms by (cases t) (auto simp: settle_bundle_def reuse_existing_def staged_bundle_def admits_def not_less
        split: if_splits simp del: u_Cons)
qed

text \<open>C14: A materialized bundle is staged under its identifier, passes inspection, stays within the size limit and
  holds exactly the bytes of the page, whose digest its manifest declares under an approved contract; every other
  entry of the staging directory is left alone.\<close>

theorem materialized_bundle_stands:
  assumes "materialize mat page batch_id data_contract outcome parser_version extra stg = (Inr b, stg')"
  shows "\<exists>dir. map_of stg' (mb_bundle_id b) = Some (Bundle_dir dir) \<and> staged_bundle mat page b dir
     \<and> (stg' = stg \<or> stg' = dict_set (mb_bundle_id b) (Bundle_dir dir) stg)"
proof -
  obtain m where "admits page m" "settle_bundle mat page m stg = (Inr b, stg')"
    using materialize_cases [of mat page batch_id data_contract outcome parser_version extra] assms by auto
  then show ?thesis using settle_Inr by fastforce
qed

text \<open>Materializing a page again in the directory it was staged in returns the same bundle and changes
  nothing, and a page that is refused leaves the staging directory as it was.\<close>

theorem materialize_idempotent:
  "case materialize mat page batch_id data_contract outcome parser_version extra stg of
     (Inl e, stg') \<Rightarrow> stg' = stg
   | (Inr b, stg') \<Rightarrow> materialize mat page batch_id data_contract outcome parser_version extra stg' = (Inr b, stg')"
  using materialize_cases [of mat page batch_id data_contract outcome parser_version extra]
proof (elim disjE exE conjE)
  fix m assume m: "admits page m"
    "\<forall>stg. materialize mat page batch_id data_contract outcome parser_version extra stg = settle_bundle mat page m stg"
  obtain r stg' where r: "settle_bundle mat page m stg = (r, stg')" by (metis surj_pair)
  show ?thesis
  proof (cases r)
    case (Inl e)
    then have "stg' = stg"
      using r by (auto simp: settle_bundle_def stage_new_def Let_def split: option.splits if_splits)
    then show ?thesis using m(2) r Inl by simp
  next
    case (Inr b)
    then obtain dir where d: "map_of stg' (mf_bundle_id m) = Some (Bundle_dir dir)" "staged_bundle mat page b dir"
        "mb_manifest b = m" "mb_bundle_id b = mf_bundle_id m"
      using settle_Inr [of mat page m stg b stg'] r m(1) by blast
    have "reuse_existing mat (Bundle_dir dir) m (manifest_json_bytes mat m) (response_bytes page) = Inr b"
      using d by (cases b) (simp add: reuse_existing_def staged_bundle_def)
    then show ?thesis using m(2) r Inr d(1) by (simp add: settle_bundle_def)
  qed
qed simp

section \<open>From a fetched page to notices\<close>

lemma fetched_page_fields:
  assumes "fetch_page http_date decode client timestamp now signer_ok send cursor = Inr page"
  shows "\<exists>payload. decode (response_bytes page) = Some (JObject payload)
     \<and> map_of payload (response_items_field page) = Some (JArray (map JObject (source_items page)))"
  using fetch_page_facts [OF assms] by auto

text \<open>C13: The notices parsed from a materialized page are the items the client fetched, one for one and in order,
  provided that the canonical JSON of a manifest is read back as that manifest.\<close>

theorem acquired_page_parses:
  assumes "fetch_page http_date (be_decode (pe_bundle (me_parse mat))) client timestamp now signer_ok send cursor = Inr page"
    and "materialize mat page batch_id data_contract outcome parser_version extra stg = (Inr b, stg')"
    and "map_of stg' (mb_bundle_id b) = Some (Bundle_dir dir)"
    and "be_decode (pe_bundle (me_parse mat)) (manifest_json_bytes mat (mb_manifest b)) = Some (JObject raw)"
    and "validate_manifest (pe_bundle (me_parse mat)) raw = Inr (mb_manifest b)"
    and "parse_bundle (me_parse mat) dir = Inr ns"
  shows "list_all2 (notice_of_item (me_parse mat) (notice_field_map page)) (map JObject (source_items page)) ns"
proof -
  obtain m where m: "admits page m" "settle_bundle mat page m stg = (Inr b, stg')"
    using materialize_cases [of mat page batch_id data_contract outcome parser_version extra] assms(2) by auto
  then obtain safe where k: "mf_acquisition_metadata m = Some (acquisition_metadata_of page safe)" "mf_source m = CCGP"
      "mf_capture_kind m = RAW_RESPONSE"
    by (auto simp: admits_def)
  have b: "mb_manifest b = m" "staged_bundle mat page b dir"
    using settle_Inr [OF m(2,1)] assms(3) by auto
  have load: "load_manifest (pe_bundle (me_parse mat)) dir = Inr m"
    using b assms(4,5) by (simp add: load_manifest_def staged_bundle_def)
  then have "parse_raw_response (me_parse mat) dir m = Inr ns"
    using assms(6) k(2,3) load_inspected [of "pe_bundle (me_parse mat)" "pe_links (me_parse mat)" dir m] b
    by (auto simp: parse_bundle_def adapter_parse_def staged_bundle_def Let_def split: sum.splits parse_error.splits)
  then obtain payload items where "be_decode (pe_bundle (me_parse mat)) (response_bytes page) = Some (JObject payload)"
      "map_of payload (response_items_field page) = Some (JArray items)"
      "list_all2 (notice_of_item (me_parse mat) (notice_field_map page)) items ns"
    using raw_items [of "me_parse mat" dir m ns] b k(1)
    by (auto simp: staged_bundle_def acquisition_metadata_of_def)
  then show ?thesis using fetched_page_fields [OF assms(1)] by auto
qed

section \<open>Witnesses\<close>

lemma hash_bytes_hex: "length (hash_bytes d) = 64" "list_all hex_char (hash_bytes d)"
proof -
  have "list_all hex_char (hexdigest bs)" for bs
    by (induction bs) (auto simp: hexdigest_def list_all_iff byte_nibble intro!: hex_digit_chars)
  moreover have "length (hexdigest bs) = 2 * length bs" for bs
    by (induction bs) (auto simp: hexdigest_def)
  ultimately show "length (hash_bytes d) = 64" "list_all hex_char (hash_bytes d)" by (simp_all add: hash_bytes_def)
qed

definition live_page :: AuthorizedSourcePage where
  "live_page = \<lparr>cursor_before = None, next_cursor = None, source_items = [[(u ''external_id'', JInt 7)]],
     response_bytes = [123, 125], response_sha256 = hash_bytes [123, 125], retrieved_at = acq_time, status_code = 200,
     source_url = u ''https://www.ccgp.gov.cn/api'', response_items_field = u ''items'', notice_field_map = []\<rparr>"

definition live_contract :: AuthorizedSourceContract where
  "live_contract = \<lparr>ac_contract_version = u ''ccgp-v1'', ac_authorization_ref = u ''r'', ac_data_owner = u ''o'',
     ac_regions = [u ''r''], ac_categories = [u ''c''], ac_review_status = ''approved'', ac_reviewed_at = Some acq_time,
     ac_retention_days = 30\<rparr>"

definition live_url :: HttpUrl where
  "live_url = page_url\<lparr>hu_text := u ''https://www.ccgp.gov.cn/api''\<rparr>"

definition live_bundle_id :: pystr where
  "live_bundle_id = u ''ccgp-live-'' @ hash_bytes ([123, 125] @ [10] @ [])"

definition live_manifest :: SnapshotManifest where
  "live_manifest = \<lparr>mf_schema_version = 2, mf_bundle_id = live_bundle_id, mf_source = CCGP, mf_capture_kind = RAW_RESPONSE,
     mf_source_urls = [live_url], mf_retrieved_at = acq_time, mf_retrieval_outcome = u ''ok'', mf_parser_version = u ''p'',
     mf_files = [(u ''response.json'', hash_bytes [123, 125])], mf_batch_id = Some (u ''b1''),
     mf_data_contract = Some live_contract, mf_acquisition_metadata = Some (acquisition_metadata_of live_page [])\<rparr>"

definition live_raw :: jobject where
  "live_raw = [(u ''source_urls'', JArray [JString (u ''https://www.ccgp.gov.cn/api'')])]"

definition live_payload :: jobject where
  "live_payload = [(u ''items'', JArray [JObject [(u ''external_id'', JInt 7)]]), (u ''next'', JNull)]"

definition live_mat :: mat_env where
  "live_mat = \<lparr>me_parse = demo_parse\<lparr>pe_bundle := (pe_bundle demo_parse)
        \<lparr>be_tab := \<lparr>nfkc = (\<lambda>s. s), lower = (\<lambda>s. s), netloc_ok = (\<lambda>_. True)\<rparr>, be_casefold := (\<lambda>s. s),
         be_decode := (\<lambda>bs. Some (JObject (if bs = [123, 125] then live_payload else live_raw))),
         be_coerce := (\<lambda>_. Inr live_manifest)\<rparr>, http_url := (\<lambda>_. Some live_url)\<rparr>,
     identity_json = (\<lambda>_. []), manifest_json_bytes = (\<lambda>_. [0]), hidden_size = (\<lambda>_. 0), disk_ok = True,
     max_bundle_bytes = 10\<rparr>"

lemma live_fetched:
  "fetch_page (\<lambda>_. None) (be_decode (pe_bundle (me_parse live_mat))) acq_client acq_time acq_time True
     (\<lambda>_. Http_response acq_response) None = Inr live_page"
  by (simp add: fetch_page_def read_response_def acq_client_def acq_response_def live_mat_def live_payload_def live_page_def
      parse_page_def py_int_def MAX_CURSOR_LENGTH_def py_strip_def py_isspace_def digit_value_ascii is_digit_ascii)

lemma live_metadata: "metadata_issues (pe_bundle (me_parse live_mat)) loc (acquisition_metadata_of live_page []) = []"
  by (simp add: metadata_issues_def acquisition_metadata_of_def live_page_def field_issues_def hash_bytes_hex check_field_map_def
      in_length_def)

lemma live_issues:
  "manifest_issues (pe_bundle (me_parse live_mat)) (JArray [JString (u ''https://www.ccgp.gov.cn/api'')]) live_manifest = []"
proof -
  have contract: "contract_issues loc live_contract = []" for loc
    by (simp add: contract_issues_def live_contract_def field_issues_def in_length_def check_labels_def label_list_issues_def
        contract_version_match_def lower_alnum_def py_strip_def py_isspace_def naive_def acq_time_def dt_aware_def enumerate_eq_zip
        Let_def)
  have urls: "url_issues (pe_bundle (me_parse live_mat)) (JArray [JString (u ''https://www.ccgp.gov.cn/api'')]) [live_url] = []"
    by (simp add: url_issues_def live_mat_def live_url_def page_url_def field_issues_def check_raw_urls_def urlsplit_def
        split_scheme_def split_netloc_def ascii_alpha_def scheme_char_def ascii_lower_def)
  have "manifest_field_issues (pe_bundle (me_parse live_mat)) (JArray [JString (u ''https://www.ccgp.gov.cn/api'')]) live_manifest = []"
    using contract urls live_metadata
    by (simp add: manifest_field_issues_def live_manifest_def field_issues_def hash_bytes_match in_length_def batch_id_match_def
        batch_first_def ascii_alpha_def acq_time_def dt_aware_def live_bundle_id_def)
  moreover have "check_provenance (pe_bundle (me_parse live_mat)) live_manifest (mf_source_urls live_manifest) = None"
    by (simp add: live_manifest_def live_url_def page_url_def live_bundle_id_def raise_invalid_def validate_provenance_def
        provenance_errors_official_def OFFICIAL_HOSTS_BY_SOURCE_def SYNTHETIC_HOST_def synthetic_id_prefix_def)
  moreover have "check_authorized_contract live_manifest = None"
    by (simp add: check_authorized_contract_def check_raw_response_def live_manifest_def live_contract_def live_url_def
        page_url_def present_def acquisition_metadata_of_def live_page_def)
  ultimately show ?thesis by (simp add: manifest_issues_def Let_def)
qed

definition live_directory :: directory where
  "live_directory = [([u ''response.json''], File (Some [123, 125])), ([u ''manifest.json''], File (Some [0]))]"

lemma live_validated: "validate_manifest (pe_bundle (me_parse live_mat)) live_raw = Inr live_manifest"
  using live_issues by (simp add: validate_manifest_def live_raw_def) (simp add: live_mat_def)

lemma live_inspected:
  "ins_valid (inspect_bundle (pe_bundle (me_parse live_mat)) (pe_links (me_parse live_mat)) live_directory)"
proof -
  have dec: "be_decode (pe_bundle (me_parse live_mat)) [0] = Some (JObject live_raw)" by (simp add: live_mat_def)
  have "inspect_files (pe_links (me_parse live_mat)) live_directory (mf_files live_manifest) =
      ([], [(u ''response.json'', hash_bytes [123, 125])])"
    by (simp add: inspect_files_def inspect_declared_def unexpected_files_def payload_files_def safe_relative_def
        contains_symlink_def path_parts_def live_manifest_def live_directory_def regular_def Let_def)
  then show ?thesis
    using live_validated dec by (simp add: inspect_bundle_def inspect_manifest_def live_directory_def ins_valid_def Let_def)
qed

lemma live_materialized:
  "materialize live_mat live_page (u ''b1'') (Some live_contract) (u ''ok'') (u ''p'') [] [] =
     (Inr \<lparr>mb_bundle_id = live_bundle_id, mb_manifest = live_manifest, mb_response_sha256 = hash_bytes [123, 125]\<rparr>,
      [(live_bundle_id, Bundle_dir live_directory)])"
proof -
  have url: "source_url_ok (pe_bundle (me_parse live_mat)) (u ''https://www.ccgp.gov.cn/api'')"
    by (simp add: source_url_ok_def urlsplit_def split_scheme_def split_netloc_def url_port_def url_hostname_def split_host_def
        host_info_def has_user_def url_query_def url_fragment_def url_rest_def live_mat_def ascii_alpha_def scheme_char_def
        ascii_lower_def OFFICIAL_HOSTS_BY_SOURCE_def Let_def)
  have page: "page_error live_mat live_page live_contract = None"
    using url by (simp add: page_error_def live_page_def live_contract_def hash_bytes_hex flip: length_0_conv) (simp add: live_mat_def)
  have built: "build_manifest (me_parse live_mat) live_page (u ''b1'') live_bundle_id live_contract
      (acquisition_metadata_of live_page []) (u ''p'') (u ''ok'') = Some live_manifest"
  proof -
    have m: "\<lparr>mf_schema_version = 2, mf_bundle_id = live_bundle_id, mf_source = CCGP, mf_capture_kind = RAW_RESPONSE,
       mf_source_urls = [live_url], mf_retrieved_at = retrieved_at live_page, mf_retrieval_outcome = u ''ok'',
       mf_parser_version = u ''p'', mf_files = [(u ''response.json'', am_response_sha256 (acquisition_metadata_of live_page []))],
       mf_batch_id = Some (u ''b1''), mf_data_contract = Some live_contract,
       mf_acquisition_metadata = Some (acquisition_metadata_of live_page [])\<rparr> = live_manifest"
      by (simp add: live_manifest_def acquisition_metadata_of_def live_page_def)
    have "http_url (me_parse live_mat) (source_url live_page) = Some live_url" by (simp add: live_mat_def)
    then show ?thesis
      unfolding build_manifest_def Let_def using m live_issues by (simp add: live_page_def)
  qed
  have settled: "settle_bundle live_mat live_page live_manifest [] =
     (Inr \<lparr>mb_bundle_id = live_bundle_id, mb_manifest = live_manifest, mb_response_sha256 = hash_bytes [123, 125]\<rparr>,
      [(live_bundle_id, Bundle_dir live_directory)])"
    using live_inspected
    by (simp add: settle_bundle_def stage_new_def live_directory_def live_mat_def live_page_def bundle_size_def regular_def
        file_size_def live_manifest_def Let_def)
  have "bundle_identifier live_mat live_page x = live_bundle_id" for x
    by (simp add: bundle_identifier_def live_bundle_id_def live_page_def live_mat_def)
  then show ?thesis
    using page built settled live_metadata by (simp add: materialize_def safe_extra_metadata_def Let_def)
qed

theorem materialized_bundle_stands_witness:
  "staged_bundle live_mat live_page
     \<lparr>mb_bundle_id = live_bundle_id, mb_manifest = live_manifest, mb_response_sha256 = hash_bytes [123, 125]\<rparr> live_directory"
  using materialized_bundle_stands [OF live_materialized] by simp

lemma live_parsed: "\<exists>ns. parse_bundle (me_parse live_mat) live_directory = Inr ns"
proof -
  let ?env = "me_parse live_mat"
  have load: "load_manifest (pe_bundle ?env) live_directory = Inr live_manifest"
    using live_validated by (simp add: load_manifest_def bundle_file_def live_directory_def) (simp add: live_mat_def)
  then have ins: "ins_manifest (inspect_bundle (pe_bundle ?env) (pe_links ?env) live_directory) = Some live_manifest"
    using load_inspected [OF live_inspected] by blast
  have "\<exists>ns. parse_raw_response ?env live_directory live_manifest = Inr ns"
    by (simp add: parse_raw_response_def bundle_file_def live_directory_def live_mat_def live_payload_def live_manifest_def
        acquisition_metadata_of_def live_page_def parse_item_def mapped_text_def mapped_key_def show_int_def build_notice_def
        item_fields_def text_field_def opt_json_def parse_money_def parse_datetime_def make_notice_def naive_def
        raise_invalid_def validate_provenance_def provenance_errors_official_def OFFICIAL_HOSTS_BY_SOURCE_def
        SYNTHETIC_HOST_def synthetic_id_prefix_def show_nat.simps live_url_def page_url_def Let_def)
  then obtain ns where "parse_raw_response ?env live_directory live_manifest = Inr ns" by blast
  moreover have "mf_source live_manifest = CCGP" "mf_capture_kind live_manifest = RAW_RESPONSE"
    by (simp_all add: live_manifest_def)
  ultimately show ?thesis
    using load ins live_inspected by (auto simp: parse_bundle_def adapter_parse_def Let_def)
qed

theorem acquired_page_parses_witness:
  "\<exists>ns. parse_bundle (me_parse live_mat) live_directory = Inr ns \<and> length ns = 1
     \<and> list_all2 (notice_of_item (me_parse live_mat) []) [JObject [(u ''external_id'', JInt 7)]] ns"
proof -
  obtain ns where ns: "parse_bundle (me_parse live_mat) live_directory = Inr ns" using live_parsed by blast
  have "list_all2 (notice_of_item (me_parse live_mat) (notice_field_map live_page)) (map JObject (source_items live_page)) ns"
  proof (rule acquired_page_parses [OF live_fetched live_materialized _ _ _ ns])
    show "be_decode (pe_bundle (me_parse live_mat)) (manifest_json_bytes live_mat (mb_manifest
        \<lparr>mb_bundle_id = live_bundle_id, mb_manifest = live_manifest, mb_response_sha256 = hash_bytes [123, 125]\<rparr>)) =
        Some (JObject live_raw)"
      by (simp add: live_mat_def)
  qed (simp_all add: live_validated)
  then have "list_all2 (notice_of_item (me_parse live_mat) []) [JObject [(u ''external_id'', JInt 7)]] ns"
    by (simp add: live_page_def)
  then show ?thesis using ns by (auto dest: list_all2_lengthD)
qed

end
