(* ===== verification/Intent.thy ===== *)
theory Intent
  imports Models Parsers Utc Cron
begin

text \<open>
  The offline intent parser (\<open>FakeIntentModel\<close> of \<open>llm/fake.py\<close>): topics, regions, budget bounds, the
  look-back window and the schedule are read from the request with fixed tables and patterns.  A search
  tries a pattern at every position from the left.
\<close>

section \<open>Tables\<close>

definition REGION_ORDER :: "pystr list" where
  "REGION_ORDER =
     [[40657, 40857, 27743], [20869, 33945, 21476], [23425, 22799], [26032, 30086], [38738, 28023], [29976, 32899],
      [35199, 34255], [20113, 21335], [36149, 24030], [36797, 23425], [21513, 26519], [27827, 21271], [23665, 35199],
      [38485, 35199], [24191, 35199], [28023, 21335], [27827, 21335], [28246, 21271], [28246, 21335], [24191, 19996],
      [31119, 24314], [27743, 35199], [23665, 19996], [23433, 24509], [27743, 33487], [27993, 27743], [22235, 24029],
      [37325, 24198], [21271, 20140], [19978, 28023], [22825, 27941]]"

definition TOPIC_GROUPS :: "(pystr list \<times> pystr list) list" where
  "TOPIC_GROUPS =
     [([[26234, 31639, 20013, 24515], [26234, 31639], [31639, 21147, 20013, 24515]],
       [[26234, 31639, 20013, 24515], [31639, 21147, 20013, 24515], [25968, 25454, 20013, 24515], u ''IDC'']),
      ([[26381, 21153, 22120], [26381, 21209, 22120]],
       [[26381, 21153, 22120], [26381, 21153, 22120, 38598, 32676], u ''GPU '' @ [26381, 21153, 22120]]),
      ([[23384, 20648], [23384, 20648, 31995, 32479]],
       [[23384, 20648], [20998, 24067, 24335, 23384, 20648], u ''SAN'']),
      ([[32593, 32476], [20132, 25442, 26426], [36335, 30001, 22120]],
       [[32593, 32476], [20132, 25442, 26426], [36335, 30001, 22120], [26680, 24515, 32593]]),
      ([[21307, 30103], [21307, 30103, 35774, 22791]],
       [[21307, 30103], [21307, 30103, 35774, 22791], [21307, 30103, 22120, 26800]]),
      ([[25945, 32946], [26657, 22253]],
       [[25945, 32946], [26657, 22253], [39640, 26657]])]"

definition DEFAULT_TOPIC :: pystr where "DEFAULT_TOPIC = [25307, 26631]"

definition LOOKBACK_KEYWORDS :: "pystr list" where
  "LOOKBACK_KEYWORDS = [[36817], [26368, 36817], [36807, 21435]]"

definition DAY_OF_WEEK :: "(nat \<times> nat) list" where
  "DAY_OF_WEEK = [(19968, 1), (20108, 2), (19977, 3), (22235, 4), (20116, 5), (20845, 6), (26085, 7), (22825, 7)]"

section \<open>Patterns\<close>

text \<open>\<open>re.search\<close>: the first position at which the pattern matches.\<close>

fun search_at :: "(pystr \<Rightarrow> 'a option) \<Rightarrow> pystr \<Rightarrow> 'a option" where
  "search_at f [] = f []"
| "search_at f (c # s) = (case f (c # s) of Some r \<Rightarrow> Some r | None \<Rightarrow> search_at f s)"

definition skip_if :: "nat \<Rightarrow> pystr \<Rightarrow> pystr" where
  "skip_if c s = (case s of d # r \<Rightarrow> if d = c then r else s | [] \<Rightarrow> [])"

text \<open>
  \<open>(\d+(?:\.\d+)?)\s*(unit)\s*yuan?\s*\<dots>?word\<close>, where the last word is \<open>up\<close> or \<open>down\<close>: the number, the unit and
  the matched text.  No shorter choice of an optional part can make the rest match.
\<close>

definition ABOVE :: nat where "ABOVE = 19978"
definition BELOW :: nat where "BELOW = 19979"
definition BY_SIGN :: nat where "BY_SIGN = 20197"

definition match_bound :: "nat \<Rightarrow> pystr \<Rightarrow> (rat \<times> nat \<times> pystr) option" where
  "match_bound word s =
     (case take_number s of
        None \<Rightarrow> None
      | Some (q, r) \<Rightarrow>
          (case dropWhile py_isspace r of
             [] \<Rightarrow> None
           | c # cs \<Rightarrow>
               if c \<notin> {WAN, YI, YUAN} then None
               else map_option (\<lambda>rest. (q, c, take (length s - length rest) s))
                      (eat word (skip_if BY_SIGN (dropWhile py_isspace (skip_if YUAN (dropWhile py_isspace cs)))))))"

text \<open>\<open>_RECENT_DAYS\<close>.\<close>

definition match_recent_days :: "pystr \<Rightarrow> nat option" where
  "match_recent_days s =
     Option.bind (eat 36817 s) (\<lambda>s.
       (let t = dropWhile py_isspace s; ds = takeWhile is_digit t
        in if ds = [] then None
           else map_option (\<lambda>_. digits_value 0 ds) (eat 22825 (dropWhile py_isspace (dropWhile is_digit t)))))"

text \<open>\<open>_TIME_PATTERN\<close>: the alternatives of the hour in order, each with the separator behind it.\<close>

definition after_hour :: "pystr \<Rightarrow> pystr option" where
  "after_hour s =
     (case dropWhile py_isspace s of
        c # r \<Rightarrow> if c \<in> {28857, 26178, 58, 65306} then Some (dropWhile py_isspace r) else None
      | [] \<Rightarrow> None)"

definition minute_group :: "pystr \<Rightarrow> nat option" where
  "minute_group s =
     (case s of
        [] \<Rightarrow> None
      | c # r \<Rightarrow>
          if 48 \<le> c \<and> c \<le> 53 \<and> (case r of d # _ \<Rightarrow> is_digit d | [] \<Rightarrow> False)
          then Some (digits_value 0 [c, hd r])
          else if is_digit c then Some (digits_value 0 [c]) else None)"

definition hour_two :: "pystr \<Rightarrow> (nat \<times> pystr) option" where
  "hour_two s =
     (case s of
        c # d # r \<Rightarrow> if c \<in> {48, 49} \<and> is_digit d then map_option (Pair (digits_value 0 [c, d])) (after_hour r) else None
      | _ \<Rightarrow> None)"

definition hour_one :: "pystr \<Rightarrow> (nat \<times> pystr) option" where
  "hour_one s =
     (case s of
        c # r \<Rightarrow> if is_digit c then map_option (Pair (digits_value 0 [c])) (after_hour r) else None
      | _ \<Rightarrow> None)"

definition hour_twenty :: "pystr \<Rightarrow> (nat \<times> pystr) option" where
  "hour_twenty s =
     (case s of
        c # d # r \<Rightarrow> if c = 50 \<and> 48 \<le> d \<and> d \<le> 51 then map_option (Pair (digits_value 0 [c, d])) (after_hour r) else None
      | _ \<Rightarrow> None)"

definition match_time :: "pystr \<Rightarrow> (nat \<times> nat option) option" where
  "match_time s =
     map_option (\<lambda>(h, r). (h, minute_group r))
       (case hour_two s of Some x \<Rightarrow> Some x
        | None \<Rightarrow> (case hour_one s of Some x \<Rightarrow> Some x | None \<Rightarrow> hour_twenty s))"

definition match_weekday :: "pystr \<Rightarrow> nat option" where
  "match_weekday s = (case s of c # d # _ \<Rightarrow> if c = 21608 then map_of DAY_OF_WEEK d else None | _ \<Rightarrow> None)"

text \<open>\<open>_QUOTED_PATTERN.findall\<close>.\<close>

definition bracket :: "nat \<Rightarrow> bool" where
  "bracket c \<longleftrightarrow> c \<in> {12300, 12301, 12302, 12303}"

function find_quoted :: "pystr \<Rightarrow> pystr list" where
  "find_quoted [] = []"
| "find_quoted (c # s) =
     (let seg = takeWhile (\<lambda>c. \<not> bracket c) s; r = dropWhile (\<lambda>c. \<not> bracket c) s
      in if (c = 12300 \<or> c = 12302) \<and> seg \<noteq> [] \<and> r \<noteq> [] \<and> (hd r = 12301 \<or> hd r = 12303)
         then seg # find_quoted (tl r)
         else find_quoted s)"
  by pat_completeness auto

termination
proof (relation "measure length")
  fix c s seg r assume "r = dropWhile (\<lambda>c. \<not> bracket c) (s :: pystr)"
  then have "length (tl r) \<le> length s" using length_dropWhile_le [of "\<lambda>c. \<not> bracket c" s] by simp
  then show "(tl r, c # s) \<in> measure length" by simp
qed simp_all

section \<open>The parser\<close>

datatype intent_error = Empty_request | Intent_overflow | Intent_refused validation_error

definition extract_topics :: "pystr \<Rightarrow> pystr list \<times> pystr list" where
  "extract_topics request =
     (let quoted = find_quoted request
      in if quoted \<noteq> []
         then (let topics = filter (\<lambda>t. t \<noteq> []) (map py_strip (concat
                     (map (\<lambda>seg. py_split_on 44 (map (\<lambda>c. if c \<in> {12289, 65292} then 44 else c) seg)) quoted)))
               in (topics, topics))
         else (let hits = filter (\<lambda>(words, _). list_ex (\<lambda>w. py_contains w request) words) TOPIC_GROUPS
               in if hits = [] then ([DEFAULT_TOPIC], [DEFAULT_TOPIC])
                  else (uniq (concat (map fst hits)), uniq (concat (map snd hits)))))"

definition extract_regions :: "pystr \<Rightarrow> pystr list" where
  "extract_regions request =
     (let candidates = filter (\<lambda>m. py_contains m request) REGION_ORDER
      in uniq (filter (\<lambda>r. \<not> list_ex (\<lambda>kept. py_contains r kept \<and> r \<noteq> kept) candidates) candidates))"

definition parse_budget_to_fen :: "rat \<Rightarrow> nat \<Rightarrow> intent_error + int" where
  "parse_budget_to_fen q unit =
     (case float_times (double q) (if unit = YI then 10000000000 else if unit = WAN then 1000000 else 100) of
        None \<Rightarrow> Inl Intent_overflow
      | Some v \<Rightarrow> Inr \<lfloor>v\<rfloor>)"

definition extract_budget :: "nat \<Rightarrow> pystr \<Rightarrow> intent_error + Money option" where
  "extract_budget word request =
     (case search_at (match_bound word) request of
        None \<Rightarrow> Inr None
      | Some (q, unit, text) \<Rightarrow>
          bind_res (parse_budget_to_fen q unit)
            (\<lambda>fen. Inr (Some \<lparr>minor_units = fen, currency = u ''CNY'', raw_text = Some text\<rparr>)))"

text \<open>\<open>now.replace(hour=0, \<dots>)\<close> and the subtraction of whole days, which may leave the calendar.\<close>

definition midnight :: "datetime \<Rightarrow> datetime" where
  "midnight t = t\<lparr>dt_hour := 0, dt_minute := 0, dt_second := 0, dt_micro := 0\<rparr>"

definition minus_days :: "datetime \<Rightarrow> nat \<Rightarrow> time_error + datetime" where
  "minus_days t days =
     bind_res (utc_of_micros (local_micros t - int days * 86400000000)) (\<lambda>r. Inr (r\<lparr>dt_offset := dt_offset t\<rparr>))"

definition extract_window :: "pystr \<Rightarrow> datetime \<Rightarrow> intent_error + datetime option \<times> datetime option" where
  "extract_window request now =
     (if \<not> list_ex (\<lambda>k. py_contains k request) LOOKBACK_KEYWORDS then Inr (None, None)
      else (case search_at match_recent_days request of
              None \<Rightarrow> Inr (None, None)
            | Some days \<Rightarrow>
                (case minus_days (midnight now) days of
                   Inl _ \<Rightarrow> Inl Intent_overflow
                 | Inr published \<Rightarrow> Inr (Some published, Some (midnight now)))))"

definition cron_text :: "nat \<Rightarrow> nat \<Rightarrow> pystr \<Rightarrow> pystr" where
  "cron_text minute hour tail = show_nat minute @ [32] @ show_nat hour @ [32] @ tail"

definition extract_schedule :: "pystr \<Rightarrow> RunSchedule option" where
  "extract_schedule request =
     (let weekly = py_contains [27599, 21608] request; monthly = py_contains [27599, 26376] request;
          time = search_at match_time request;
          hour = (case time of None \<Rightarrow> 9 | Some (h, _) \<Rightarrow> h);
          minute = (case time of Some (_, Some m) \<Rightarrow> m | _ \<Rightarrow> 0);
          weekday = (case search_at match_weekday request of None \<Rightarrow> 1 | Some d \<Rightarrow> d)
      in if \<not> weekly \<and> \<not> monthly then None
         else Some \<lparr>cron_expression = cron_text minute hour (if monthly then u ''1 * *'' else u ''* * '' @ show_nat weekday),
                    sched_timezone = u ''Asia/Shanghai''\<rparr>)"

definition fake_intent_parse :: "pystr \<Rightarrow> datetime \<Rightarrow> intent_error + SearchIntent \<times> ModelUsage" where
  "fake_intent_parse request now =
     (if py_strip request = [] then Inl Empty_request
      else (case extract_topics request of (found, expanded) \<Rightarrow>
        (let places = extract_regions request
         in bind_res (extract_budget ABOVE request) (\<lambda>low.
            bind_res (extract_budget BELOW request) (\<lambda>high.
            bind_res (extract_window request now) (\<lambda>(from_time, to_time).
              (case make_search_intent
                 \<lparr>topics = found, expanded_terms = expanded, regions = places, published_from = from_time,
                  published_to = to_time, min_budget = low, max_budget = high, schedule = extract_schedule request,
                  confidence = 1, assumptions = []\<rparr> of
                 Inl e \<Rightarrow> Inl (Intent_refused e)
               | Inr i \<Rightarrow>
                   Inr (i, \<lparr>mu_model = u ''fake-deterministic'', mu_prompt_tokens = int (length request),
                     mu_completion_tokens = int (length found + length places), mu_latency_ms = 1,
                     mu_pricing_snapshot = u ''offline''\<rparr>))))))))"

end
