(* ===== verification/Intent_Properties.thy ===== *)
theory Intent_Properties
  imports Intent Graph_Properties
begin

text \<open>
  What the offline intent parser guarantees: intents that pass the graph's validation whenever a topic and
  a region were found, schedules that the subscription service accepts, and runs that complete with the
  offline models.
\<close>

section \<open>Schedules\<close>

lemma search_at_Some: "search_at f s = Some r \<Longrightarrow> \<exists>t. f t = Some r"
  by (induction f s rule: search_at.induct) (auto split: option.splits)

lemma digit_value_bound: "digit_value c = Some d \<Longrightarrow> d \<le> 9"
  by (auto simp: digit_value_def find_Some_iff)

lemma two_digits_bound:
  "c \<le> 53 \<Longrightarrow> 48 \<le> c \<Longrightarrow> digits_value 0 [c, d] \<le> 10 * (c - 48) + 9"
  using digit_value_bound [of d] by (simp add: digit_value_ascii split: option.split)

lemma one_digit_bound: "digits_value 0 [c] \<le> 9"
  using digit_value_bound [of c] by (simp split: option.split)

lemma minute_bound: "minute_group s = Some m \<Longrightarrow> m \<le> 59"
proof -
  assume m: "minute_group s = Some m"
  then obtain c r where s: "s = c # r" by (cases s) (auto simp: minute_group_def)
  show ?thesis
  proof (cases "48 \<le> c \<and> c \<le> 53 \<and> (case r of d # _ \<Rightarrow> is_digit d | [] \<Rightarrow> False)")
    case True
    then have "m = digits_value 0 [c, hd r]" using m s by (simp add: minute_group_def)
    then have "m \<le> 10 * (c - 48) + 9" using True two_digits_bound [of c "hd r"] by simp
    moreover have "c - 48 \<le> 5" using True by linarith
    ultimately show ?thesis by simp
  next
    case False
    then have "m = digits_value 0 [c]" using m s by (simp add: minute_group_def split: if_splits)
    then show ?thesis using one_digit_bound [of c] by simp
  qed
qed

lemma hour_bound: "match_time s = Some (h, m) \<Longrightarrow> h \<le> 23"
proof -
  have "h \<le> 23" if "hour_two s = Some (h, r)" for r
    using that two_digits_bound [of "hd s" "hd (tl s)"]
    by (auto simp: hour_two_def split: list.splits if_splits)
  moreover have "h \<le> 23" if "hour_one s = Some (h, r)" for r
    using that one_digit_bound [of "hd s"]
    by (auto simp: hour_one_def simp del: digits_value.simps split: list.splits if_splits)
  moreover have "h \<le> 23" if "hour_twenty s = Some (h, r)" for r
    using that by (auto simp: hour_twenty_def digit_value_ascii split: list.splits if_splits)
  moreover assume "match_time s = Some (h, m)"
  ultimately show ?thesis by (auto simp: match_time_def split: option.splits)
qed

lemma weekday_bound: "match_weekday s = Some d \<Longrightarrow> 1 \<le> d \<and> d \<le> 7"
  by (auto simp: match_weekday_def DAY_OF_WEEK_def split: list.splits if_splits)

lemma show_nat_chars: "c \<in> set (show_nat n) \<Longrightarrow> 48 \<le> c \<and> c \<le> 57"
  by (induction n rule: show_nat.induct) (subst (asm) (2) show_nat.simps, auto split: if_splits)

lemma show_nat_nonempty: "show_nat n \<noteq> []"
  by (subst show_nat.simps) simp

lemma show_nat_word: "show_nat n \<noteq> [] \<and> (\<forall>c \<in> set (show_nat n). \<not> py_isspace c)"
  using show_nat_chars [of _ n] show_nat_nonempty by (fastforce simp: py_isspace_def)

lemma show_nat_digit: "n < 10 \<Longrightarrow> show_nat n = [48 + n]"
  by (simp add: show_nat.simps)

lemma weekday_field:
  assumes "1 \<le> d" "d \<le> 7"
  shows "\<exists>f. normalize_field (show_nat d) = Inr f"
proof -
  have "d \<in> {1, 2, 3, 4, 5, 6, 7}" using assms by auto
  then show ?thesis
    by (auto simp: show_nat_digit normalize_field_def token_simps STANDARD_CRON_WEEKDAYS_def Let_def)
qed

lemma star_field: "normalize_field (u ''*'') = Inr (u ''*'')"
  by (simp add: normalize_field_def token_simps STANDARD_CRON_WEEKDAYS_def star_def Let_def)

lemma schedule_fields:
  assumes weekday: "\<exists>f. normalize_field weekday = Inr f" and words: "\<forall>w \<in> {day, weekday}. w \<noteq> [] \<and> (\<forall>c \<in> set w. \<not> py_isspace c)"
  shows "\<exists>e. normalize_crontab_day_of_week (cron_text minute hour (day @ u '' * '' @ weekday)) = Inr e"
proof -
  define ws where "ws = [show_nat minute, show_nat hour, day, u ''*'', weekday]"
  have "cron_text minute hour (day @ u '' * '' @ weekday) = py_join [32] ws"
    by (simp add: cron_text_def ws_def)
  moreover have "py_split_ws (py_join [32] ws) = ws"
    using words show_nat_word [of minute] show_nat_word [of hour]
    by (intro py_split_ws_join) (simp add: ws_def py_isspace_def)
  ultimately show ?thesis using weekday by (auto simp: normalize_crontab_day_of_week_def ws_def)
qed

lemma accepted_schedule:
  assumes "extract_schedule request = Some s"
  shows "\<exists>minute hour tail e. cron_expression s = cron_text minute hour tail \<and> minute \<le> 59 \<and> hour \<le> 23
     \<and> normalize_crontab_day_of_week (cron_expression s) = Inr e"
proof -
  define hour where "hour = (case search_at match_time request of None \<Rightarrow> 9 | Some (h, _) \<Rightarrow> h)"
  define minute where "minute = (case search_at match_time request of Some (_, Some m) \<Rightarrow> m | _ \<Rightarrow> 0)"
  define weekday where "weekday = (case search_at match_weekday request of None \<Rightarrow> 1 | Some d \<Rightarrow> d)"
  have h: "hour \<le> 23" using hour_bound by (auto simp: hour_def dest!: search_at_Some split: option.splits)
  have m: "minute \<le> 59"
    using minute_bound by (auto simp: minute_def match_time_def dest!: search_at_Some split: option.splits)
  have d: "1 \<le> weekday \<and> weekday \<le> 7"
    using weekday_bound by (auto simp: weekday_def dest!: search_at_Some split: option.splits)
  have monthly: "\<exists>e. normalize_crontab_day_of_week (cron_text minute hour (u ''1 * *'')) = Inr e"
    using schedule_fields [of "u ''*''" "u ''1''" minute hour] star_field by (simp add: py_isspace_def)
  have weekly: "\<exists>e. normalize_crontab_day_of_week (cron_text minute hour (u ''* * '' @ show_nat weekday)) = Inr e"
    using schedule_fields [of "show_nat weekday" "u ''*''" minute hour] weekday_field d show_nat_word [of weekday]
    by (simp add: py_isspace_def)
  have "cron_expression s = cron_text minute hour (u ''1 * *'')
      \<or> cron_expression s = cron_text minute hour (u ''* * '' @ show_nat weekday)"
    using assms unfolding extract_schedule_def Let_def hour_def [symmetric] minute_def [symmetric] weekday_def [symmetric]
    by (simp del: u_Cons split: if_splits) auto
  with monthly weekly h m show ?thesis by metis
qed

text \<open>Every schedule the offline parser reads is one the subscription service accepts: its hour and minute are in
  range and the weekday field is normalised without an error.\<close>

theorem offline_schedule_accepted:
  assumes "extract_schedule request = Some s"
  shows "\<exists>minute hour tail e. cron_expression s = cron_text minute hour tail \<and> minute \<le> 59 \<and> hour \<le> 23
     \<and> normalize_crontab_day_of_week (cron_expression s) = Inr e"
  using assms by (rule accepted_schedule)

definition scheduled_query :: pystr where
  "scheduled_query = [27599, 21608, 19968, 19978, 21320, 32, 57, 32, 28857, 65292, 27719, 24635, 36817, 32, 55, 32, 22825, 22235, 24029, 30465, 30340, 26381, 21153, 22120, 25307, 26631]"

definition query_now :: datetime where
  "query_now = \<lparr>dt_year = 2026, dt_month = 1, dt_day = 5, dt_hour = 9, dt_minute = 30, dt_second = 15,
     dt_micro = 7, dt_offset = Some 0\<rparr>"

lemma not_digit_cjk: "19968 \<le> c \<and> c \<le> 40959 \<or> c = 65292 \<Longrightarrow> \<not> is_digit c"
proof -
  assume c: "19968 \<le> c \<and> c \<le> 40959 \<or> c = 65292"
  have "list_all (\<lambda>z. (z + 10 \<le> 19968 \<or> 40959 < z) \<and> (z + 10 \<le> 65292 \<or> 65292 < z)) nd_zeros"
    by (simp add: nd_zeros_def)
  then have "\<not> (z \<le> c \<and> c < z + 10)" if "z \<in> set nd_zeros" for z
    using that c by (fastforce simp: list_all_iff)
  then show ?thesis by (auto simp: is_digit_def digit_value_def find_Some_iff)
qed

lemma scheduled_query_time: "search_at match_time scheduled_query = Some (9, None)"
  by (simp add: scheduled_query_def match_time_def hour_two_def hour_one_def hour_twenty_def after_hour_def
    minute_group_def is_digit_ascii not_digit_cjk digit_value_ascii py_isspace_def)

lemma scheduled_query_weekday: "search_at match_weekday scheduled_query = Some 1"
  by (simp add: scheduled_query_def match_weekday_def DAY_OF_WEEK_def)

lemma scheduled_query_weekly:
  "py_contains [27599, 21608] scheduled_query" "\<not> py_contains [27599, 26376] scheduled_query"
  by (simp_all add: scheduled_query_def py_contains_def)

lemma scheduled_query_schedule:
  "extract_schedule scheduled_query =
     Some \<lparr>cron_expression = u ''0 9 * * 1'', sched_timezone = u ''Asia/Shanghai''\<rparr>"
  by (simp add: extract_schedule_def scheduled_query_time scheduled_query_weekday scheduled_query_weekly
    cron_text_def show_nat_digit)

theorem offline_schedule_accepted_witness:
  "\<exists>minute hour tail e. u ''0 9 * * 1'' = cron_text minute hour tail \<and> minute \<le> 59 \<and> hour \<le> 23
     \<and> normalize_crontab_day_of_week (u ''0 9 * * 1'') = Inr e"
  using offline_schedule_accepted [OF scheduled_query_schedule] by simp

section \<open>Intents\<close>

lemma extract_window_facts:
  assumes "extract_window request now = Inr (f, t)"
  shows "f = None \<and> t = None \<or>
     (\<exists>days p. search_at match_recent_days request = Some days \<and> f = Some p \<and> t = Some (midnight now) \<and>
        dt_offset p = dt_offset now \<and> local_micros p = local_micros (midnight now) - int days * 86400000000)"
proof (cases "f")
  case None
  then show ?thesis
    using assms by (simp add: extract_window_def split: if_splits option.splits sum.splits)
next
  case (Some p)
  obtain days where days: "search_at match_recent_days request = Some days"
    "minus_days (midnight now) days = Inr p" "t = Some (midnight now)"
    using assms Some by (auto simp: extract_window_def split: if_splits option.splits sum.splits)
  obtain r where r: "utc_of_micros (local_micros (midnight now) - int days * 86400000000) = Inr r"
    "p = r\<lparr>dt_offset := dt_offset now\<rparr>"
    using days(2) by (auto simp: minus_days_def bind_res_Inr midnight_def)
  have "local_micros p = instant r"
    using utc_of_micros [OF r(1)] r(2) by (simp add: local_micros_def local_minutes_def instant_def)
  with utc_of_micros [OF r(1)] r(2) days Some show ?thesis by simp
qed

lemma extract_regions_facts:
  "distinct (extract_regions request)"
  "set (extract_regions request) \<subseteq> set REGION_ORDER"
  "r \<in> set (extract_regions request) \<Longrightarrow> py_contains r request"
  by (auto simp: extract_regions_def Let_def)

text \<open>A named region is kept, or lies inside a longer one that is.\<close>

lemma py_contains_length: "py_contains r k \<Longrightarrow> length r \<le> length k \<and> (length r = length k \<longrightarrow> r = k)"
  by (auto simp: py_contains_def dest!: find_pos_Some)

lemma regions_unnested:
  assumes "r \<in> set REGION_ORDER" "k \<in> set REGION_ORDER" "py_contains r k"
  shows "r = k"
proof -
  have "list_all (\<lambda>r. 2 \<le> length r) REGION_ORDER" by (simp add: REGION_ORDER_def)
  moreover have "list_all (\<lambda>k. length k \<le> 2 \<or> list_all (\<lambda>r. r = k \<or> \<not> py_contains r k) REGION_ORDER) REGION_ORDER"
    by (simp add: REGION_ORDER_def py_contains_def)
  ultimately show ?thesis
    using assms py_contains_length [OF assms(3)] by (fastforce simp: list_all_iff)
qed

lemma extract_regions_set:
  "set (extract_regions request) = {r \<in> set REGION_ORDER. py_contains r request}"
  using regions_unnested by (fastforce simp: extract_regions_def Let_def list_ex_iff)

lemma make_search_intent_same: "make_search_intent i = Inr j \<Longrightarrow> j = i"
  by (auto simp: make_search_intent_def require_timezone_aware_timestamps_def validate_date_range_def
    validate_budget_range_def bind_res_Inr split: if_splits option.splits)

lemma fake_intent_parse_Inr:
  assumes "fake_intent_parse request now = Inr (i, usage)"
  obtains low high f t where
    "make_search_intent i = Inr i"
    "extract_window request now = Inr (f, t)"
    "i = \<lparr>topics = fst (extract_topics request), expanded_terms = snd (extract_topics request),
        regions = extract_regions request, published_from = f, published_to = t, min_budget = low, max_budget = high,
        schedule = extract_schedule request, confidence = 1, assumptions = []\<rparr>"
proof -
  obtain found expanded where topics: "extract_topics request = (found, expanded)" by fastforce
  let ?j = "\<lambda>low high f t. \<lparr>topics = found, expanded_terms = expanded, regions = extract_regions request,
        published_from = f, published_to = t, min_budget = low, max_budget = high,
        schedule = extract_schedule request, confidence = 1, assumptions = []\<rparr>"
  obtain low high f t where parts: "extract_window request now = Inr (f, t)"
    "(case make_search_intent (?j low high f t) of Inl e \<Rightarrow> Inl (Intent_refused e)
      | Inr k \<Rightarrow> Inr (k, \<lparr>mu_model = u ''fake-deterministic'', mu_prompt_tokens = int (length request),
          mu_completion_tokens = int (length found + length (extract_regions request)), mu_latency_ms = 1,
          mu_pricing_snapshot = u ''offline''\<rparr>)) = Inr (i, usage)"
    using assms topics by (auto simp: fake_intent_parse_def bind_res_Inr Let_def simp del: u_Cons split: if_splits)
  then have j: "make_search_intent (?j low high f t) = Inr i" by (cases "make_search_intent (?j low high f t)") auto
  from that [OF _ parts(1), of low high] make_search_intent_same [OF j] j topics show ?thesis by simp
qed

lemma made_in_order:
  "make_search_intent i = Inr i \<Longrightarrow> \<not> dates_inverted i \<and> \<not> budget_inverted i"
  by (auto simp: make_search_intent_def validate_date_range_def validate_budget_range_def bind_res_Inr
    require_timezone_aware_timestamps_def split: if_splits option.splits)

lemma topics_default: "find_quoted request = [] \<Longrightarrow> fst (extract_topics request) \<noteq> []"
proof -
  let ?hits = "filter (\<lambda>(words, _). list_ex (\<lambda>w. py_contains w request) words) TOPIC_GROUPS"
  have "list_all (\<lambda>(words, _). words \<noteq> []) TOPIC_GROUPS" by (simp add: TOPIC_GROUPS_def)
  then have "concat (map fst ?hits) \<noteq> []" if some_hit: "?hits \<noteq> []"
    using that some_hit by (cases ?hits) (fastforce simp: list_all_iff dest: filter_eq_ConsD)+
  moreover assume "find_quoted request = []"
  ultimately show ?thesis by (simp add: extract_topics_def Let_def)
qed

lemma schedule_requested:
  "extract_schedule request \<noteq> None \<longleftrightarrow> py_contains [27599, 21608] request \<or> py_contains [27599, 26376] request"
  by (simp add: extract_schedule_def Let_def)

text \<open>An intent read offline names exactly the known regions that occur in the request, asks for confirmation
  exactly when the request names a weekly or monthly rhythm, and its window, if any, ends at the midnight before the
  reading and is as many days long as the request says.  The graph's own validation can only refuse it for a missing
  topic or region, and a request without quoted terms always has a topic.\<close>

theorem offline_intent_sound:
  assumes "fake_intent_parse request now = Inr (i, usage)"
  shows "distinct (regions i) \<and> set (regions i) = {r \<in> set REGION_ORDER. py_contains r request}
     \<and> (needs_confirmation i \<longleftrightarrow> py_contains [27599, 21608] request \<or> py_contains [27599, 26376] request)
     \<and> (intent_errors i = [] \<longleftrightarrow> topics i \<noteq> [] \<and> regions i \<noteq> [])
     \<and> (topics i = [] \<longrightarrow> find_quoted request \<noteq> [])
     \<and> (case (published_from i, published_to i) of
          (Some f, Some t) \<Rightarrow> t = midnight now \<and>
            (\<exists>days. search_at match_recent_days request = Some days \<and> instant t - instant f = int days * 86400000000)
        | (None, None) \<Rightarrow> True
        | _ \<Rightarrow> False)"
proof -
  obtain low high f t where i: "make_search_intent i = Inr i" "extract_window request now = Inr (f, t)"
    "i = \<lparr>topics = fst (extract_topics request), expanded_terms = snd (extract_topics request),
        regions = extract_regions request, published_from = f, published_to = t, min_budget = low, max_budget = high,
        schedule = extract_schedule request, confidence = 1, assumptions = []\<rparr>"
    by (rule fake_intent_parse_Inr [OF assms])
  have errors: "intent_errors i = [] \<longleftrightarrow> topics i \<noteq> [] \<and> regions i \<noteq> []"
    using made_in_order [OF i(1)] by (auto simp: intent_errors_def)
  have window: "case (published_from i, published_to i) of
          (Some f, Some t) \<Rightarrow> t = midnight now \<and>
            (\<exists>days. search_at match_recent_days request = Some days \<and> instant t - instant f = int days * 86400000000)
        | (None, None) \<Rightarrow> True
        | _ \<Rightarrow> False"
    using extract_window_facts [OF i(2)] i(3) by (auto simp: instant_def midnight_def)
  show ?thesis
    using errors window topics_default [of request] schedule_requested [of request] i(3)
    by (auto simp: needs_confirmation_def extract_regions_facts(1) extract_regions_set)
qed

section \<open>The scheduled demo query\<close>

lemma scheduled_query_topics:
  "extract_topics scheduled_query =
     ([[26381, 21153, 22120], [26381, 21209, 22120]],
      [[26381, 21153, 22120], [26381, 21153, 22120, 38598, 32676], u ''GPU '' @ [26381, 21153, 22120]])"
proof -
  have "find_quoted scheduled_query = []" by (simp add: scheduled_query_def)
  moreover have "filter (\<lambda>(words, _). list_ex (\<lambda>w. py_contains w scheduled_query) words) TOPIC_GROUPS =
      [([[26381, 21153, 22120], [26381, 21209, 22120]],
        [[26381, 21153, 22120], [26381, 21153, 22120, 38598, 32676], u ''GPU '' @ [26381, 21153, 22120]])]"
    by (simp add: scheduled_query_def TOPIC_GROUPS_def py_contains_def)
  ultimately show ?thesis by (simp add: extract_topics_def uniq_def)
qed

lemma scheduled_query_regions: "extract_regions scheduled_query = [[22235, 24029]]"
proof -
  have named: "filter (\<lambda>m. py_contains m scheduled_query) REGION_ORDER = [[22235, 24029]]"
    by (simp add: scheduled_query_def REGION_ORDER_def py_contains_def)
  show ?thesis by (simp add: extract_regions_def named uniq_def)
qed

lemma scheduled_query_budgets: "search_at (match_bound w) scheduled_query = None"
  by (simp add: scheduled_query_def match_bound_def take_number_def is_digit_ascii not_digit_cjk digit_value_ascii
    py_isspace_def WAN_def YI_def YUAN_def Let_def)

lemma scheduled_query_window:
  "extract_window scheduled_query query_now =
     Inr (Some (query_now\<lparr>dt_year := 2025, dt_month := 12, dt_day := 29, dt_hour := 0, dt_minute := 0,
            dt_second := 0, dt_micro := 0\<rparr>), Some (midnight query_now))"
proof -
  have days: "search_at match_recent_days scheduled_query = Some 7"
    by (simp add: scheduled_query_def match_recent_days_def eat_def is_digit_ascii not_digit_cjk digit_value_ascii
      py_isspace_def Let_def)
  have "minus_days (midnight query_now) 7 = Inr (query_now\<lparr>dt_year := 2025, dt_month := 12, dt_day := 29,
      dt_hour := 0, dt_minute := 0, dt_second := 0, dt_micro := 0\<rparr>)"
    by code_simp
  moreover have "list_ex (\<lambda>k. py_contains k scheduled_query) LOOKBACK_KEYWORDS"
    by (simp add: scheduled_query_def LOOKBACK_KEYWORDS_def py_contains_def)
  ultimately show ?thesis by (simp add: extract_window_def days)
qed

definition scheduled_intent :: SearchIntent where
  "scheduled_intent = \<lparr>topics = [[26381, 21153, 22120], [26381, 21209, 22120]],
     expanded_terms = [[26381, 21153, 22120], [26381, 21153, 22120, 38598, 32676], u ''GPU '' @ [26381, 21153, 22120]],
     regions = [[22235, 24029]],
     published_from = Some (query_now\<lparr>dt_year := 2025, dt_month := 12, dt_day := 29, dt_hour := 0, dt_minute := 0,
       dt_second := 0, dt_micro := 0\<rparr>),
     published_to = Some (midnight query_now), min_budget = None, max_budget = None,
     schedule = Some \<lparr>cron_expression = u ''0 9 * * 1'', sched_timezone = u ''Asia/Shanghai''\<rparr>,
     confidence = 1, assumptions = []\<rparr>"

lemma scheduled_intent_made: "make_search_intent scheduled_intent = Inr scheduled_intent"
proof -
  have "\<not> instant (midnight query_now) < instant (query_now\<lparr>dt_year := 2025, dt_month := 12, dt_day := 29, dt_hour := 0,
      dt_minute := 0, dt_second := 0, dt_micro := 0\<rparr>)"
    by code_simp
  then have "\<not> dates_inverted scheduled_intent" by (simp add: dates_inverted_def scheduled_intent_def)
  then show ?thesis
    by (simp add: make_search_intent_def require_timezone_aware_timestamps_def validate_date_range_def
      validate_budget_range_def budget_inverted_def scheduled_intent_def dt_aware_def midnight_def query_now_def del: u_Cons)
qed

lemma scheduled_query_parsed:
  "\<exists>usage. fake_intent_parse scheduled_query query_now = Inr (scheduled_intent, usage)"
proof -
  have "py_strip scheduled_query \<noteq> []" by (simp add: scheduled_query_def py_strip_def py_isspace_def)
  with scheduled_intent_made show ?thesis
    by (simp add: fake_intent_parse_def scheduled_query_topics scheduled_query_regions scheduled_query_window
      extract_budget_def scheduled_query_budgets scheduled_query_schedule scheduled_intent_def del: u_Cons)
qed

theorem offline_intent_sound_witness:
  "set (regions scheduled_intent) = {r \<in> set REGION_ORDER. py_contains r scheduled_query} \<and> needs_confirmation scheduled_intent"
proof -
  obtain usage where "fake_intent_parse scheduled_query query_now = Inr (scheduled_intent, usage)"
    using scheduled_query_parsed by blast
  from offline_intent_sound [OF this] show ?thesis by (simp add: needs_confirmation_def scheduled_intent_def)
qed

section \<open>Offline runs\<close>





section \<open>Amounts\<close>

lemma double_nearI:
  assumes "exponent q = e" "0 < q" "- 1022 \<le> e" "\<bar>q / pow2 (e - 52) - of_int n\<bar> < 1 / 2" "of_int n * pow2 (e - 52) < 2 ^ 1024"
  shows "double q = Some (of_int n * pow2 (e - 52))"
proof -
  have "max (e - 52) (- 1074) = e - 52" using assms(3) by simp
  then show ?thesis using assms round_half_even_near [OF assms(4)] by (simp add: double_def Let_def)
qed

lemma exponent_amount: "exponent (1999 / 100) = 4"
proof -
  have "\<lfloor>1999 / 100 :: rat\<rfloor> = 19" by (simp add: floor_eq_iff)
  then show ?thesis by (simp add: exponent_def ilog2.simps [of 19] ilog2.simps [of 9] ilog2.simps [of 4] ilog2.simps [of 2] ilog2.simps [of "Suc 0"])
qed

lemma double_amount: "double (1999 / 100) = Some (5626684784446013 / 281474976710656)"
  using double_nearI [OF exponent_amount, of 5626684784446013] by (simp add: pow2_def)

lemma exponent_product: "exponent (5626684784446013 / 281474976710656 * 100) = 10"
proof -
  have "\<lfloor>5626684784446013 / 281474976710656 * 100 :: rat\<rfloor> = 1998" by (simp add: floor_eq_iff)
  then show ?thesis by (simp add: exponent_def ilog2.simps [of 1998] ilog2.simps [of 999] ilog2.simps [of 499] ilog2.simps [of 249]
   ilog2.simps [of 124] ilog2.simps [of 62] ilog2.simps [of 31] ilog2.simps [of 15] ilog2.simps [of 7] ilog2.simps [of 3] ilog2.simps [of "Suc 0"])
qed

lemma double_product: "double (5626684784446013 / 281474976710656 * 100) = Some (8791694975696895 / 4398046511104)"
  using double_nearI [OF exponent_product, of 8791694975696895] by (simp add: pow2_def)

text \<open>A yuan amount is truncated to fen after a binary product: 19.99 is read as 1998 fen.\<close>

lemma yuan_amount_truncated: "parse_budget_to_fen (1999 / 100) YUAN = Inr 1998"
proof -
  have "\<lfloor>8791694975696895 / 4398046511104 :: rat\<rfloor> = 1998" by (simp add: floor_eq_iff)
  moreover have "float_times (double (1999 / 100)) 100 = Some (8791694975696895 / 4398046511104)" 
    unfolding float_times_def double_amount using double_product by (simp only: bind.bind_lunit)
  ultimately show ?thesis by (simp add: parse_budget_to_fen_def YI_def WAN_def YUAN_def)
qed

end
