(* ===== verification/Metrics.thy ===== *)
theory Metrics
  imports Floats "HOL-Library.Char_ord" "HOL-Library.List_Lexorder" "HOL-Library.Product_Lexorder"
begin

text \<open>
  The metrics registry and the request identifiers of \<open>observability.py\<close>.  A value is the rational
  a binary64 float stands for; arithmetic rounds to it.  The text of a number that is not whole
  (\<open>format(value, ".12g")\<close>) is a parameter.
\<close>

section \<open>Request identifiers\<close>

definition request_id_char :: "nat \<Rightarrow> bool" where
  "request_id_char c \<longleftrightarrow> (65 \<le> c \<and> c \<le> 90) \<or> (97 \<le> c \<and> c \<le> 122) \<or> (48 \<le> c \<and> c \<le> 57) \<or> c \<in> {46, 95, 126, 45}"

definition valid_request_id :: "pystr option \<Rightarrow> bool" where
  "valid_request_id value =
     (case value of
        None \<Rightarrow> False
      | Some s \<Rightarrow> list_all (\<lambda>c. c < 128) s \<and> length s \<le> 128 \<and> s \<noteq> [] \<and> list_all request_id_char s)"

text \<open>\<open>_request_id\<close>; \<open>drawn\<close> is the text of the UUID that is drawn otherwise.\<close>

definition request_id :: "pystr option \<Rightarrow> pystr \<Rightarrow> pystr" where
  "request_id supplied drawn =
     (case supplied of Some s \<Rightarrow> if valid_request_id supplied then s else drawn | None \<Rightarrow> drawn)"

text \<open>\<open>_normalized_path\<close>: every \<open>{name}\<close> of a route template becomes \<open>:id\<close>.\<close>

function sub_params :: "pystr \<Rightarrow> pystr" where
  "sub_params [] = []"
| "sub_params (c # s) =
     (let name = takeWhile (\<lambda>d. d \<noteq> 125 \<and> d \<noteq> 47) s; r = dropWhile (\<lambda>d. d \<noteq> 125 \<and> d \<noteq> 47) s
      in if c = 123 \<and> name \<noteq> [] \<and> r \<noteq> [] \<and> hd r = 125 then u '':id'' @ sub_params (tl r) else c # sub_params s)"
  by pat_completeness auto

termination
proof (relation "measure length")
  fix c s r assume "r = dropWhile (\<lambda>d. d \<noteq> 125 \<and> d \<noteq> 47) (s :: pystr)"
  then have "length (tl r) \<le> length s" using length_dropWhile_le [of "\<lambda>d. d \<noteq> 125 \<and> d \<noteq> 47" s] by simp
  then show "(tl r, c # s) \<in> measure length" by simp
qed simp_all

definition normalized_path :: "pystr option \<Rightarrow> pystr" where
  "normalized_path route =
     (case route of Some p \<Rightarrow> if p = [] then u ''/unmatched'' else take 200 (sub_params p) | None \<Rightarrow> u ''/unmatched'')"

definition status_class :: "int \<Rightarrow> string" where
  "status_class code =
     (if 100 \<le> code \<and> code \<le> 599
      then (if code div 100 = 1 then ''1xx'' else if code div 100 = 2 then ''2xx'' else if code div 100 = 3 then ''3xx''
            else if code div 100 = 4 then ''4xx'' else ''5xx'')
      else ''unknown'')"

section \<open>Definitions of the metrics\<close>

datatype metric_kind = Counter_metric | Histogram_metric | Gauge_metric

record MetricDefinition =
  md_kind :: metric_kind
  md_values :: "(string \<times> string list) list"

definition metric :: "metric_kind \<Rightarrow> (string \<times> string list) list \<Rightarrow> MetricDefinition" where
  "metric kind values = \<lparr>md_kind = kind, md_values = values\<rparr>"

definition md_labels :: "MetricDefinition \<Rightarrow> string list" where
  "md_labels d = map fst (md_values d)"

definition METRIC_DEFINITIONS :: "(string \<times> MetricDefinition) list" where
  "METRIC_DEFINITIONS =
     [(''bidscope_http_requests_total'', metric Counter_metric [(''status'', [''1xx'', ''2xx'', ''3xx'', ''4xx'', ''5xx'', ''unknown''])]),
      (''bidscope_http_request_duration_seconds'', metric Histogram_metric [(''status'', [''1xx'', ''2xx'', ''3xx'', ''4xx'', ''5xx'', ''unknown''])]),
      (''bidscope_runs_total'', metric Counter_metric [(''outcome'', [''pending'', ''running'', ''completed'', ''retryable'', ''awaiting_confirmation'', ''cancelled''])]),
      (''bidscope_run_node_duration_seconds'', metric Histogram_metric [(''node'', [''intent'', ''duplicate'', ''retrieval'', ''report'', ''persist'', ''unknown''])]),
      (''bidscope_run_failures_total'', metric Counter_metric [(''error_code'', [''validation'', ''graph_node_error'', ''ownership_lost'', ''dependency_unavailable'', ''unknown''])]),
      (''bidscope_sse_connections'', metric Gauge_metric []),
      (''bidscope_scheduler_ticks_total'', metric Counter_metric [(''outcome'', [''due'', ''ran'', ''skipped'', ''failed''])]),
      (''bidscope_snapshot_imports_total'', metric Counter_metric [(''outcome'', [''success'', ''failed'', ''skipped'']), (''source'', [''ccgp'', ''ggzy'', ''synthetic_demo'', ''unknown''])]),
      (''bidscope_report_delivery_duration_seconds'', metric Histogram_metric [(''outcome'', [''success'', ''failed''])]),
      (''bidscope_dependency_failures_total'', metric Counter_metric [(''source'', [''database'', ''checkpoint'', ''object_store'', ''unknown''])]),
      (''bidscope_acquisition_runs_total'', metric Counter_metric [(''source'', [''ccgp'']), (''outcome'', [''success'', ''failed'', ''quarantined'', ''rate_limited''])]),
      (''bidscope_acquisition_duration_seconds'', metric Histogram_metric [(''source'', [''ccgp''])]),
      (''bidscope_source_freshness_seconds'', metric Gauge_metric [(''source'', [''ccgp''])]),
      (''bidscope_acquisition_records_total'', metric Counter_metric [(''source'', [''ccgp''])])]"

definition kind_of :: "string \<Rightarrow> metric_kind option" where
  "kind_of name = map_option md_kind (map_of METRIC_DEFINITIONS name)"

section \<open>The registry\<close>

type_synonym labels = "(string \<times> string) list"
type_synonym series = "string \<times> labels"

record Registry =
  metric_values :: "(series \<times> rat) list"
  histograms :: "(series \<times> rat list) list"

definition empty_registry :: Registry where
  "empty_registry = \<lparr>metric_values = [], histograms = []\<rparr>"

datatype metric_error = Metric_refused | Metric_overflow

text \<open>\<open>_labels_key\<close>: the supplied labels, a dictionary, sorted.\<close>

definition labels_key :: "string \<Rightarrow> labels \<Rightarrow> metric_error + labels" where
  "labels_key name supplied =
     (case map_of METRIC_DEFINITIONS name of
        None \<Rightarrow> Inl Metric_refused
      | Some d \<Rightarrow>
          if set (map fst supplied) \<noteq> set (md_labels d) then Inl Metric_refused
          else if \<not> list_all (\<lambda>(l, v). case map_of (md_values d) l of None \<Rightarrow> False | Some vs \<Rightarrow> v \<in> set vs) supplied
          then Inl Metric_refused
          else Inr (sort supplied))"

text \<open>The sum of two floats.\<close>

definition round_signed :: "rat \<Rightarrow> rat option" where
  "round_signed q = (if q < 0 then map_option uminus (double (- q)) else double q)"

definition value_at :: "Registry \<Rightarrow> series \<Rightarrow> rat" where
  "value_at r k = (case map_of (metric_values r) k of None \<Rightarrow> 0 | Some v \<Rightarrow> v)"

definition add_value :: "series \<Rightarrow> rat \<Rightarrow> Registry \<Rightarrow> metric_error + Registry" where
  "add_value k amount r =
     (case round_signed (value_at r k + amount) of
        None \<Rightarrow> Inl Metric_overflow
      | Some v \<Rightarrow> Inr (r\<lparr>metric_values := dict_set k v (metric_values r)\<rparr>))"

definition counter :: "string \<Rightarrow> labels \<Rightarrow> int \<Rightarrow> Registry \<Rightarrow> metric_error + Registry" where
  "counter name labels amount r =
     (if kind_of name \<noteq> Some Counter_metric \<or> amount < 0 then Inl Metric_refused
      else bind_res (labels_key name labels) (\<lambda>key. add_value (name, key) (of_int amount) r))"

definition observe :: "string \<Rightarrow> rat \<Rightarrow> labels \<Rightarrow> Registry \<Rightarrow> metric_error + Registry" where
  "observe name value labels r =
     (if kind_of name \<noteq> Some Histogram_metric \<or> \<not> (0 \<le> value \<and> value \<le> 3600) then Inl Metric_refused
      else bind_res (labels_key name labels) (\<lambda>key.
        let k = (name, key); old = (case map_of (histograms r) k of None \<Rightarrow> [] | Some vs \<Rightarrow> vs)
        in Inr (r\<lparr>histograms := dict_set k (old @ [value]) (histograms r)\<rparr>)))"

definition gauge :: "string \<Rightarrow> rat \<Rightarrow> labels \<Rightarrow> Registry \<Rightarrow> metric_error + Registry" where
  "gauge name value labels r =
     (if kind_of name \<noteq> Some Gauge_metric \<or> \<not> (- 1000000 \<le> value \<and> value \<le> 1000000) then Inl Metric_refused
      else bind_res (labels_key name labels) (\<lambda>key.
        Inr (r\<lparr>metric_values := dict_set (name, key) value (metric_values r)\<rparr>)))"

definition increment_gauge :: "string \<Rightarrow> labels \<Rightarrow> Registry \<Rightarrow> metric_error + Registry" where
  "increment_gauge name labels r =
     bind_res (labels_key name labels) (\<lambda>key.
       if kind_of name \<noteq> Some Gauge_metric then Inl Metric_refused else add_value (name, key) 1 r)"

definition decrement_gauge :: "string \<Rightarrow> labels \<Rightarrow> Registry \<Rightarrow> metric_error + Registry" where
  "decrement_gauge name labels r =
     (if kind_of name \<noteq> Some Gauge_metric then Inl Metric_refused
      else bind_res (labels_key name labels) (\<lambda>key. add_value (name, key) (- 1) r))"

section \<open>The exposition format\<close>

definition HISTOGRAM_BUCKETS :: "rat list" where
  "HISTOGRAM_BUCKETS = [5 / 1000, 1 / 100, 25 / 1000, 5 / 100, 1 / 10, 25 / 100, 5 / 10, 1, 25 / 10, 5, 10]"

definition format_number :: "(rat \<Rightarrow> pystr) \<Rightarrow> rat \<Rightarrow> pystr" where
  "format_number g12 v = (if v = of_int \<lfloor>v\<rfloor> then show_int \<lfloor>v\<rfloor> else g12 v)"

definition escape_label :: "pystr \<Rightarrow> pystr" where
  "escape_label s = concat (map (\<lambda>c. if c = 92 then [92, 92] else if c = 34 then [92, 34] else [c]) s)"

definition render_labels :: "(pystr \<times> pystr) list \<Rightarrow> pystr" where
  "render_labels ls =
     (if ls = [] then []
      else u ''{'' @ py_join (u '','') (map (\<lambda>(k, v). k @ [61, 34] @ escape_label v @ [34]) ls) @ u ''}'')"

definition label_texts :: "labels \<Rightarrow> (pystr \<times> pystr) list" where
  "label_texts ls = map (\<lambda>(k, v). (u k, u v)) ls"

text \<open>A line is a name, its labels and the text of a value; \<open>total\<close> is the float sum of a list.\<close>

definition sample_line :: "pystr \<Rightarrow> (pystr \<times> pystr) list \<Rightarrow> pystr \<Rightarrow> pystr" where
  "sample_line name ls value = name @ render_labels ls @ u '' '' @ value"

definition bucket_count :: "rat \<Rightarrow> rat list \<Rightarrow> nat" where
  "bucket_count bound observations = length (filter (\<lambda>v. v \<le> bound) observations)"

definition histogram_lines :: "(rat \<Rightarrow> pystr) \<Rightarrow> (rat list \<Rightarrow> rat) \<Rightarrow> string \<Rightarrow> labels \<times> rat list \<Rightarrow> pystr list" where
  "histogram_lines g12 sum_of name = (\<lambda>(ls, observations).
     (let base = label_texts (filter (\<lambda>l. fst l \<noteq> ''le'') ls)
      in map (\<lambda>b. sample_line (u name @ u ''_bucket'') (base @ [(u ''le'', format_number g12 b)])
               (show_nat (bucket_count b observations))) HISTOGRAM_BUCKETS
         @ [sample_line (u name @ u ''_bucket'') (base @ [(u ''le'', u ''+Inf'')]) (show_nat (length observations)),
            sample_line (u name @ u ''_count'') (label_texts ls) (show_nat (length observations)),
            sample_line (u name @ u ''_sum'') (label_texts ls) (format_number g12 (sum_of observations))]))"

definition kind_text :: "metric_kind \<Rightarrow> pystr" where
  "kind_text k = (case k of Counter_metric \<Rightarrow> u ''counter'' | Histogram_metric \<Rightarrow> u ''histogram'' | Gauge_metric \<Rightarrow> u ''gauge'')"

text \<open>\<open>sorted(items)\<close>: keys are distinct, so the values never decide.\<close>

definition sorted_series :: "(series \<times> 'v) list \<Rightarrow> (series \<times> 'v) list" where
  "sorted_series items = sort_key fst items"

definition metric_lines ::
  "(rat \<Rightarrow> pystr) \<Rightarrow> (rat list \<Rightarrow> rat) \<Rightarrow> Registry \<Rightarrow> string \<times> MetricDefinition \<Rightarrow> pystr list" where
  "metric_lines g12 sum_of r = (\<lambda>(name, d).
     (u ''# TYPE '' @ u name @ u '' '' @ kind_text (md_kind d)) #
     (if md_kind d = Histogram_metric
      then concat (map (\<lambda>((n, ls), vs). if n = name then histogram_lines g12 sum_of name (ls, vs) else [])
             (sorted_series (histograms r)))
      else concat (map (\<lambda>((n, ls), v). if n = name then [sample_line (u name) (label_texts ls) (format_number g12 v)] else [])
             (sorted_series (metric_values r)))))"

definition render_prometheus :: "(rat \<Rightarrow> pystr) \<Rightarrow> (rat list \<Rightarrow> rat) \<Rightarrow> Registry \<Rightarrow> pystr" where
  "render_prometheus g12 sum_of r =
     py_join [10] (concat (map (metric_lines g12 sum_of r) METRIC_DEFINITIONS)) @ [10]"

end
