(* ===== verification/Metrics_Properties.thy ===== *)
theory Metrics_Properties
  imports Metrics Delivery_Properties
begin

text \<open>
  The registry under any sequence of operations: a fixed set of series, monotone counters, observations
  within bounds and cumulative buckets; and the identifiers that are echoed to a client.
\<close>

section \<open>The fixed set of series\<close>

fun label_choices :: "(string \<times> string list) list \<Rightarrow> labels list" where
  "label_choices [] = [[]]"
| "label_choices ((l, vs) # ds) = concat (map (\<lambda>v. map ((#) (l, v)) (label_choices ds)) vs)"

definition all_series :: "series list" where
  "all_series = concat (map (\<lambda>(name, d). map (\<lambda>ls. (name, sort ls)) (label_choices (md_values d))) METRIC_DEFINITIONS)"

lemma choice_of:
  "list_all (\<lambda>(l, vs). \<exists>v. f l = Some v \<and> v \<in> set vs) ds \<Longrightarrow> map (\<lambda>(l, vs). (l, the (f l))) ds \<in> set (label_choices ds)"
proof (induction ds)
  case (Cons e ds)
  obtain l vs where e: "e = (l, vs)" by (cases e)
  with Cons show ?case by (auto intro!: bexI [where x = "the (f l)"])
qed simp

lemma same_dict_sorted:
  assumes "distinct (map fst xs)" "distinct (map fst ys)" "set xs = set ys"
  shows "sort xs = sort (ys :: labels)"
proof -
  have "mset xs = mset ys"
    using assms by (simp add: set_eq_iff_mset_eq_distinct distinct_map)
  then show ?thesis by (metis mset_sort properties_for_sort sorted_sort)
qed

lemma distinct_labels: "list_all (\<lambda>(name, d). distinct (map fst (md_values d))) METRIC_DEFINITIONS"
  by (simp add: METRIC_DEFINITIONS_def metric_def)

lemma labels_key_series:
  assumes key: "labels_key name supplied = Inr key" and dict: "distinct (map fst supplied)"
  shows "(name, key) \<in> set all_series"
proof -
  obtain d where d: "map_of METRIC_DEFINITIONS name = Some d" "set (map fst supplied) = set (md_labels d)"
      "list_all (\<lambda>(l, v). case map_of (md_values d) l of None \<Rightarrow> False | Some vs \<Rightarrow> v \<in> set vs) supplied" "key = sort supplied"
    using key by (auto simp: labels_key_def split: option.splits if_splits)
  have mem: "(name, d) \<in> set METRIC_DEFINITIONS" using d(1) by (rule map_of_SomeD)
  then have dv: "distinct (map fst (md_values d))" using distinct_labels by (auto simp: list_all_iff)
  have fit: "\<exists>v. map_of supplied l = Some v \<and> v \<in> set vs" if l: "(l, vs) \<in> set (md_values d)" for l vs
  proof -
    have "l \<in> fst ` set supplied" using d(2) l by (force simp: md_labels_def)
    then obtain v where v: "(l, v) \<in> set supplied" by auto
    then have "map_of supplied l = Some v" using dict by simp
    moreover have "map_of (md_values d) l = Some vs" using dv l by simp
    then have "v \<in> set vs" using d(3) v by (fastforce simp: list_all_iff)
    ultimately show ?thesis by blast
  qed
  define c where "c = map (\<lambda>(l, vs). (l, the (map_of supplied l))) (md_values d)"
  have choice: "c \<in> set (label_choices (md_values d))"
    unfolding c_def using fit by (intro choice_of) (fastforce simp: list_all_iff)
  have fstc: "map fst c = map fst (md_values d)" by (auto simp: c_def)
  have "set c = set supplied"
  proof
    show "set c \<subseteq> set supplied" using fit by (fastforce simp: c_def dest: map_of_SomeD)
    show "set supplied \<subseteq> set c"
    proof
      fix e assume e: "e \<in> set supplied"
      obtain l v where lv: "e = (l, v)" by (cases e)
      have "l \<in> fst ` set (md_values d)" using d(2) e lv by (force simp: md_labels_def)
      then obtain vs where "(l, vs) \<in> set (md_values d)" by auto
      moreover have "map_of supplied l = Some v" using e lv dict by simp
      ultimately show "e \<in> set c" unfolding c_def using lv by (auto intro!: image_eqI [where x = "(l, vs)"])
    qed
  qed
  then have "key = sort c" using d(4) same_dict_sorted [OF dict] fstc dv by simp
  with choice mem show ?thesis unfolding all_series_def by (auto intro!: bexI [where x = "(name, d)"])
qed

lemma labels_key_kind: "labels_key name supplied = Inr key \<Longrightarrow> kind_of name \<noteq> None"
  by (auto simp: labels_key_def kind_of_def split: option.splits)

section \<open>Operations\<close>

datatype metric_op =
    Op_counter string labels int
  | Op_observe string rat labels
  | Op_gauge string rat labels
  | Op_increment string labels
  | Op_decrement string labels

fun run_op :: "metric_op \<Rightarrow> Registry \<Rightarrow> metric_error + Registry" where
  "run_op (Op_counter name labels amount) r = counter name labels amount r"
| "run_op (Op_observe name value labels) r = observe name value labels r"
| "run_op (Op_gauge name value labels) r = gauge name value labels r"
| "run_op (Op_increment name labels) r = increment_gauge name labels r"
| "run_op (Op_decrement name labels) r = decrement_gauge name labels r"

fun op_labels :: "metric_op \<Rightarrow> labels" where
  "op_labels (Op_counter name labels amount) = labels"
| "op_labels (Op_observe name value labels) = labels"
| "op_labels (Op_gauge name value labels) = labels"
| "op_labels (Op_increment name labels) = labels"
| "op_labels (Op_decrement name labels) = labels"

text \<open>Registries that calls lead to; labels are a dictionary, and a call that raises changes nothing.\<close>

inductive registry_reachable :: "Registry \<Rightarrow> bool" where
  reach_empty: "registry_reachable empty_registry"
| reach_op: "registry_reachable r \<Longrightarrow> distinct (map fst (op_labels oper)) \<Longrightarrow> run_op oper r = Inr r' \<Longrightarrow> registry_reachable r'"

definition registry_inv :: "Registry \<Rightarrow> bool" where
  "registry_inv r \<longleftrightarrow>
     distinct (map fst (metric_values r)) \<and> distinct (map fst (histograms r)) \<and>
     (\<forall>(k, v) \<in> set (metric_values r). k \<in> set all_series \<and> kind_of (fst k) \<in> {Some Counter_metric, Some Gauge_metric} \<and>
        (kind_of (fst k) = Some Counter_metric \<longrightarrow> 0 \<le> v)) \<and>
     (\<forall>(k, vs) \<in> set (histograms r). k \<in> set all_series \<and> kind_of (fst k) = Some Histogram_metric \<and>
        (\<forall>v \<in> set vs. 0 \<le> v \<and> v \<le> 3600))"

lemma distinct_keys_dict_set: "distinct (map fst d) \<Longrightarrow> distinct (map fst (dict_set k v d))"
  by auto

lemma dict_set_entry: "(k', v') \<in> set (dict_set k v d) \<Longrightarrow> (k', v') = (k, v) \<or> (k', v') \<in> set d"
  by (induction k v d rule: dict_set.induct) (auto split: if_splits)

lemma registry_inv_value:
  assumes "registry_inv r" "(name, key) \<in> set all_series" "kind_of name \<in> {Some Counter_metric, Some Gauge_metric}"
    and "kind_of name = Some Counter_metric \<Longrightarrow> 0 \<le> v"
  shows "registry_inv (r\<lparr>metric_values := dict_set (name, key) v (metric_values r)\<rparr>)"
  using assms distinct_keys_dict_set [of "metric_values r" "(name, key)" v]
  by (fastforce simp: registry_inv_def dest!: dict_set_entry)

lemma double_nonneg: "0 \<le> q \<Longrightarrow> double q = Some v \<Longrightarrow> 0 \<le> v"
proof -
  assume q: "0 \<le> q" and v: "double q = Some v"
  show "0 \<le> v"
  proof (cases "q = 0")
    case True
    then show ?thesis using v by (simp add: double_def)
  next
    case False
    define ulp where "ulp = pow2 (max (exponent q - 52) (- 1074))"
    have ulp: "0 < ulp" by (simp add: ulp_def)
    then have "0 \<le> q / ulp" using q by simp
    then have "0 \<le> round_half_even (q / ulp)" by (simp add: round_half_even_def Let_def)
    then have "0 \<le> of_int (round_half_even (q / ulp)) * ulp" using ulp by simp
    then show ?thesis using v False by (simp add: double_def ulp_def [symmetric] Let_def split: if_splits)
  qed
qed

lemma value_at_nonneg:
  assumes "registry_inv r" "kind_of name = Some Counter_metric"
  shows "0 \<le> value_at r (name, key)"
  using assms by (fastforce simp: value_at_def registry_inv_def dest: map_of_SomeD split: option.splits)

lemma add_value_inv:
  assumes "registry_inv r" "add_value (name, key) amount r = Inr r'" "(name, key) \<in> set all_series"
    and "kind_of name \<in> {Some Counter_metric, Some Gauge_metric}" "kind_of name = Some Counter_metric \<Longrightarrow> 0 \<le> amount"
  shows "registry_inv r'"
proof -
  obtain v where v: "round_signed (value_at r (name, key) + amount) = Some v"
    "r' = r\<lparr>metric_values := dict_set (name, key) v (metric_values r)\<rparr>"
    using assms(2) by (auto simp: add_value_def split: option.splits)
  have "0 \<le> v" if "kind_of name = Some Counter_metric"
  proof -
    have "0 \<le> value_at r (name, key) + amount"
      using value_at_nonneg [OF assms(1) that, of key] assms(5) [OF that] by simp
    then show ?thesis using v(1) double_nonneg by (auto simp: round_signed_def)
  qed
  with registry_inv_value [OF assms(1,3,4)] v(2) show ?thesis by blast
qed

lemma run_op_inv:
  assumes "registry_inv r" "distinct (map fst (op_labels oper))" "run_op oper r = Inr r'"
  shows "registry_inv r'"
proof (cases oper)
  case (Op_counter name ls amount)
  then obtain key where "labels_key name ls = Inr key" "add_value (name, key) (of_int amount) r = Inr r'"
    "kind_of name = Some Counter_metric" "0 \<le> amount"
    using assms(3) by (auto simp: counter_def bind_res_Inr split: if_splits)
  then show ?thesis using add_value_inv [OF assms(1)] labels_key_series assms(2) Op_counter by auto
next
  case (Op_observe name v ls)
  then obtain key where key: "labels_key name ls = Inr key" "kind_of name = Some Histogram_metric" "0 \<le> v" "v \<le> 3600"
    "r' = r\<lparr>histograms := dict_set (name, key) ((case map_of (histograms r) (name, key) of None \<Rightarrow> [] | Some vs \<Rightarrow> vs) @ [v]) (histograms r)\<rparr>"
    using assms(3) by (auto simp: observe_def Let_def bind_res_Inr split: if_splits)
  have ser: "(name, key) \<in> set all_series" using labels_key_series key(1) assms(2) Op_observe by simp
  have old: "\<forall>w \<in> set (case map_of (histograms r) (name, key) of None \<Rightarrow> [] | Some vs \<Rightarrow> vs). 0 \<le> w \<and> w \<le> 3600"
    using assms(1) by (fastforce simp: registry_inv_def dest: map_of_SomeD split: option.splits)
  show ?thesis
    using assms(1) key ser old distinct_keys_dict_set [of "histograms r" "(name, key)"
      "(case map_of (histograms r) (name, key) of None \<Rightarrow> [] | Some vs \<Rightarrow> vs) @ [v]"]
    unfolding registry_inv_def by (fastforce dest!: dict_set_entry)
next
  case (Op_gauge name v ls)
  then obtain key where "labels_key name ls = Inr key" "kind_of name = Some Gauge_metric"
    "r' = r\<lparr>metric_values := dict_set (name, key) v (metric_values r)\<rparr>"
    using assms(3) by (auto simp: gauge_def bind_res_Inr split: if_splits)
  moreover from this have "(name, key) \<in> set all_series" using labels_key_series assms(2) Op_gauge by simp
  ultimately show ?thesis by (auto intro!: registry_inv_value [OF assms(1)])
next
  case (Op_increment name ls)
  then obtain key where "labels_key name ls = Inr key" "kind_of name = Some Gauge_metric" "add_value (name, key) 1 r = Inr r'"
    using assms(3) by (auto simp: increment_gauge_def bind_res_Inr split: if_splits)
  then show ?thesis using add_value_inv [OF assms(1)] labels_key_series assms(2) Op_increment by auto
next
  case (Op_decrement name ls)
  then obtain key where "labels_key name ls = Inr key" "kind_of name = Some Gauge_metric" "add_value (name, key) (- 1) r = Inr r'"
    using assms(3) by (auto simp: decrement_gauge_def bind_res_Inr split: if_splits)
  moreover from this have "(name, key) \<in> set all_series" using labels_key_series assms(2) Op_decrement by simp
  ultimately show ?thesis by (auto intro: add_value_inv [OF assms(1)])
qed

lemma reachable_registry_inv: "registry_reachable r \<Longrightarrow> registry_inv r"
proof (induction rule: registry_reachable.induct)
  case reach_empty
  show ?case by (simp add: registry_inv_def empty_registry_def)
next
  case (reach_op r oper r')
  then show ?case by (blast intro: run_op_inv)
qed

lemma length_all_series: "length all_series = 59"
  by (simp add: all_series_def METRIC_DEFINITIONS_def metric_def length_concat)

lemma series_number:
  assumes "registry_inv r"
  shows "length (metric_values r) + length (histograms r) \<le> 59"
proof -
  let ?ks = "map fst (metric_values r) @ map fst (histograms r)"
  have "kind_of (fst k) \<noteq> Some Histogram_metric" if "k \<in> fst ` set (metric_values r)" for k
    using assms that by (auto simp: registry_inv_def)
  moreover have "kind_of (fst k) = Some Histogram_metric" if "k \<in> fst ` set (histograms r)" for k
    using assms that by (auto simp: registry_inv_def)
  ultimately have "fst ` set (metric_values r) \<inter> fst ` set (histograms r) = {}" by blast
  then have "distinct ?ks" using assms by (simp add: registry_inv_def)
  moreover have "set ?ks \<subseteq> set all_series" using assms by (auto simp: registry_inv_def)
  ultimately have "length ?ks \<le> card (set all_series)"
    using distinct_card [of ?ks] card_mono [of "set all_series" "set ?ks"] by simp
  also have "\<dots> \<le> length all_series" by (rule card_length)
  finally have "length ?ks \<le> length all_series" .
  then show ?thesis by (simp add: length_all_series)
qed

text \<open>C38: Whatever is counted, observed and gauged, the registry never holds more than 59 series: every one is a metric of
  the fixed table with labels of its vocabulary.  Counters are never negative and every observation lies between zero and
  3600.\<close>

theorem registry_bounded:
  assumes "registry_reachable r"
  shows "length (metric_values r) + length (histograms r) \<le> 59
     \<and> fst ` set (metric_values r) \<union> fst ` set (histograms r) \<subseteq> set all_series
     \<and> list_all (\<lambda>(k, v). kind_of (fst k) = Some Gauge_metric \<or> 0 \<le> v) (metric_values r)
     \<and> list_all (\<lambda>(k, vs). list_all (\<lambda>v. 0 \<le> v \<and> v \<le> 3600) vs) (histograms r)"
  using reachable_registry_inv [OF assms] series_number by (fastforce simp: registry_inv_def list_all_iff)

theorem registry_bounded_witness:
  "\<exists>r. registry_reachable r \<and> metric_values r = [((''bidscope_sse_connections'', []), 1)] \<and>
     length (metric_values r) + length (histograms r) \<le> 59"
proof -
  define r where "r = empty_registry\<lparr>metric_values := [((''bidscope_sse_connections'', []), 1)]\<rparr>"
  have "run_op (Op_gauge ''bidscope_sse_connections'' 1 []) empty_registry = Inr r"
    by (simp add: gauge_def kind_of_def labels_key_def METRIC_DEFINITIONS_def metric_def md_labels_def empty_registry_def r_def)
  then have "registry_reachable r" by (rule reach_op [OF reach_empty, rotated]) simp
  from registry_bounded [OF this] this show ?thesis by (auto simp: r_def)
qed

text \<open>A whole number of fewer than 53 bits is a float.\<close>

lemma double_whole:
  assumes "0 < n" "n < 2 ^ 52"
  shows "double (of_nat n) = Some (of_nat n)"
proof -
  have pos: "0 < (of_nat n :: rat)" using assms(1) by simp
  have e: "exponent (of_nat n) = int (ilog2 n)" using assms(1) by (simp add: exponent_def)
  have "2 ^ ilog2 n \<le> n" using ilog2_bounds [OF assms(1)] by simp
  then have "(2 :: nat) ^ ilog2 n < 2 ^ 52" using assms(2) by linarith
  then have small: "ilog2 n < 52" by (simp only: power_strict_increasing_iff one_less_numeral_iff semiring_norm)
  define k where "k = 52 - ilog2 n"
  have "max (exponent (of_nat n) - 52) (- 1074) = - int k" using e small by (simp add: k_def)
  moreover have "pow2 (- int k) = 1 / 2 ^ k" by (simp add: pow2_def)
  moreover have "round_half_even (of_nat n * 2 ^ k) = int n * 2 ^ k"
  proof -
    have "(of_nat n * 2 ^ k :: rat) = of_int (int n * 2 ^ k)" by simp
    then show ?thesis by (simp only: round_half_even_def floor_of_int Let_def diff_self) simp
  qed
  moreover have "(of_nat n :: rat) < 2 ^ 1024"
  proof -
    have "(of_nat n :: rat) < of_nat (2 ^ 52)" using assms(2) by (simp only: of_nat_less_iff)
    also have "\<dots> = 2 ^ 52" by simp
    also have "\<dots> < (2 :: rat) ^ 1024" by (rule power_strict_increasing) simp_all
    finally show ?thesis .
  qed
  ultimately show ?thesis using pos by (simp add: double_def Let_def)
qed

text \<open>Increments are not held to the bound that \<open>gauge\<close> enforces.\<close>

lemma gauge_bound_exceeded:
  "\<exists>r r'. gauge ''bidscope_sse_connections'' 1000000 [] empty_registry = Inr r \<and>
     increment_gauge ''bidscope_sse_connections'' [] r = Inr r' \<and>
     value_at r' (''bidscope_sse_connections'', []) = 1000001"
proof -
  let ?name = "''bidscope_sse_connections''"
  define r where "r = empty_registry\<lparr>metric_values := [((?name, []), 1000000)]\<rparr>"
  have key: "labels_key ?name [] = Inr []" "kind_of ?name = Some Gauge_metric"
    by (simp_all add: labels_key_def METRIC_DEFINITIONS_def metric_def md_labels_def kind_of_def)
  then have "gauge ?name 1000000 [] empty_registry = Inr r" by (simp add: gauge_def r_def empty_registry_def)
  moreover have "increment_gauge ?name [] r = Inr (r\<lparr>metric_values := [((?name, []), 1000001)]\<rparr>)"
    using double_whole [of 1000001] by (simp add: increment_gauge_def key add_value_def value_at_def r_def round_signed_def)
  ultimately show ?thesis by (intro exI conjI) (assumption | simp add: value_at_def)+
qed

section \<open>Rendering\<close>

lemma bucket_count_mono: "a \<le> b \<Longrightarrow> bucket_count a vs \<le> bucket_count b vs"
  by (induction vs) (auto simp: bucket_count_def)

text \<open>The buckets of a histogram are cumulative and the last one is its count.\<close>

lemma buckets_cumulative: "sorted (map (\<lambda>b. bucket_count b vs) HISTOGRAM_BUCKETS @ [length vs])"
proof -
  have "sorted HISTOGRAM_BUCKETS" by (simp add: HISTOGRAM_BUCKETS_def)
  then have "sorted (map (\<lambda>b. bucket_count b vs) HISTOGRAM_BUCKETS)"
    by (auto simp: sorted_map intro: sorted_wrt_mono_rel [rotated] bucket_count_mono)
  then show ?thesis by (auto simp: sorted_append bucket_count_def)
qed

section \<open>Request identifiers\<close>

text \<open>The identifier that is echoed in a response header and written to the log is never empty, has at most 128
  characters and only letters, digits, dots, underscores, tildes and hyphens, whatever header the client sent.\<close>

theorem echoed_request_id_safe: "valid_request_id (Some (request_id supplied (uuid_text n)))"
proof -
  have "valid_request_id (Some (uuid_text n))"
    using uuid_text_chars [of _ n] uuid_text_nonempty length_uuid_text
    by (fastforce simp: valid_request_id_def request_id_char_def list_all_iff)
  then show ?thesis by (auto simp: request_id_def split: option.splits)
qed

end
