(* ===== verification/Redaction.thy ===== *)
theory Redaction
  imports Deduplication
begin

text \<open>
  What leaves the process in log records and audit rows: \<open>_sanitize\<close> and its string patterns of
  \<open>observability.py\<close>, \<open>redact_audit_value\<close>, the audit context and the audit event of \<open>audit.py\<close>.
  A Python value is a tree; a dictionary keeps its insertion order and a key is the text of the key.
  \<open>str.casefold\<close>, \<open>str.upper\<close> and the class of word characters are Unicode data, parameters here.
\<close>

datatype pyvalue =
    PNone | PBool bool | PInt int | PFloat rat | PStr pystr
  | PDict "(pystr \<times> pyvalue) list"
  | PList "pyvalue list" | PTuple "pyvalue list" | PSet "pyvalue list"
  | POther pystr

lemma size_entry: "(k, v) \<in> set es \<Longrightarrow> size v < Suc (size_list (size_prod (\<lambda>k. 0) size) es)"
  by (induction es) auto

lemma size_item: "v \<in> set vs \<Longrightarrow> size v < Suc (size_list size vs)"
  by (induction vs) auto

text \<open>The dictionary that collecting the pairs in order gives.\<close>

definition dict_of :: "(pystr \<times> 'a) list \<Rightarrow> (pystr \<times> 'a) list" where
  "dict_of es = fold (\<lambda>(k, v). dict_set k v) es []"

definition TRUNCATED :: pystr where "TRUNCATED = u ''[TRUNCATED]''"
definition REDACTED :: pystr where "REDACTED = u ''[REDACTED]''"

section \<open>Patterns\<close>

text \<open>
  \<open>re.IGNORECASE\<close> on a lower-case ASCII letter: its capital, and the two forms of i without or with a
  second dot, the long s and the Kelvin sign.
\<close>

definition ci_char :: "nat \<Rightarrow> nat \<Rightarrow> bool" where
  "ci_char p c \<longleftrightarrow>
     c = p \<or> (97 \<le> p \<and> p \<le> 122 \<and> c = p - 32) \<or> (p = 105 \<and> c \<in> {304, 305}) \<or> (p = 115 \<and> c = 383) \<or> (p = 107 \<and> c = 8490)"

fun ci_prefix :: "pystr \<Rightarrow> pystr \<Rightarrow> bool" where
  "ci_prefix [] s = True"
| "ci_prefix (p # ps) [] = False"
| "ci_prefix (p # ps) (c # s) = (ci_char p c \<and> ci_prefix ps s)"

fun ci_search :: "pystr list \<Rightarrow> pystr \<Rightarrow> bool" where
  "ci_search ps [] = list_ex (\<lambda>p. p = []) ps"
| "ci_search ps (c # s) = (list_ex (\<lambda>p. ci_prefix p (c # s)) ps \<or> ci_search ps s)"

definition SENSITIVE_KEY :: "pystr list" where
  "SENSITIVE_KEY = [u ''token'', u ''authorization'', u ''cookie'', u ''secret'', u ''apikey'', u ''api_key'', u ''api-key'',
     u ''password'']"

definition sensitive_key :: "pystr \<Rightarrow> bool" where
  "sensitive_key key = ci_search SENSITIVE_KEY key"

definition token_char :: "nat \<Rightarrow> bool" where
  "token_char c \<longleftrightarrow> \<not> py_isspace c \<and> c \<noteq> 44 \<and> c \<noteq> 59"

text \<open>A match is the text of the first group and the token behind it.\<close>

definition with_token :: "pystr \<Rightarrow> pystr \<Rightarrow> (pystr \<times> pystr) option" where
  "with_token grp rest =
     (let tok = takeWhile token_char rest in if tok = [] then None else Some (grp, tok))"

definition match_bearer :: "(nat \<Rightarrow> bool) \<Rightarrow> nat option \<Rightarrow> pystr \<Rightarrow> (pystr \<times> pystr) option" where
  "match_bearer wordc prev s =
     (let word = u ''bearer''; after = drop (length word) s; gap = takeWhile py_isspace after
      in if (case prev of Some c \<Rightarrow> wordc c | None \<Rightarrow> False) \<or> \<not> ci_prefix word s \<or> gap = [] then None
         else with_token (take (length word) s @ gap) (drop (length gap) after))"

definition SENSITIVE_VALUE :: "pystr list" where
  "SENSITIVE_VALUE = [u ''token'', u ''apikey'', u ''api_key'', u ''api-key'', u ''secret'', u ''password'']"

definition match_sensitive :: "nat option \<Rightarrow> pystr \<Rightarrow> (pystr \<times> pystr) option" where
  "match_sensitive prev s =
     (case find (\<lambda>w. ci_prefix w s) SENSITIVE_VALUE of
        None \<Rightarrow> None
      | Some w \<Rightarrow>
          (let after = drop (length w) s; gap = takeWhile py_isspace after; sep = drop (length gap) after
           in case sep of
                [] \<Rightarrow> None
              | c # r \<Rightarrow>
                  if c \<noteq> 58 \<and> c \<noteq> 61 then None
                  else (let gap2 = takeWhile py_isspace r
                        in with_token (take (length w) s @ gap @ [c] @ gap2) (drop (length gap2) r))))"

text \<open>\<open>re.sub\<close> with the replacement \<open>\1[REDACTED]\<close>; \<open>prev\<close> is the character before the position.\<close>

function sub_token :: "(nat option \<Rightarrow> pystr \<Rightarrow> (pystr \<times> pystr) option) \<Rightarrow> nat option \<Rightarrow> pystr \<Rightarrow> pystr" where
  "sub_token m prev [] = []"
| "sub_token m prev (c # s) =
     (case m prev (c # s) of
        None \<Rightarrow> c # sub_token m (Some c) s
      | Some (g, tok) \<Rightarrow>
          if tok = [] then c # sub_token m (Some c) s
          else g @ REDACTED @ sub_token m (Some (last tok)) (drop (length g + length tok) (c # s)))"
  by pat_completeness auto

termination by (relation "measure (\<lambda>(m, prev, s). length s)") auto

definition redact_string :: "(nat \<Rightarrow> bool) \<Rightarrow> pystr \<Rightarrow> pystr" where
  "redact_string wordc value =
     sub_token match_sensitive None (sub_token (match_bearer wordc) None (take 1000 value))"

section \<open>Log records\<close>

text \<open>\<open>_sanitize\<close>: depth \<open>d\<close>, at most 32 entries, keys cut to 100 characters before they are judged.\<close>

function sanitize_value :: "(nat \<Rightarrow> bool) \<Rightarrow> nat \<Rightarrow> pyvalue \<Rightarrow> jvalue" where
  "sanitize_value wordc d (PStr s) = JString (redact_string wordc s)"
| "sanitize_value wordc d PNone = JNull"
| "sanitize_value wordc d (PBool b) = JBool b"
| "sanitize_value wordc d (PInt i) = JInt i"
| "sanitize_value wordc d (PFloat q) = JFloat q"
| "sanitize_value wordc d (PDict es) =
     (if 2 \<le> d then JString TRUNCATED
      else JObject (dict_of (map (\<lambda>(k, v). (take 100 k,
             if sensitive_key (take 100 k) then JString REDACTED else sanitize_value wordc (Suc d) v)) (take 32 es))))"
| "sanitize_value wordc d (PList vs) =
     (if 2 \<le> d then JString TRUNCATED else JArray (map (sanitize_value wordc (Suc d)) (take 32 vs)))"
| "sanitize_value wordc d (PTuple vs) =
     (if 2 \<le> d then JString TRUNCATED else JArray (map (sanitize_value wordc (Suc d)) (take 32 vs)))"
| "sanitize_value wordc d (PSet vs) =
     (if 2 \<le> d then JString TRUNCATED else JArray (map (sanitize_value wordc (Suc d)) (take 32 vs)))"
| "sanitize_value wordc d (POther t) = (if 2 \<le> d then JString TRUNCATED else JString (redact_string wordc t))"
  by pat_completeness auto

termination
  by (relation "measure (\<lambda>(wordc, d, v). size v)")
    (auto dest: in_set_takeD size_entry size_item simp: less_Suc_eq_le [symmetric])

text \<open>\<open>JsonFormatter.format\<close>, up to the rendering of the payload; \<open>structured\<close> is the record's mapping.\<close>

definition dict_default :: "pystr \<Rightarrow> jvalue \<Rightarrow> jobject \<Rightarrow> jobject" where
  "dict_default k v d = (if map_of d k = None then d @ [(k, v)] else d)"

definition log_payload ::
  "(nat \<Rightarrow> bool) \<Rightarrow> (pystr \<times> pyvalue) list option \<Rightarrow> pystr \<Rightarrow> pystr \<Rightarrow> pystr \<Rightarrow> pystr option \<Rightarrow> jobject" where
  "log_payload wordc structured message level logger exception =
     (let payload =
        (case structured of
           Some es \<Rightarrow>
             (case sanitize_value wordc 0 (PDict es) of
                JObject o' \<Rightarrow> dict_default (u ''event'') (JString (redact_string wordc message)) o'
              | _ \<Rightarrow> [])
         | None \<Rightarrow> [(u ''event'', JString (redact_string wordc message))]);
          named = dict_default (u ''logger'') (JString logger) (dict_default (u ''level'') (JString level) payload)
      in case exception of None \<Rightarrow> named | Some e \<Rightarrow> dict_set (u ''exception_type'') (JString e) named)"

section \<open>Audit details\<close>

definition SECRET_KEY_PARTS :: "pystr list" where
  "SECRET_KEY_PARTS = [u ''token'', u ''authorization'', u ''cookie'', u ''secret'', u ''api_key'', u ''password'']"

definition is_secret_key :: "(pystr \<Rightarrow> pystr) \<Rightarrow> pystr \<Rightarrow> bool" where
  "is_secret_key casefold key =
     (let normalized = map (\<lambda>c. if c = 45 then 95 else c) (casefold key)
      in list_ex (\<lambda>part. py_contains part normalized) SECRET_KEY_PARTS)"

definition audit_text :: "pystr \<Rightarrow> pystr" where
  "audit_text s = take 1000 (filter (\<lambda>c. c \<noteq> 0) s)"

function redact_audit_value :: "(pystr \<Rightarrow> pystr) \<Rightarrow> nat \<Rightarrow> pyvalue \<Rightarrow> jvalue" where
  "redact_audit_value casefold d (PDict es) =
     (if 2 \<le> d then JString TRUNCATED
      else JObject (dict_of (map (\<lambda>(k, v). (audit_text k,
             if is_secret_key casefold (audit_text k) then JString REDACTED
             else redact_audit_value casefold (Suc d) v)) (take 32 es))))"
| "redact_audit_value casefold d (PList vs) =
     (if 2 \<le> d then JString TRUNCATED else JArray (map (redact_audit_value casefold (Suc d)) (take 32 vs)))"
| "redact_audit_value casefold d (PTuple vs) =
     (if 2 \<le> d then JString TRUNCATED else JArray (map (redact_audit_value casefold (Suc d)) (take 32 vs)))"
| "redact_audit_value casefold d (PSet vs) = JArray (map (redact_audit_value casefold (Suc d)) (take 32 vs))"
| "redact_audit_value casefold d (PStr s) = JString (take 1000 s)"
| "redact_audit_value casefold d PNone = JNull"
| "redact_audit_value casefold d (PBool b) = JBool b"
| "redact_audit_value casefold d (PInt i) = JInt i"
| "redact_audit_value casefold d (PFloat q) = JFloat q"
| "redact_audit_value casefold d (POther t) = JString (audit_text t)"
  by pat_completeness auto

termination
  by (relation "measure (\<lambda>(casefold, d, v). size v)")
    (auto dest: in_set_takeD size_entry size_item simp: less_Suc_eq_le [symmetric])

section \<open>Audit events\<close>

datatype AuditEventType =
    RUN_CREATED | RUN_CONFIRMED | RUN_RETRIED | SUBSCRIPTION_CREATED | SUBSCRIPTION_PAUSED | SUBSCRIPTION_RESUMED
  | SCHEDULER_TICK_STARTED | SCHEDULER_TICK_COMPLETED | SCHEDULER_TICK_FAILED | SNAPSHOT_IMPORT_SUCCEEDED
  | SNAPSHOT_IMPORT_FAILED | SOURCE_ACQUISITION_COMPLETED | REPORT_VIEWED | DOCX_VIEWED | DOCX_RETRIED

datatype AuditOutcome = AUDIT_SUCCESS | AUDIT_FAILURE | AUDIT_DENIED

record AuditContext =
  ac_request_id :: "pystr option"
  ac_method :: "pystr option"
  ac_path :: "pystr option"
  ac_run_id :: "pystr option"
  ac_subscription_id :: "pystr option"
  ac_report_id :: "pystr option"
  ac_snapshot_import_id :: "pystr option"
  ac_error_code :: "pystr option"

text \<open>\<open>AuditContext.__post_init__\<close>; an address that \<open>urlsplit\<close> rejects raises.\<close>

definition audit_path :: "text_tables \<Rightarrow> pystr option \<Rightarrow> url_error + pystr option" where
  "audit_path tab path =
     (case path of
        None \<Rightarrow> Inr None
      | Some p \<Rightarrow> bind_res (urlsplit tab p)
          (\<lambda>split. Inr (Some (audit_text (if url_path split = [] then u ''/'' else url_path split)))))"

definition make_audit_context :: "text_tables \<Rightarrow> (pystr \<Rightarrow> pystr) \<Rightarrow> AuditContext \<Rightarrow> url_error + AuditContext" where
  "make_audit_context tab upper c =
     bind_res (audit_path tab (ac_path c)) (\<lambda>path.
       Inr (c\<lparr>ac_request_id := map_option audit_text (ac_request_id c),
              ac_method := map_option (\<lambda>m. upper (audit_text m)) (ac_method c),
              ac_path := path,
              ac_run_id := map_option audit_text (ac_run_id c),
              ac_subscription_id := map_option audit_text (ac_subscription_id c),
              ac_report_id := map_option audit_text (ac_report_id c),
              ac_snapshot_import_id := map_option audit_text (ac_snapshot_import_id c),
              ac_error_code := map_option audit_text (ac_error_code c)\<rparr>))"

record AuditEvent =
  ae_type :: AuditEventType
  ae_outcome :: AuditOutcome
  ae_context :: AuditContext
  ae_details :: jvalue

text \<open>\<open>record_audit_event\<close>: the row is added to the caller's transaction.\<close>

definition record_audit_event ::
  "(pystr \<Rightarrow> pystr) \<Rightarrow> AuditContext \<Rightarrow> AuditEventType \<Rightarrow> AuditOutcome \<Rightarrow> pyvalue \<Rightarrow> AuditEvent list \<Rightarrow> AuditEvent list" where
  "record_audit_event casefold context ty outcome details events =
     events @ [\<lparr>ae_type = ty, ae_outcome = outcome, ae_context = context,
       ae_details = redact_audit_value casefold 0 (case details of PNone \<Rightarrow> PDict [] | v \<Rightarrow> v)\<rparr>]"

end
