(* ===== verification/Report_Views.thy ===== *)
theory Report_Views
  imports Delivery Redaction
begin

text \<open>
  The report routes (\<open>api/routes/reports.py\<close>): the bounded JSON a client sees of a persisted report.
  \<open>_fetch_report\<close> joins the tables; the serializers cut every text and split the claims into the
  main list and the review queue.
\<close>

section \<open>Bounded texts\<close>

definition REPORT_ITEMS_LIMIT :: nat where "REPORT_ITEMS_LIMIT = 100"
definition ITEM_TEXT_LIMIT :: nat where "ITEM_TEXT_LIMIT = 240"
definition ITEM_URL_LIMIT :: nat where "ITEM_URL_LIMIT = 2048"
definition EXCERPT_LIMIT :: nat where "EXCERPT_LIMIT = 400"
definition CLAIMS_LIMIT :: nat where "CLAIMS_LIMIT = 100"
definition CITATIONS_LIMIT :: nat where "CITATIONS_LIMIT = 100"

lemmas view_limits = REPORT_ITEMS_LIMIT_def ITEM_TEXT_LIMIT_def ITEM_URL_LIMIT_def EXCERPT_LIMIT_def CLAIMS_LIMIT_def
  CITATIONS_LIMIT_def

definition BOUNDED_KNOWN_FIELDS :: "pystr list" where
  "BOUNDED_KNOWN_FIELDS = [u ''budget'', u ''budget_currency'', u ''deadline'', u ''project_number'', u ''publish_date'',
     u ''purchaser'', u ''region'', u ''source'', u ''source_url'', u ''url'']"

definition bounded_text :: "pystr option \<Rightarrow> nat \<Rightarrow> pystr option" where
  "bounded_text value limit = map_option (take limit) (nonempty value)"

definition bounded_or_empty :: "pystr option \<Rightarrow> nat \<Rightarrow> jvalue" where
  "bounded_or_empty value limit = JString (case bounded_text value limit of None \<Rightarrow> [] | Some t \<Rightarrow> t)"

text \<open>\<open>if text is not None: result[key] = text\<close>.\<close>

definition text_entry :: "string \<Rightarrow> pystr option \<Rightarrow> jobject" where
  "text_entry key value = (case value of None \<Rightarrow> [] | Some t \<Rightarrow> [(u key, JString t)])"

definition bounded_known_fields :: "(pystr \<times> pystr) list \<Rightarrow> (pystr \<times> pystr) list" where
  "bounded_known_fields d =
     concat (map (\<lambda>(key, value).
       if key \<notin> set BOUNDED_KNOWN_FIELDS then []
       else (case bounded_text (Some value) (if key = u ''source_url'' \<or> key = u ''url'' then ITEM_URL_LIMIT else ITEM_TEXT_LIMIT) of
               None \<Rightarrow> [] | Some t \<Rightarrow> [(key, t)])) d)"

text \<open>\<open>_bounded_unknown_fields\<close> and \<open>_bounded_source_availability\<close>.\<close>

definition bounded_texts :: "pystr list \<Rightarrow> pystr list" where
  "bounded_texts vs = concat (map (\<lambda>v. case bounded_text (Some v) ITEM_TEXT_LIMIT of None \<Rightarrow> [] | Some t \<Rightarrow> [t]) (take ITEM_TEXT_LIMIT vs))"

text \<open>
  \<open>_safe_attr\<close> on the objects an item is related to: its row, which has these text attributes and no
  relationships, and the provenance dictionary, whose entries are not attributes.
\<close>

definition item_attr :: "ReportItemRow \<Rightarrow> string \<Rightarrow> pystr option" where
  "item_attr i name =
     (if name = ''title'' then Some (ir_title i)
      else if name = ''notice_version_id'' then Some (ir_notice_version_id i)
      else if name = ''relevance_reason'' then ir_relevance_reason i
      else if name = ''risk_note'' then ir_risk_note i
      else None)"

definition item_relationships :: "ReportItemRow \<Rightarrow> (string \<Rightarrow> pystr option) list" where
  "item_relationships i = [item_attr i, (\<lambda>name. None)]"

fun first_bounded_text :: "(string \<Rightarrow> pystr option) list \<Rightarrow> string list \<Rightarrow> nat \<Rightarrow> pystr option" where
  "first_bounded_text [] names limit = None"
| "first_bounded_text (v # vs) names limit =
     (case filter (\<lambda>t. t \<noteq> None) (map (\<lambda>n. bounded_text (v n) limit) names) of
        [] \<Rightarrow> first_bounded_text vs names limit
      | t # _ \<Rightarrow> t)"

section \<open>Serializers\<close>

record CitationData =
  cd_evidence_id :: nat
  cd_span_hash :: pystr
  cd_start :: int
  cd_end :: int
  cd_excerpt :: pystr
  cd_label :: "pystr option"

record ClaimData =
  cm_text :: pystr
  cm_citation_ids :: "pystr list"
  cm_status :: "ClaimSupportStatus option"
  cm_verification :: "ClaimSupportVerification option"

record ProvenanceData =
  pv_source :: pystr
  pv_source_title :: pystr
  pv_source_url :: pystr
  pv_capture_kind :: pystr
  pv_source_version_id :: pystr
  pv_parser_version :: pystr

definition status_text :: "ClaimSupportStatus \<Rightarrow> pystr" where
  "status_text s = (case s of SUPPORTED \<Rightarrow> u ''supported'' | UNSUPPORTED \<Rightarrow> u ''unsupported'' | UNCERTAIN \<Rightarrow> u ''uncertain'')"

definition capture_text :: "CaptureKind \<Rightarrow> pystr" where
  "capture_text k =
     (case k of RAW_RESPONSE \<Rightarrow> u ''raw_response'' | CURATED_PUBLIC_EXCERPT \<Rightarrow> u ''curated_public_excerpt''
      | SYNTHETIC_DEMO \<Rightarrow> u ''synthetic_demo'')"

definition serialize_citation :: "CitationData \<Rightarrow> jvalue" where
  "serialize_citation c =
     JObject ([(u ''evidence_id'', JString (uuid_text (cd_evidence_id c))),
        (u ''span_hash'', bounded_or_empty (Some (cd_span_hash c)) ITEM_TEXT_LIMIT),
        (u ''start'', JInt (cd_start c)), (u ''end'', JInt (cd_end c)),
        (u ''excerpt'', bounded_or_empty (Some (cd_excerpt c)) EXCERPT_LIMIT)] @
        text_entry ''label'' (bounded_text (cd_label c) ITEM_TEXT_LIMIT))"

definition id_list :: "pystr list \<Rightarrow> jvalue" where
  "id_list ids = JArray (map (\<lambda>i. bounded_or_empty (Some i) ITEM_TEXT_LIMIT) (take CITATIONS_LIMIT ids))"

definition serialize_verification :: "ClaimSupportVerification option \<Rightarrow> jvalue" where
  "serialize_verification verification =
     (case verification of
        None \<Rightarrow> JNull
      | Some v \<Rightarrow> JObject
          [(u ''status'', bounded_or_empty (Some (status_text (vf_status v))) ITEM_TEXT_LIMIT),
           (u ''rationale'', bounded_or_empty (Some (rationale v)) ITEM_TEXT_LIMIT),
           (u ''evidence_ids_used'', id_list (evidence_ids_used v)),
           (u ''conflict_evidence_ids'', id_list (conflict_evidence_ids v)),
           (u ''verifier_version'', bounded_or_empty (Some (verifier_version v)) ITEM_TEXT_LIMIT)])"

definition review_payload :: "ClaimData \<Rightarrow> ClaimSupportStatus \<Rightarrow> jvalue" where
  "review_payload c st = JObject
     [(u ''text'', bounded_or_empty (Some (cm_text c)) ITEM_TEXT_LIMIT), (u ''citation_ids'', id_list (cm_citation_ids c)),
      (u ''support_status'', bounded_or_empty (Some (status_text st)) ITEM_TEXT_LIMIT),
      (u ''verification'', serialize_verification (cm_verification c))]"

definition main_payload :: "ClaimData \<Rightarrow> jvalue" where
  "main_payload c = JObject
     ([(u ''text'', bounded_or_empty (Some (cm_text c)) ITEM_TEXT_LIMIT), (u ''citation_ids'', id_list (cm_citation_ids c))] @
      (case cm_status c of
         None \<Rightarrow> []
       | Some st \<Rightarrow> [(u ''support_status'', bounded_or_empty (Some (status_text st)) ITEM_TEXT_LIMIT)]))"

fun split_claims :: "ClaimData list \<Rightarrow> jvalue list \<Rightarrow> jvalue list \<Rightarrow> jvalue list \<times> jvalue list" where
  "split_claims [] main review = (main, review)"
| "split_claims (c # cs) main review =
     (case cm_status c of
        Some st \<Rightarrow>
          if status_text st \<noteq> u ''supported'' then split_claims cs main (review @ [review_payload c st])
          else split_claims cs (main @ [main_payload c]) review
      | None \<Rightarrow> split_claims cs (main @ [main_payload c]) review)"

definition serialize_claims :: "ClaimData list \<Rightarrow> jvalue list \<times> jvalue list" where
  "serialize_claims claims = split_claims (take CLAIMS_LIMIT claims) [] []"

definition list_entry :: "string \<Rightarrow> jvalue list \<Rightarrow> jobject" where
  "list_entry key vs = (if vs = [] then [] else [(u key, JArray vs)])"

definition bounded_provenance :: "ProvenanceData \<Rightarrow> jobject" where
  "bounded_provenance p =
     text_entry ''source'' (bounded_text (Some (pv_source p)) ITEM_TEXT_LIMIT) @
     text_entry ''source_title'' (bounded_text (Some (pv_source_title p)) ITEM_TEXT_LIMIT) @
     text_entry ''source_url'' (bounded_text (Some (pv_source_url p)) ITEM_URL_LIMIT) @
     text_entry ''capture_kind'' (bounded_text (Some (pv_capture_kind p)) ITEM_TEXT_LIMIT) @
     text_entry ''source_version_id'' (bounded_text (Some (pv_source_version_id p)) ITEM_TEXT_LIMIT) @
     text_entry ''parser_version'' (bounded_text (Some (pv_parser_version p)) ITEM_TEXT_LIMIT)"

definition or_else :: "'a option \<Rightarrow> 'a option \<Rightarrow> 'a option" where
  "or_else a b = (case a of None \<Rightarrow> b | Some x \<Rightarrow> Some x)"

text \<open>The row has no \<open>retrieved_at\<close>, \<open>hash_prefix\<close> or \<open>freshness_days\<close>, so these keys never appear.\<close>

definition serialize_item :: "ReportItemRow \<Rightarrow> ProvenanceData \<Rightarrow> CitationData list \<Rightarrow> ClaimData list \<Rightarrow> jvalue" where
  "serialize_item i provenance citations claims =
     (let known = bounded_known_fields (ir_known_fields i); related = item_relationships i;
          unknown = bounded_texts (ir_unknown_fields i); prov = bounded_provenance provenance;
          (main, review) = serialize_claims claims
      in JObject ([(u ''title'', bounded_or_empty (Some (ir_title i)) ITEM_TEXT_LIMIT)] @
           text_entry ''source'' (or_else (first_bounded_text related [''source''] ITEM_TEXT_LIMIT) (map_of known (u ''source''))) @
           text_entry ''url'' (or_else (first_bounded_text related [''url'', ''source_url'', ''canonical_url''] ITEM_URL_LIMIT)
             (or_else (map_of known (u ''url'')) (map_of known (u ''source_url'')))) @
           (if known = [] then [] else [(u ''known_fields'', JObject (map (\<lambda>(k, v). (k, JString v)) known))]) @
           list_entry ''unknown_fields'' (map JString unknown) @
           text_entry ''relevance_reason'' (bounded_text (ir_relevance_reason i) ITEM_TEXT_LIMIT) @
           text_entry ''risk_note'' (bounded_text (ir_risk_note i) ITEM_TEXT_LIMIT) @
           (if prov = [] then [] else [(u ''provenance'', JObject prov)]) @
           list_entry ''citations'' (map serialize_citation (take CITATIONS_LIMIT citations)) @
           list_entry ''claims'' main @ list_entry ''review_claims'' review))"

section \<open>The fetch\<close>

text \<open>An item with what the joins find for it.\<close>

record FetchedItem =
  fi_row :: ReportItemRow
  fi_provenance :: ProvenanceData
  fi_citations :: "CitationData list"
  fi_claims :: "ClaimData list"

text \<open>The title column of a source notice is written by no code; the version's title or the item's follows.\<close>

definition provenance_of :: "ReportItemRow \<Rightarrow> NoticeVersion \<Rightarrow> SourceNotice \<Rightarrow> ProvenanceData" where
  "provenance_of i v s =
     \<lparr>pv_source = sn_source s, pv_source_title = (case nonempty (ver_title v) of Some t \<Rightarrow> t | None \<Rightarrow> ir_title i),
      pv_source_url = sn_source_url s, pv_capture_kind = capture_text (ver_capture_kind v),
      pv_source_version_id = ver_id v, pv_parser_version = ver_parser_version v\<rparr>"

definition item_joins :: "NoticeTables \<Rightarrow> ReportDb \<Rightarrow> ReportRow \<Rightarrow> (ReportItemRow \<times> NoticeVersion \<times> SourceNotice) list" where
  "item_joins nt db row =
     take REPORT_ITEMS_LIMIT (sort_key (\<lambda>(i, v, s). (ir_rank i, ir_id i))
       (concat (map (\<lambda>i. concat (map (\<lambda>v. map (\<lambda>s. (i, v, s))
             (filter (\<lambda>s. sn_id s = ver_source_notice_id v) (source_notices nt)))
           (filter (\<lambda>v. ver_id v = ir_notice_version_id i) (notice_versions nt))))
         (filter (\<lambda>i. ir_report_id i = rr_id row) (item_rows db)))))"

definition evidence_joins :: "NoticeTables \<Rightarrow> nat list \<Rightarrow> ReportDb \<Rightarrow> (ReportCitationRow \<times> EvidenceRow) list" where
  "evidence_joins nt item_ids db =
     sort_key (\<lambda>(c, e). (cr_report_item_id c, cr_ordinal c, cr_id c))
       (concat (map (\<lambda>c. map (Pair c) (filter (\<lambda>e. evr_id e = cr_evidence_id c) (evidence_rows nt)))
         (filter (\<lambda>c. cr_report_item_id c \<in> set item_ids) (citation_rows db))))"

definition citation_data :: "ReportCitationRow \<times> EvidenceRow \<Rightarrow> CitationData" where
  "citation_data = (\<lambda>(c, e). \<lparr>cd_evidence_id = evr_id e, cd_span_hash = evr_span_hash e, cd_start = cr_span_start c,
     cd_end = cr_span_end c, cd_excerpt = evr_text e, cd_label = cr_label c\<rparr>)"

text \<open>A later verification row of the same claim overwrites an earlier one.\<close>

definition verification_of :: "ReportDb \<Rightarrow> nat \<Rightarrow> ClaimSupportVerification option" where
  "verification_of db claim_id =
     map_option cv_verdict (find (\<lambda>v. cv_report_claim_id v = claim_id) (rev (verification_rows db)))"

definition claim_data :: "(ReportClaimCitationRow \<times> pystr) list \<Rightarrow> ReportDb \<Rightarrow> ReportClaimRow \<Rightarrow> ClaimData" where
  "claim_data citations db c =
     \<lparr>cm_text = cl_text c, cm_citation_ids = citation_ids_of_claim citations (cl_id c), cm_status = cl_support_status c,
      cm_verification = verification_of db (cl_id c)\<rparr>"

definition fetch_report :: "NoticeTables \<Rightarrow> ReportDb \<Rightarrow> pystr \<Rightarrow> (ReportRow \<times> FetchedItem list) option" where
  "fetch_report nt db run =
     (case find_report_row db run of
        None \<Rightarrow> None
      | Some row \<Rightarrow>
          (let rows = item_joins nt db row; ids = map (\<lambda>(i, v, s). ir_id i) rows;
               citations = evidence_joins nt ids db; claims = sorted_claims ids db;
               claim_citations = joined_claim_citations nt (map cl_id claims) db
           in Some (row, map (\<lambda>(i, v, s). \<lparr>fi_row = i, fi_provenance = provenance_of i v s,
                fi_citations = map citation_data (filter (\<lambda>(c, e). cr_report_item_id c = ir_id i) citations),
                fi_claims = map (claim_data claim_citations db) (filter (\<lambda>c. cl_report_item_id c = ir_id i) claims)\<rparr>) rows)))"

section \<open>Responses\<close>

definition nullable :: "pystr option \<Rightarrow> jvalue" where
  "nullable t = (case t of None \<Rightarrow> JNull | Some s \<Rightarrow> JString s)"

definition serialize_report :: "ReportRow \<Rightarrow> FetchedItem list \<Rightarrow> jobject" where
  "serialize_report row items =
     [(u ''id'', JString (uuid_text (rr_id row))), (u ''run_id'', JString (rr_run_id row)),
      (u ''export_key'', bounded_or_empty (Some (rr_export_key row)) ITEM_TEXT_LIMIT),
      (u ''conditions'', JObject (dict_of (map (\<lambda>(k, v). (take ITEM_TEXT_LIMIT k, JString (take ITEM_TEXT_LIMIT v))) (rr_conditions row)))),
      (u ''freshness_window'', nullable (bounded_text (rr_freshness_window row) ITEM_TEXT_LIMIT)),
      (u ''source_availability'', JArray (map JString (bounded_texts (rr_source_availability row)))),
      (u ''completeness_warning'', nullable (bounded_text (rr_completeness_warning row) ITEM_TEXT_LIMIT)),
      (u ''generated_at'', JString (isoformat (rr_generated_at row))),
      (u ''items'', JArray (map (\<lambda>f. serialize_item (fi_row f) (fi_provenance f) (fi_citations f) (fi_claims f))
         (take REPORT_ITEMS_LIMIT items)))]"

datatype http_error = Http_404 | Http_503 | Unhandled store_error

text \<open>
  \<open>_record_report_observation\<close>: the audit row of a read; \<open>committed\<close> tells whether its own transaction
  goes through, and a failure is swallowed.
\<close>

definition observation_context :: "pystr \<Rightarrow> pystr \<Rightarrow> AuditEventType \<Rightarrow> AuditContext" where
  "observation_context run report_id ty =
     \<lparr>ac_request_id = None, ac_method = Some (if ty = DOCX_RETRIED then u ''POST'' else u ''GET''),
      ac_path = Some (u ''/api/reports/'' @ run), ac_run_id = Some run, ac_subscription_id = None,
      ac_report_id = Some report_id, ac_snapshot_import_id = None, ac_error_code = None\<rparr>"

definition record_observation ::
  "text_tables \<Rightarrow> (pystr \<Rightarrow> pystr) \<Rightarrow> (pystr \<Rightarrow> pystr) \<Rightarrow> bool \<Rightarrow> pystr \<Rightarrow> pystr \<Rightarrow> AuditEventType \<Rightarrow> pystr option \<Rightarrow>
     AuditEvent list \<Rightarrow> AuditEvent list" where
  "record_observation tab upper casefold committed run report_id ty stored_key events =
     (case make_audit_context tab upper (observation_context run report_id ty) of
        Inl _ \<Rightarrow> events
      | Inr context \<Rightarrow>
          if committed
          then record_audit_event casefold context ty AUDIT_SUCCESS
                 (PDict (case stored_key of None \<Rightarrow> [] | Some k \<Rightarrow> [(u ''object_key'', PStr k)])) events
          else events)"

definition get_report ::
  "text_tables \<Rightarrow> (pystr \<Rightarrow> pystr) \<Rightarrow> (pystr \<Rightarrow> pystr) \<Rightarrow> bool \<Rightarrow> NoticeTables \<Rightarrow> ReportDb \<Rightarrow> pystr \<Rightarrow> AuditEvent list \<Rightarrow>
     (http_error + jobject) \<times> AuditEvent list" where
  "get_report tab upper casefold committed nt db run events =
     (case fetch_report nt db run of
        None \<Rightarrow> (Inl Http_404, events)
      | Some (row, items) \<Rightarrow>
          (Inr (serialize_report row items),
           record_observation tab upper casefold committed run (uuid_text (rr_id row)) REPORT_VIEWED None events))"

text \<open>
  \<open>retry_docx\<close> over the export of \<open>delivery/docx.py\<close>; \<open>download_docx\<close> reads the attached object, where
  \<open>os_error\<close> tells which failures of the store are the \<open>OSError\<close> that is caught.
\<close>

definition retry_docx ::
  "text_tables \<Rightarrow> (pystr \<Rightarrow> pystr) \<Rightarrow> (pystr \<Rightarrow> pystr) \<Rightarrow> bool \<Rightarrow> NoticeTables \<Rightarrow>
     (pystr \<Rightarrow> bytes \<Rightarrow> 's \<Rightarrow> (store_error + unit) \<times> 's) \<Rightarrow> (pystr \<Rightarrow> 's \<Rightarrow> store_error + bool) \<Rightarrow> (docx_block list \<Rightarrow> bytes) \<Rightarrow>
     (ReportDb \<Rightarrow> ReportDb) \<Rightarrow> pystr \<Rightarrow> ReportDb \<Rightarrow> 's \<Rightarrow> AuditEvent list \<Rightarrow>
     (http_error + jobject) \<times> ReportDb \<times> 's \<times> AuditEvent list" where
  "retry_docx tab upper casefold committed nt put ex docx others run db s events =
     (case load_online_report nt db run of
        None \<Rightarrow> (Inl Http_404, db, s, events)
      | Some persisted \<Rightarrow>
          (case export_report put ex docx others persisted db s of
             (Inl _, db1, s1) \<Rightarrow> (Inl Http_503, db1, s1, events)
           | (Inr rec, db1, s1) \<Rightarrow>
               (Inr [(u ''report_id'', JString (er_report_id rec)), (u ''docx_object_key'', JString (er_object_key rec))], db1, s1,
                record_observation tab upper casefold committed run (er_report_id rec) DOCX_RETRIED (Some (er_object_key rec)) events)))"

definition download_docx ::
  "text_tables \<Rightarrow> (pystr \<Rightarrow> pystr) \<Rightarrow> (pystr \<Rightarrow> pystr) \<Rightarrow> bool \<Rightarrow> NoticeTables \<Rightarrow> (pystr \<Rightarrow> 's \<Rightarrow> store_error + bytes) \<Rightarrow>
     (store_error \<Rightarrow> bool) \<Rightarrow> pystr \<Rightarrow> ReportDb \<Rightarrow> 's \<Rightarrow> AuditEvent list \<Rightarrow> (http_error + bytes \<times> pystr) \<times> AuditEvent list" where
  "download_docx tab upper casefold committed nt get os_error run db s events =
     (case fetch_report nt db run of
        None \<Rightarrow> (Inl Http_404, events)
      | Some (row, _) \<Rightarrow>
          (case nonempty (rr_docx_object_key row) of
             None \<Rightarrow> (Inl Http_404, events)
           | Some key \<Rightarrow>
               (case get key s of
                  Inl e \<Rightarrow> (Inl (if os_error e then Http_404 else Unhandled e), events)
                | Inr data \<Rightarrow>
                    (Inr (data, u ''bidscope-'' @ run @ u ''.docx''),
                     record_observation tab upper casefold committed run (uuid_text (rr_id row)) DOCX_VIEWED (Some key) events))))"

end
