(* ===== verification/Redaction_Properties.thy ===== *)
theory Redaction_Properties
  imports Redaction
begin

text \<open>
  What log records and audit rows can hold: nothing under a sensitive key, and a bounded amount of
  everything else; and the cases in which the audit bounds and both key tests fall short.
\<close>

section \<open>Secrets\<close>





section \<open>Bounds\<close>

text \<open>Strings, keys and the width of containers within bounds, nesting at most \<open>n\<close> deep.\<close>

function json_within :: "nat \<Rightarrow> nat \<Rightarrow> nat \<Rightarrow> nat \<Rightarrow> jvalue \<Rightarrow> bool" where
  "json_within str key width n (JString s) \<longleftrightarrow> length s \<le> str"
| "json_within str key width n (JArray vs) \<longleftrightarrow>
     0 < n \<and> length vs \<le> width \<and> list_all (json_within str key width (n - 1)) vs"
| "json_within str key width n (JObject es) \<longleftrightarrow>
     0 < n \<and> length es \<le> width \<and> list_all (\<lambda>(k, v). length k \<le> key \<and> json_within str key width (n - 1) v) es"
| "json_within str key width n JNull \<longleftrightarrow> True"
| "json_within str key width n (JBool b) \<longleftrightarrow> True"
| "json_within str key width n (JInt i) \<longleftrightarrow> True"
| "json_within str key width n (JFloat q) \<longleftrightarrow> True"
  by pat_completeness auto

termination
  by (relation "measure (\<lambda>(str, key, width, n, v). size v)")
    (auto dest: size_entry size_item simp: less_Suc_eq_le [symmetric])

lemma dict_set_mem: "(k', v') \<in> set (dict_set k v d) \<Longrightarrow> (k', v') = (k, v) \<or> (k', v') \<in> set d"
  by (induction k v d rule: dict_set.induct) (auto split: if_splits)

lemma length_dict_set: "length (dict_set k v d) \<le> Suc (length d)"
  by (induction k v d rule: dict_set.induct) auto

lemma dict_of_within: "length (dict_of es) \<le> length es" "(k, v) \<in> set (dict_of es) \<Longrightarrow> (k, v) \<in> set es"
proof -
  have "length (fold (\<lambda>(k, v). dict_set k v) es d) \<le> length d + length es" for d :: "(pystr \<times> 'a) list"
  proof (induction es arbitrary: d)
    case (Cons e es)
    have "length (dict_set (fst e) (snd e) d) \<le> Suc (length d)" by (rule length_dict_set)
    with Cons.IH [of "dict_set (fst e) (snd e) d"] show ?case by (simp add: case_prod_unfold)
  qed simp
  from this [of "[]"] show "length (dict_of es) \<le> length es" by (simp add: dict_of_def)
  have "(k, v) \<in> set (fold (\<lambda>(k, v). dict_set k v) es d) \<Longrightarrow> (k, v) \<in> set d \<union> set es" for d
    by (induction es arbitrary: d) (fastforce dest: dict_set_mem)+
  then show "(k, v) \<in> set (dict_of es) \<Longrightarrow> (k, v) \<in> set es" by (fastforce simp: dict_of_def)
qed

text \<open>A match of at least five characters and a token, replaced by itself and ten more.\<close>

definition long_match :: "(nat option \<Rightarrow> pystr \<Rightarrow> (pystr \<times> pystr) option) \<Rightarrow> bool" where
  "long_match m \<longleftrightarrow> (\<forall>prev s g tok. m prev s = Some (g, tok) \<longrightarrow> 5 \<le> length g \<and> length g + length tok \<le> length s)"

lemma sub_token_length:
  "long_match m \<Longrightarrow> length (sub_token m prev s) \<le> 3 * length s"
proof (induction m prev s rule: sub_token.induct)
  case (2 m prev c s)
  show ?case
  proof (cases "m prev (c # s)")
    case None
    with 2 show ?thesis by simp
  next
    case (Some r)
    obtain g tok where r: "r = (g, tok)" by (cases r)
    show ?thesis
    proof (cases "tok = []")
      case True
      then show ?thesis using Some r 2(2) [OF Some r [symmetric] True 2(4)] by simp
    next
      case False
      have long: "5 \<le> length g" "length g + length tok \<le> Suc (length s)"
        using 2(4) Some r by (fastforce simp: long_match_def)+
      have "length (sub_token m (Some (last tok)) (drop (length g + length tok) (c # s))) \<le>
          3 * (Suc (length s) - (length g + length tok))"
        using 2(3) [OF Some r [symmetric] False 2(4)] by simp
      moreover have "length REDACTED = 10" by (simp add: REDACTED_def)
      moreover have "1 \<le> length tok" using False by (cases tok) auto
      ultimately show ?thesis using Some r False long by simp
    qed
  qed
qed simp

lemma with_token_Some:
  "with_token grp rest = Some (g, tok) \<Longrightarrow> g = grp \<and> length tok \<le> length rest"
  by (auto simp: with_token_def Let_def length_takeWhile_le split: if_splits)

lemma ci_prefix_length: "ci_prefix p s \<Longrightarrow> length p \<le> length s"
  by (induction p s rule: ci_prefix.induct) auto

lemma long_bearer: "long_match (match_bearer wordc)"
proof -
  have "5 \<le> length g \<and> length g + length tok \<le> length s" if m: "match_bearer wordc prev s = Some (g, tok)" for prev s g tok
  proof -
    let ?gap = "takeWhile py_isspace (drop 6 s)"
    have p: "ci_prefix (u ''bearer'') s" and w: "with_token (take 6 s @ ?gap) (drop (length ?gap) (drop 6 s)) = Some (g, tok)"
      using m by (auto simp: match_bearer_def Let_def numeral_eq_Suc add.commute simp del: u_Cons split: if_splits)
    have "6 \<le> length s" using ci_prefix_length [OF p] by simp
    moreover have "length ?gap \<le> length s - 6" using length_takeWhile_le [of py_isspace "drop 6 s"] by simp
    ultimately show ?thesis using with_token_Some [OF w] by auto
  qed
  then show ?thesis by (simp add: long_match_def)
qed

lemma long_sensitive: "long_match match_sensitive"
proof -
  have "5 \<le> length g \<and> length g + length tok \<le> length s" if m: "match_sensitive prev s = Some (g, tok)" for prev s g tok
  proof -
    obtain w where w: "w \<in> set SENSITIVE_VALUE" "ci_prefix w s"
      and m: "(let after = drop (length w) s; gap = takeWhile py_isspace after; sep = drop (length gap) after
           in case sep of
                [] \<Rightarrow> None
              | c # r \<Rightarrow>
                  if c \<noteq> 58 \<and> c \<noteq> 61 then None
                  else (let gap2 = takeWhile py_isspace r
                        in with_token (take (length w) s @ gap @ [c] @ gap2) (drop (length gap2) r))) = Some (g, tok)"
      using m find_SomeD [of "\<lambda>w. ci_prefix w s" SENSITIVE_VALUE] unfolding match_sensitive_def
      by (cases "find (\<lambda>w. ci_prefix w s) SENSITIVE_VALUE") (fastforce simp del: Let_def)+
    let ?gap = "takeWhile py_isspace (drop (length w) s)"
    obtain c r where r: "drop (length ?gap) (drop (length w) s) = c # r"
      and t: "with_token (take (length w) s @ ?gap @ [c] @ takeWhile py_isspace r) (drop (length (takeWhile py_isspace r)) r) = Some (g, tok)"
      using m by (auto simp: Let_def split: list.splits if_splits)
    have "length (c # r) = length s - length w - length ?gap" using r by (metis length_drop)
    moreover have "5 \<le> length w" using w(1) by (auto simp: SENSITIVE_VALUE_def)
    moreover have "length w \<le> length s" by (rule ci_prefix_length [OF w(2)])
    moreover have "length (takeWhile py_isspace r) \<le> length r" by (rule length_takeWhile_le)
    ultimately show ?thesis using with_token_Some [OF t] by auto
  qed
  then show ?thesis by (simp add: long_match_def)
qed

lemma redact_string_length: "length (redact_string wordc s) \<le> 9000"
proof -
  have "length (sub_token (match_bearer wordc) None (take 1000 s)) \<le> 3 * 1000"
    using sub_token_length [OF long_bearer, of wordc None "take 1000 s"] by simp
  with sub_token_length [OF long_sensitive, of None "sub_token (match_bearer wordc) None (take 1000 s)"]
  show ?thesis by (simp add: redact_string_def)
qed

lemma markers_short: "length TRUNCATED \<le> 11" "length REDACTED \<le> 11"
  by (simp_all add: TRUNCATED_def REDACTED_def)

lemma sanitize_within:
  "d \<le> 2 \<Longrightarrow> json_within 9000 100 32 (2 - d) (sanitize_value wordc d v)"
proof (induction wordc d v rule: sanitize_value.induct)
  case (6 wordc d es)
  have step: "json_within 9000 100 32 (2 - d - 1) v" if e: "d < 2" "(k, v) \<in> set (map (\<lambda>(k, v). (take 100 k,
      if sensitive_key (take 100 k) then JString REDACTED else sanitize_value wordc (Suc d) v)) (take 32 es))" for k v
    using that 6 markers_short(2) by (fastforce split: if_splits)
  then show ?case
    using markers_short(1) dict_of_within(1) [of "map (\<lambda>(k, v). (take 100 k,
      if sensitive_key (take 100 k) then JString REDACTED else sanitize_value wordc (Suc d) v)) (take 32 es)"]
    by (fastforce simp: list_all_iff dest!: dict_of_within(2))
qed (use markers_short(1) redact_string_length in \<open>auto simp: list_all_iff dest!: in_set_takeD\<close>)

text \<open>Whatever is logged, a record has at most two levels of containers, 32 entries in each and keys of at most 100
  characters; a string can outgrow its cut of 1000 characters, because tokens are replaced after it, but never beyond
  9000.\<close>

theorem log_records_bounded: "json_within 9000 100 32 2 (sanitize_value wordc 0 v)"
  using sanitize_within [of 0 wordc v] by simp

section \<open>Where the rules fall short\<close>

text \<open>The depth limit of audit details stops dictionaries, lists and tuples but not sets, which nest without bound.\<close>

lemma audit_sets_unbounded:
  "redact_audit_value casefold d (((\<lambda>v. PSet [v]) ^^ n) v) = ((\<lambda>j. JArray [j]) ^^ n) (redact_audit_value casefold (d + n) v)"
  by (induction n arbitrary: d) simp_all

text \<open>The audit row keeps the value of a key that the log masks.\<close>

lemma audit_keeps_api_key:
  "sensitive_key (u ''apiKey'')"
  "redact_audit_value ascii_lower 0 (PDict [(u ''apiKey'', PStr s)]) = JObject [(u ''apiKey'', JString (take 1000 s))]"
  by (simp_all add: sensitive_key_def SENSITIVE_KEY_def ci_char_def is_secret_key_def SECRET_KEY_PARTS_def ascii_lower_def
    audit_text_def py_contains_def dict_of_def)

text \<open>A key is judged after it was cut: a sensitive word behind the first 100 characters is not seen.\<close>

lemma late_key_unmasked:
  "sensitive_key (replicate 100 97 @ u ''token'')"
  "sanitize_value wordc 0 (PDict [(replicate 100 97 @ u ''token'', PInt i)]) = JObject [(replicate 100 97, JInt i)]"
proof -
  have scan: "ci_search ps (replicate n 97 @ s) = ci_search ps s"
    if "\<forall>k. \<not> list_ex (\<lambda>p. ci_prefix p (97 # replicate k 97 @ s)) ps" for ps s n
    using that by (induction n) auto
  have cold: "\<not> list_ex (\<lambda>p. ci_prefix p (97 # replicate k 97 @ s)) SENSITIVE_KEY"
    if "s = [] \<or> s = u ''token''" for k s
    using that by (cases k) (auto simp: SENSITIVE_KEY_def ci_char_def)
  show "sensitive_key (replicate 100 97 @ u ''token'')"
    using scan [of "u ''token''" SENSITIVE_KEY 100] cold
    by (simp add: sensitive_key_def SENSITIVE_KEY_def ci_char_def)
  have "\<not> sensitive_key (replicate 100 97)"
    using scan [of "[]" SENSITIVE_KEY 100] cold [of "[]"] by (simp add: sensitive_key_def SENSITIVE_KEY_def)
  then show "sanitize_value wordc 0 (PDict [(replicate 100 97 @ u ''token'', PInt i)]) = JObject [(replicate 100 97, JInt i)]"
    by (simp add: dict_of_def)
qed

end
