(* ===== verification/Report_View_Properties.thy ===== *)
theory Report_View_Properties
  imports Report_Views Redaction_Properties Delivery_Properties
begin

text \<open>
  What a client sees of a report: the same items, citations and claims that the projection reads, the
  claims split by their verdict, and every text within its bound.
\<close>

section \<open>The two lists of claims\<close>

definition in_main :: "ClaimSupportStatus option \<Rightarrow> bool" where
  "in_main st \<longleftrightarrow> st = None \<or> st = Some SUPPORTED"

lemma status_text_supported: "status_text st = u ''supported'' \<longleftrightarrow> st = SUPPORTED"
  by (cases st) (simp_all add: status_text_def)

lemma split_claims_spec:
  "split_claims cs main review =
     (main @ map main_payload (filter (\<lambda>c. in_main (cm_status c)) cs),
      review @ map (\<lambda>c. review_payload c (the (cm_status c))) (filter (\<lambda>c. \<not> in_main (cm_status c)) cs))"
  by (induction cs main review rule: split_claims.induct)
    (auto simp: in_main_def status_text_supported simp del: u_Cons split: option.splits)

lemma serialize_claims_spec:
  "serialize_claims cs =
     (map main_payload (filter (\<lambda>c. in_main (cm_status c)) (take 100 cs)),
      map (\<lambda>c. review_payload c (the (cm_status c))) (filter (\<lambda>c. \<not> in_main (cm_status c)) (take 100 cs)))"
  by (simp add: serialize_claims_def split_claims_spec CLAIMS_LIMIT_def)

text \<open>The text a claim of the response shows.\<close>

definition shown_text :: "jvalue \<Rightarrow> pystr" where
  "shown_text j = (case j of JObject d \<Rightarrow> (case map_of d (u ''text'') of Some (JString t) \<Rightarrow> t | _ \<Rightarrow> []) | _ \<Rightarrow> [])"

lemma bounded_or_empty_text: "bounded_or_empty (Some t) n = JString (take n t)"
  by (simp add: bounded_or_empty_def bounded_text_def nonempty_def)

lemma shown_text_payload [simp]:
  "shown_text (main_payload c) = take 240 (cm_text c)" "shown_text (review_payload c st) = take 240 (cm_text c)"
  by (simp_all add: shown_text_def main_payload_def review_payload_def bounded_or_empty_text ITEM_TEXT_LIMIT_def)

section \<open>The joins\<close>

lemma sort_key_map: "sort_key k (map f xs) = map f (sort_key (\<lambda>x. k (f x)) xs)"
proof -
  have "insort_key k (f x) (map f ys) = map f (insort_key (\<lambda>x. k (f x)) x ys)" for x ys
    by (induction ys) auto
  then show ?thesis by (induction xs) (simp_all add: sort_key_def)
qed

text \<open>Every item of the report refers to one version, and the version to one source notice.\<close>

definition joins_ok :: "NoticeTables \<Rightarrow> ReportItemRow \<Rightarrow> bool" where
  "joins_ok nt i \<longleftrightarrow>
     length (filter (\<lambda>v. ver_id v = ir_notice_version_id i) (notice_versions nt)) = 1 \<and>
     list_all (\<lambda>v. length (filter (\<lambda>s. sn_id s = ver_source_notice_id v) (source_notices nt)) = 1)
       (filter (\<lambda>v. ver_id v = ir_notice_version_id i) (notice_versions nt))"

definition report_items :: "ReportDb \<Rightarrow> ReportRow \<Rightarrow> ReportItemRow list" where
  "report_items db row = sort_key (\<lambda>i. (ir_rank i, ir_id i)) (filter (\<lambda>i. ir_report_id i = rr_id row) (item_rows db))"

lemma singleton_join:
  assumes "list_all (\<lambda>x. f x = [g x]) xs"
  shows "concat (map f xs) = map g xs"
  using assms by (induction xs) auto

lemma item_joins_rows:
  assumes "list_all (joins_ok nt) (filter (\<lambda>i. ir_report_id i = rr_id row) (item_rows db))"
  shows "map fst (item_joins nt db row) = take 100 (report_items db row)"
proof -
  let ?items = "filter (\<lambda>i. ir_report_id i = rr_id row) (item_rows db)"
  define f where "f = (\<lambda>i :: ReportItemRow. concat (map (\<lambda>v. map (\<lambda>s. (i, v, s))
             (filter (\<lambda>s. sn_id s = ver_source_notice_id v) (source_notices nt)))
           (filter (\<lambda>v. ver_id v = ir_notice_version_id i) (notice_versions nt))))"
  define g where "g = (\<lambda>i. snd (hd (f i)))"
  have "f i = [(i, g i)]" if "joins_ok nt i" for i
    using that by (auto simp: joins_ok_def f_def g_def length_Suc_conv)
  then have "list_all (\<lambda>i. f i = [(i, g i)]) ?items" using assms by (auto simp: list_all_iff)
  then have "concat (map f ?items) = map (\<lambda>i. (i, g i)) ?items" by (intro singleton_join)
  moreover have "(\<lambda>(i, v, s). (ir_rank i, ir_id i)) = (\<lambda>p :: ReportItemRow \<times> NoticeVersion \<times> SourceNotice. (ir_rank (fst p), ir_id (fst p)))"
    by auto
  ultimately show ?thesis
    by (simp add: item_joins_def f_def [symmetric] report_items_def REPORT_ITEMS_LIMIT_def take_map sort_key_map o_def)
qed

text \<open>A fetched item and a fetched claim as the domain objects they stand for.\<close>

definition domain_claim :: "ClaimData \<Rightarrow> ReportClaim" where
  "domain_claim c = \<lparr>claim_text = cm_text c, citation_ids = cm_citation_ids c, support_status = cm_status c\<rparr>"

definition domain_item :: "FetchedItem \<Rightarrow> ReportItem" where
  "domain_item f = \<lparr>item_notice_id = ir_notice_version_id (fi_row f), item_title = ir_title (fi_row f),
     known_fields = ir_known_fields (fi_row f), unknown_fields = ir_unknown_fields (fi_row f),
     relevance_reason = ir_relevance_reason (fi_row f), risk_note = ir_risk_note (fi_row f),
     item_citations = map (\<lambda>c. \<lparr>cit_evidence_id = cd_span_hash c, cit_label = cd_label c\<rparr>) (fi_citations f),
     item_claims = map domain_claim (filter (\<lambda>c. cm_citation_ids c \<noteq> []) (fi_claims f))\<rparr>"


lemma evidence_joins_hashes:
  "joined_citations nt ids db = map (\<lambda>(c, e). (c, evr_span_hash e)) (evidence_joins nt ids db)"
proof -
  have "concat (map (\<lambda>c. map (Pair c) (span_hashes_of nt (cr_evidence_id c))) rows) =
      map (\<lambda>(c, e). (c, evr_span_hash e))
        (concat (map (\<lambda>c. map (Pair c) (filter (\<lambda>e. evr_id e = cr_evidence_id c) (evidence_rows nt))) rows))" for rows :: "ReportCitationRow list"
    by (induction rows) (simp_all add: span_hashes_of_def)
  moreover have "(\<lambda>x :: ReportCitationRow \<times> EvidenceRow. case case x of (c, e) \<Rightarrow> (c, evr_span_hash e) of
      (c, h) \<Rightarrow> (cr_report_item_id c, cr_ordinal c, cr_id c)) = (\<lambda>(c, e). (cr_report_item_id c, cr_ordinal c, cr_id c))"
    by auto
  ultimately show ?thesis by (simp only: joined_citations_def evidence_joins_def sort_key_map)
qed

lemma fetched_citations:
  assumes "x \<in> set ids"
  shows "map (\<lambda>c. \<lparr>cit_evidence_id = cd_span_hash c, cit_label = cd_label c\<rparr>)
     (map citation_data (filter (\<lambda>(c, e). cr_report_item_id c = x) (evidence_joins nt ids db))) = cited_spans nt db x"
proof -
  have "map (\<lambda>c. \<lparr>cit_evidence_id = cd_span_hash c, cit_label = cd_label c\<rparr>)
      (map citation_data (filter (\<lambda>(c, e). cr_report_item_id c = x) es)) =
    citations_of_item (map (\<lambda>(c, e). (c, evr_span_hash e)) es) x" for es
    by (induction es) (auto simp: citations_of_item_def citation_data_def)
  with citations_of_item_joined [OF assms, of nt db] show ?thesis by (simp only: evidence_joins_hashes)
qed

text \<open>The claims of one fetched item.\<close>

definition viewed_claim :: "NoticeTables \<Rightarrow> ReportDb \<Rightarrow> ReportClaimRow \<Rightarrow> ClaimData" where
  "viewed_claim nt db c = \<lparr>cm_text = cl_text c, cm_citation_ids = cited_hashes nt db (cl_id c),
     cm_status = cl_support_status c, cm_verification = verification_of db (cl_id c)\<rparr>"

lemma fetched_claims:
  assumes "x \<in> set ids"
  shows "map (claim_data (joined_claim_citations nt (map cl_id (sorted_claims ids db)) db) db)
      (filter (\<lambda>c. cl_report_item_id c = x) (sorted_claims ids db)) = map (viewed_claim nt db) (item_claim_rows db x)"
proof -
  have "set (item_claim_rows db x) \<subseteq> set (sorted_claims ids db)"
    using assms by (auto simp: item_claim_rows_def sorted_claims_def)
  then show ?thesis
    unfolding sorted_claims_of_item [OF assms]
    by (auto simp: claim_data_def viewed_claim_def citation_ids_joined)
qed

lemma domain_viewed_claims:
  "map domain_claim (filter (\<lambda>c. cm_citation_ids c \<noteq> []) (map (viewed_claim nt db) rows)) =
     map (read_claim nt db) (filter (\<lambda>c. cited_hashes nt db (cl_id c) \<noteq> []) rows)"
  by (induction rows) (simp_all add: viewed_claim_def domain_claim_def read_claim_def)

lemma fetch_report_Some:
  assumes "find_report_row db run = Some row"
    and "list_all (joins_ok nt) (filter (\<lambda>i. ir_report_id i = rr_id row) (item_rows db))"
  obtains items where "fetch_report nt db run = Some (row, items)"
    and "map fi_row items = take 100 (report_items db row)"
    and "\<And>f. f \<in> set items \<Longrightarrow> fi_claims f = map (viewed_claim nt db) (item_claim_rows db (ir_id (fi_row f)))"
    and "\<And>f. f \<in> set items \<Longrightarrow>
       map (\<lambda>c. \<lparr>cit_evidence_id = cd_span_hash c, cit_label = cd_label c\<rparr>) (fi_citations f) = cited_spans nt db (ir_id (fi_row f))"
proof -
  let ?rows = "item_joins nt db row"
  let ?ids = "map (\<lambda>(i, v, s). ir_id i) ?rows"
  define mk where "mk = (\<lambda>(i, v, s). \<lparr>fi_row = i, fi_provenance = provenance_of i v s,
      fi_citations = map citation_data (filter (\<lambda>(c, e). cr_report_item_id c = ir_id i) (evidence_joins nt ?ids db)),
      fi_claims = map (claim_data (joined_claim_citations nt (map cl_id (sorted_claims ?ids db)) db) db)
        (filter (\<lambda>c. cl_report_item_id c = ir_id i) (sorted_claims ?ids db))\<rparr>)"
  have "fetch_report nt db run = Some (row, map mk ?rows)"
    by (simp add: fetch_report_def assms(1) mk_def Let_def)
  moreover have "map fi_row (map mk ?rows) = take 100 (report_items db row)"
    using item_joins_rows [OF assms(2)] by (simp add: mk_def o_def case_prod_unfold)
  moreover have "ir_id (fi_row f) \<in> set ?ids" if "f \<in> set (map mk ?rows)" for f
    using that by (force simp: mk_def)
  moreover have "fi_claims f = map (viewed_claim nt db) (item_claim_rows db (ir_id (fi_row f)))"
    if "f \<in> set (map mk ?rows)" "ir_id (fi_row f) \<in> set ?ids" for f
    using that fetched_claims [OF that(2), of nt db] by (auto simp: mk_def)
  moreover have "map (\<lambda>c. \<lparr>cit_evidence_id = cd_span_hash c, cit_label = cd_label c\<rparr>) (fi_citations f) =
      cited_spans nt db (ir_id (fi_row f))"
    if "f \<in> set (map mk ?rows)" "ir_id (fi_row f) \<in> set ?ids" for f
    using that fetched_citations [OF that(2), of nt db] by (auto simp: mk_def)
  ultimately show ?thesis using that [of "map mk ?rows"] by blast
qed

lemma projected_items:
  "rep_items (pr_report (project_report nt db row)) =
     map (\<lambda>i. \<lparr>item_notice_id = ir_notice_version_id i, item_title = ir_title i, known_fields = ir_known_fields i,
       unknown_fields = ir_unknown_fields i, relevance_reason = ir_relevance_reason i, risk_note = ir_risk_note i,
       item_citations = cited_spans nt db (ir_id i),
       item_claims = map (read_claim nt db) (filter (\<lambda>c. cited_hashes nt db (cl_id c) \<noteq> []) (item_claim_rows db (ir_id i)))\<rparr>)
     (report_items db row)"
proof -
  have "ir_id i \<in> set (map ir_id (report_items db row))" if "i \<in> set (report_items db row)" for i
    using that by simp
  then show ?thesis
    by (simp add: project_report_def Let_def report_items_def [symmetric] citations_of_item_joined claims_of_item_joined
      del: set_map)
qed

lemma route_agreement:
  assumes "find_report_row db run = Some row"
    and "list_all (joins_ok nt) (filter (\<lambda>i. ir_report_id i = rr_id row) (item_rows db))"
  shows "\<exists>items. fetch_report nt db run = Some (row, items) \<and>
     map domain_item items = take 100 (rep_items (pr_report (project_report nt db row)))"
proof -
  obtain items where f: "fetch_report nt db run = Some (row, items)" "map fi_row items = take 100 (report_items db row)"
    "\<And>f. f \<in> set items \<Longrightarrow> fi_claims f = map (viewed_claim nt db) (item_claim_rows db (ir_id (fi_row f)))"
    "\<And>f. f \<in> set items \<Longrightarrow>
       map (\<lambda>c. \<lparr>cit_evidence_id = cd_span_hash c, cit_label = cd_label c\<rparr>) (fi_citations f) = cited_spans nt db (ir_id (fi_row f))"
    using fetch_report_Some [OF assms] by blast
  have "map domain_item items = map (\<lambda>i. \<lparr>item_notice_id = ir_notice_version_id i, item_title = ir_title i,
       known_fields = ir_known_fields i, unknown_fields = ir_unknown_fields i, relevance_reason = ir_relevance_reason i,
       risk_note = ir_risk_note i, item_citations = cited_spans nt db (ir_id i),
       item_claims = map (read_claim nt db) (filter (\<lambda>c. cited_hashes nt db (cl_id c) \<noteq> []) (item_claim_rows db (ir_id i)))\<rparr>)
     (map fi_row items)"
    using f(3,4) by (simp add: domain_item_def domain_viewed_claims)
  with f(1,2) show ?thesis by (simp add: projected_items take_map)
qed

text \<open>C12: The route and the reader of the delivery service agree: where every item refers to one version of one source,
  the first hundred items of the projected report are the fetched ones, with the same citations in the same order and
  the same cited claims with their statuses.\<close>

theorem route_reads_projection:
  assumes "find_report_row db run = Some row"
    and "list_all (joins_ok nt) (filter (\<lambda>i. ir_report_id i = rr_id row) (item_rows db))"
  shows "\<exists>items. fetch_report nt db run = Some (row, items) \<and>
     map domain_item items = take 100 (rep_items (pr_report (project_report nt db row)))"
  using assms by (rule route_agreement)


section \<open>A judged report\<close>

definition viewed_tables :: NoticeTables where
  "viewed_tables = stored_tables\<lparr>source_notices := [\<lparr>sn_id = u ''n'', sn_source = u ''ccgp'', sn_external_id = u ''1'',
     sn_source_url = u ''https://h/1'', sn_project_number = None, sn_canonical_notice_id = u ''k'',
     sn_first_seen_at = generated_at cited_report, sn_latest_seen_at = generated_at cited_report, sn_content_hash = u ''c''\<rparr>]\<rparr>"

definition doubtful_verdict :: ClaimVerification where
  "doubtful_verdict = cited_verdict\<lparr>cvf_verification := (cvf_verification cited_verdict)\<lparr>vf_status := UNCERTAIN\<rparr>\<rparr>"

lemma viewed_persisted:
  "\<exists>p db'. persist_online demo_storage viewed_tables [u ''r''] (\<lambda>d. d) stored_index [doubtful_verdict] cited_report empty_reports =
     (Inr p, db') \<and> list_all (joins_ok viewed_tables) (item_rows db')"
  by (simp add: persist_online_def insert_report_def persist_item_def find_report_row_def empty_reports_def joins_ok_def
      demo_storage_def viewed_tables_def stored_tables_def stored_index_def resolve_evidence_def span_of_version_def
      cited_item_def cited_report_def Let_def split: option.splits)


theorem route_reads_projection_witness:
  "\<exists>db' row items. find_report_row db' (u ''r'') = Some row \<and> fetch_report viewed_tables db' (u ''r'') = Some (row, items) \<and>
     map domain_item items = take 100 (rep_items (pr_report (project_report viewed_tables db' row)))"
proof -
  obtain p db' where p: "persist_online demo_storage viewed_tables [u ''r''] (\<lambda>d. d) stored_index [doubtful_verdict] cited_report
      empty_reports = (Inr p, db')" "list_all (joins_ok viewed_tables) (item_rows db')"
    using viewed_persisted by blast
  have "insert_report demo_storage viewed_tables [u ''r''] stored_index [doubtful_verdict] cited_report empty_reports \<noteq> Inl e" for e
    using p(1) demo_storage_ok(4)
    by (auto simp: persist_online_def Let_def split: delivery_error.splits)
  then obtain rid db2 where ins: "insert_report demo_storage viewed_tables [u ''r''] stored_index [doubtful_verdict] cited_report
      empty_reports = Inr (rid, db2)"
    by (metis old.sum.exhaust surj_pair)
  then have "db2 = db'" using p(1) demo_storage_ok(4) by (simp add: persist_online_def Let_def)
  have valid: "\<forall>i\<in>set (rep_items cited_report). claims_valid i" by (simp add: cited_report_def cited_item_valid)
  have pks: "distinct (map evr_id (evidence_rows viewed_tables))" by (simp add: viewed_tables_def stored_tables_def)
  obtain row where row: "find_report_row db' (u ''r'') = Some row"
    using insert_report_projects(1) [OF ins demo_storage_ok(1,2) pks valid] \<open>db2 = db'\<close> by (auto simp: cited_report_def)
  have "list_all (joins_ok viewed_tables) (filter (\<lambda>i. ir_report_id i = rr_id row) (item_rows db'))"
    using p(2) by (simp add: list_all_iff)
  from route_reads_projection [OF row this] row show ?thesis by blast
qed

section \<open>Documents\<close>

lemma object_key_nonempty: "object_key pid \<noteq> []"
  by (simp add: object_key_def Let_def)

lemma find_attached:
  assumes "find_report_row db run = Some row" "rr_docx_object_key row = None"
  shows "find_report_row (attach_key (uuid_text (rr_id row)) key db) run = Some (row\<lparr>rr_docx_object_key := Some key\<rparr>)"
proof -
  have "find (\<lambda>r. rr_run_id r = run) rows = Some row \<Longrightarrow>
      find (\<lambda>r. rr_run_id r = run)
        (map (\<lambda>r. if uuid_text (rr_id r) = uuid_text (rr_id row) \<and> rr_docx_object_key r = None
                   then r\<lparr>rr_docx_object_key := Some key\<rparr> else r) rows) =
      Some (row\<lparr>rr_docx_object_key := Some key\<rparr>)" for rows
    using assms(2) by (induction rows) (auto split: if_splits)
  then show ?thesis using assms(1) by (simp add: find_report_row_def attach_key_def)
qed

context object_store
begin

lemma retried_download:
  assumes retry: "retry_docx tab upper casefold committed nt put ex docx (\<lambda>d. d) run db s events = (Inr resp, db', s', events')"
    and row: "find_report_row db run = Some row" "rr_docx_object_key row = None" "get_report_row db (uuid_text (rr_id row)) = Some row"
  shows "fst (download_docx tab upper casefold committed' nt get os_error run db' s' events'') =
     Inr (docx (render_report (pr_report (project_report nt db row))), u ''bidscope-'' @ run @ u ''.docx'')"
proof -
  let ?p = "project_report nt db row"
  have pid: "pr_id ?p = uuid_text (rr_id row)" by (simp add: project_report_def Let_def)
  have key: "rr_docx_object_key row = None" by (rule row(2))
  obtain rec where exp: "export_report put ex docx (\<lambda>d. d) ?p db s = (Inr rec, db', s')"
    using retry row(1) by (auto simp: retry_docx_def load_online_report_def split: sum.splits prod.splits)
  then have stored: "put (object_key (pr_id ?p)) (docx (render_report (pr_report ?p))) s = (Inr (), s')"
    and db': "db' = attach_key (pr_id ?p) (object_key (pr_id ?p)) db"
    using row(3) key by (auto simp: export_report_def pid nonempty_def Let_def split: sum.splits prod.splits)
  have "\<exists>items. fetch_report nt db' run = Some (row\<lparr>rr_docx_object_key := Some (object_key (pr_id ?p))\<rparr>, items)"
    using find_attached [OF row(1,2)] by (simp add: fetch_report_def db' pid Let_def)
  then obtain items where "fetch_report nt db' run = Some (row\<lparr>rr_docx_object_key := Some (object_key (pr_id ?p))\<rparr>, items)" ..
  then show ?thesis
    using get_put [OF stored] object_key_nonempty by (simp add: download_docx_def nonempty_def del: u_Cons)
qed

end






section \<open>Bounds\<close>

abbreviation view_within :: "nat \<Rightarrow> jvalue \<Rightarrow> bool" where
  "view_within \<equiv> json_within 2048 32 240"

lemma bounded_text_length: "bounded_text v n = Some t \<Longrightarrow> length t \<le> n"
  by (auto simp: bounded_text_def)

lemma bounded_or_empty_within [simp]: "n \<le> 2048 \<Longrightarrow> view_within d (bounded_or_empty v n)"
  by (auto simp: bounded_or_empty_def dest: bounded_text_length split: option.splits)

lemma text_entry_within:
  "n \<le> 2048 \<Longrightarrow> length k \<le> 32 \<Longrightarrow> list_all (\<lambda>(k, v). length k \<le> 32 \<and> view_within d v) (text_entry k (bounded_text v n))"
  "length (text_entry k w) \<le> 1"
  by (auto simp: text_entry_def dest: bounded_text_length split: option.splits)

lemma id_list_within [simp]: "0 < d \<Longrightarrow> view_within d (id_list ids)"
  by (simp add: id_list_def list_all_iff CITATIONS_LIMIT_def ITEM_TEXT_LIMIT_def)

lemma serialize_citation_within: "0 < d \<Longrightarrow> view_within d (serialize_citation c)"
  using text_entry_within(1) [of ITEM_TEXT_LIMIT "''label''" "d - Suc 0" "cd_label c"]
    text_entry_within(2) [of "''label''" "bounded_text (cd_label c) ITEM_TEXT_LIMIT"]
  by (simp add: serialize_citation_def view_limits length_uuid_text)

lemma payload_within:
  "2 < d \<Longrightarrow> view_within d (main_payload c)" "2 < d \<Longrightarrow> view_within d (review_payload c st)"
  by (auto simp: main_payload_def review_payload_def serialize_verification_def ITEM_TEXT_LIMIT_def split: option.splits)

lemma list_entry_within:
  assumes "length vs \<le> 240" "\<forall>v \<in> set vs. view_within d v" "length k \<le> 32" "0 < e" "d = e - 1"
  shows "list_all (\<lambda>(k, v). length k \<le> 32 \<and> view_within e v) (list_entry k vs)"
  using assms by (auto simp: list_entry_def list_all_iff)

lemma length_list_entry: "length (list_entry k vs) \<le> 1"
  by (simp add: list_entry_def)

lemma known_fields_within:
  assumes "(k, v) \<in> set (bounded_known_fields d)"
  shows "k \<in> set BOUNDED_KNOWN_FIELDS \<and> k \<in> fst ` set d \<and> length k \<le> 32 \<and> length v \<le> 2048"
proof -
  obtain raw where kv: "(k, raw) \<in> set d" "k \<in> set BOUNDED_KNOWN_FIELDS"
    "bounded_text (Some raw) (if k = u ''source_url'' \<or> k = u ''url'' then ITEM_URL_LIMIT else ITEM_TEXT_LIMIT) = Some v"
    using assms by (auto simp: bounded_known_fields_def simp del: u_Cons split: if_splits option.splits)
  have "list_all (\<lambda>k. length k \<le> 32) BOUNDED_KNOWN_FIELDS" by (simp add: BOUNDED_KNOWN_FIELDS_def)
  with kv bounded_text_length [OF kv(3)] show ?thesis by (force simp: list_all_iff view_limits split: if_splits)
qed

lemma distinct_known_fields: "distinct (map fst d) \<Longrightarrow> distinct (map fst (bounded_known_fields d))"
proof (induction d)
  case (Cons e d)
  obtain k v where e: "e = (k, v)" by (cases e)
  have "k \<notin> fst ` set (bounded_known_fields d)" using Cons.prems e known_fields_within by fastforce
  moreover have "\<exists>new. bounded_known_fields (e # d) = new @ bounded_known_fields d \<and> (new = [] \<or> (\<exists>t. new = [(k, t)]))"
    by (simp add: e bounded_known_fields_def del: u_Cons split: option.split)
  ultimately show ?case using Cons by auto
qed (simp add: bounded_known_fields_def)

lemma few_known_fields:
  assumes "distinct (map fst d)"
  shows "length (bounded_known_fields d) \<le> 10"
proof -
  have "set (map fst (bounded_known_fields d)) \<subseteq> set BOUNDED_KNOWN_FIELDS"
    using known_fields_within by fastforce
  then have "card (set (map fst (bounded_known_fields d))) \<le> card (set BOUNDED_KNOWN_FIELDS)" by (intro card_mono) simp_all
  also have "\<dots> \<le> length BOUNDED_KNOWN_FIELDS" by (rule card_length)
  also have "\<dots> = 10" by (simp add: BOUNDED_KNOWN_FIELDS_def)
  finally show ?thesis using distinct_card [OF distinct_known_fields [OF assms]] by simp
qed

lemma bounded_texts_within: "length (bounded_texts vs) \<le> 240" "t \<in> set (bounded_texts vs) \<Longrightarrow> length t \<le> 240"
proof -
  have "length (concat (map (\<lambda>v. case bounded_text (Some v) n of None \<Rightarrow> [] | Some t \<Rightarrow> [t]) xs)) \<le> length xs" for xs n
    by (induction xs) (auto split: option.splits)
  from this [of ITEM_TEXT_LIMIT "take ITEM_TEXT_LIMIT vs"] show "length (bounded_texts vs) \<le> 240"
    by (simp add: bounded_texts_def ITEM_TEXT_LIMIT_def)
  show "t \<in> set (bounded_texts vs) \<Longrightarrow> length t \<le> 240"
    by (auto simp: bounded_texts_def ITEM_TEXT_LIMIT_def dest!: bounded_text_length [OF sym] split: option.splits)
qed

lemma first_bounded_None: "first_bounded_text (item_relationships i) [''source''] n = None"
  "first_bounded_text (item_relationships i) [''url'', ''source_url'', ''canonical_url''] n = None"
  by (simp_all add: item_relationships_def item_attr_def bounded_text_def nonempty_def)

text \<open>The entries of an item behind its title.\<close>

definition item_entries :: "ReportItemRow \<Rightarrow> ProvenanceData \<Rightarrow> CitationData list \<Rightarrow> ClaimData list \<Rightarrow> jobject" where
  "item_entries i provenance citations claims =
      (text_entry ''source'' (or_else None (map_of (bounded_known_fields (ir_known_fields i)) (u ''source''))) @
       text_entry ''url'' (or_else None (or_else (map_of (bounded_known_fields (ir_known_fields i)) (u ''url'')) (map_of (bounded_known_fields (ir_known_fields i)) (u ''source_url'')))) @
       (if bounded_known_fields (ir_known_fields i) = [] then [] else [(u ''known_fields'', JObject (map (\<lambda>(k, v). (k, JString v)) (bounded_known_fields (ir_known_fields i))))]) @
       list_entry ''unknown_fields'' (map JString (bounded_texts (ir_unknown_fields i))) @
       text_entry ''relevance_reason'' (bounded_text (ir_relevance_reason i) ITEM_TEXT_LIMIT) @
       text_entry ''risk_note'' (bounded_text (ir_risk_note i) ITEM_TEXT_LIMIT) @
       (if bounded_provenance provenance = [] then [] else [(u ''provenance'', JObject (bounded_provenance provenance))]) @
       list_entry ''citations'' (map serialize_citation (take CITATIONS_LIMIT citations)) @
       list_entry ''claims'' (fst (serialize_claims claims)) @ list_entry ''review_claims'' (snd (serialize_claims claims)))"

lemma serialize_item_entries:
  "serialize_item i provenance citations claims =
     JObject ([(u ''title'', bounded_or_empty (Some (ir_title i)) ITEM_TEXT_LIMIT)] @ item_entries i provenance citations claims)"
  by (simp only: serialize_item_def Let_def case_prod_unfold first_bounded_None item_entries_def)

lemma item_entries_few: "length (item_entries i provenance citations claims) \<le> 10"
proof -
  have short: "length (text_entry k w) \<le> 1" "length (list_entry k vs) \<le> 1" for k w vs
    by (rule text_entry_within(2), rule length_list_entry)
  have few: "length (text_entry k1 w1) + (length (text_entry k2 w2) + (length (if b then [] else [e1]) + (length (list_entry k3 v3) +
      (length (text_entry k4 w4) + (length (text_entry k5 w5) + (length (if b' then [] else [e2]) + (length (list_entry k6 v6) +
      (length (list_entry k7 v7) + length (list_entry k8 v8))))))))) \<le> 10"
    for k1 w1 k2 w2 b and e1 :: "pystr \<times> jvalue" and k3 v3 k4 w4 k5 w5 b' and e2 :: "pystr \<times> jvalue" and k6 v6 k7 v7 k8 v8
    using short(1) [of k1 w1] short(1) [of k2 w2] short(1) [of k4 w4] short(1) [of k5 w5] short(2) [of k3 v3] short(2) [of k6 v6]
      short(2) [of k7 v7] short(2) [of k8 v8] by simp
  then show ?thesis unfolding item_entries_def length_append by this
qed

lemma item_entries_within:
  assumes "distinct (map fst (ir_known_fields i))"
  shows "list_all (\<lambda>(k, v). length k \<le> 32 \<and> view_within 4 v) (item_entries i provenance citations claims)"
proof -
  let ?known = "bounded_known_fields (ir_known_fields i)"
  define main where "main = fst (serialize_claims claims)"
  define review where "review = snd (serialize_claims claims)"
  have claims: "length main \<le> 240" "length review \<le> 240" "\<forall>v \<in> set main. view_within 3 v" "\<forall>v \<in> set review. view_within 3 v"
    using length_filter_le [of "\<lambda>c. in_main (cm_status c)" "take 100 claims"]
      length_filter_le [of "\<lambda>c. \<not> in_main (cm_status c)" "take 100 claims"] payload_within [of 3]
    by (auto simp: main_def review_def serialize_claims_spec)
  have known: "or_else None (map_of ?known k) = Some t \<Longrightarrow> length t \<le> 2048"
    "or_else (map_of ?known k) (map_of ?known k') = Some t \<Longrightarrow> length t \<le> 2048" for k k' t
    using known_fields_within by (fastforce simp: or_else_def split: option.splits dest: map_of_SomeD)+
  have entry: "list_all (\<lambda>(k, v). length k \<le> 32 \<and> view_within 4 v) (text_entry k w)"
    if "length k \<le> 32" "\<And>t. w = Some t \<Longrightarrow> length t \<le> 2048" for k w
    using that by (auto simp: text_entry_def split: option.splits)
  have prov: "view_within 4 (JObject (bounded_provenance provenance))"
  proof -
    have "length (bounded_provenance provenance) \<le> 6"
      by (auto simp: bounded_provenance_def text_entry_def split: option.splits)
    moreover have "list_all (\<lambda>(k, v). length k \<le> 32 \<and> view_within 3 v) (bounded_provenance provenance)"
      using text_entry_within(1) by (simp add: bounded_provenance_def view_limits)
    ultimately show ?thesis by simp
  qed
  have citations: "\<forall>v \<in> set (map serialize_citation (take CITATIONS_LIMIT citations)). view_within 3 v"
    using serialize_citation_within by simp
  have texts: "\<forall>v \<in> set (map JString (bounded_texts (ir_unknown_fields i))). view_within 3 v"
    using bounded_texts_within(2) by fastforce
  have known_object: "view_within 4 (JObject (map (\<lambda>(k, v). (k, JString v)) ?known))"
    using few_known_fields [OF assms] known_fields_within by (fastforce simp: list_all_iff)
  show ?thesis
    unfolding item_entries_def main_def [symmetric] review_def [symmetric] list_all_append
  proof (intro conjI)
    show "list_all (\<lambda>(k, v). length k \<le> 32 \<and> view_within 4 v) (text_entry ''source'' (or_else None (map_of ?known (u ''source''))))"
      by (rule entry) (use known(1) in auto)
    show "list_all (\<lambda>(k, v). length k \<le> 32 \<and> view_within 4 v)
        (text_entry ''url'' (or_else None (or_else (map_of ?known (u ''url'')) (map_of ?known (u ''source_url'')))))"
      by (rule entry) (use known(2) in \<open>auto simp: or_else_def\<close>)
    show "list_all (\<lambda>(k, v). length k \<le> 32 \<and> view_within 4 v)
        (if ?known = [] then [] else [(u ''known_fields'', JObject (map (\<lambda>(k, v). (k, JString v)) ?known))])"
      using known_object by simp
    show "list_all (\<lambda>(k, v). length k \<le> 32 \<and> view_within 4 v)
        (list_entry ''unknown_fields'' (map JString (bounded_texts (ir_unknown_fields i))))"
      by (rule list_entry_within [OF _ texts]) (use bounded_texts_within(1) in simp_all)
    show "list_all (\<lambda>(k, v). length k \<le> 32 \<and> view_within 4 v) (text_entry ''relevance_reason'' (bounded_text (ir_relevance_reason i) ITEM_TEXT_LIMIT))"
      "list_all (\<lambda>(k, v). length k \<le> 32 \<and> view_within 4 v) (text_entry ''risk_note'' (bounded_text (ir_risk_note i) ITEM_TEXT_LIMIT))"
      by (rule text_entry_within(1), simp_all add: ITEM_TEXT_LIMIT_def)+
    show "list_all (\<lambda>(k, v). length k \<le> 32 \<and> view_within 4 v)
        (if bounded_provenance provenance = [] then [] else [(u ''provenance'', JObject (bounded_provenance provenance))])"
      using prov by simp
    show "list_all (\<lambda>(k, v). length k \<le> 32 \<and> view_within 4 v) (list_entry ''citations'' (map serialize_citation (take CITATIONS_LIMIT citations)))"
      by (rule list_entry_within [OF _ citations]) (simp_all add: CITATIONS_LIMIT_def)
    show "list_all (\<lambda>(k, v). length k \<le> 32 \<and> view_within 4 v) (list_entry ''claims'' main)"
      "list_all (\<lambda>(k, v). length k \<le> 32 \<and> view_within 4 v) (list_entry ''review_claims'' review)"
      by (rule list_entry_within [OF claims(1,3)] list_entry_within [OF claims(2,4)], simp_all)+
  qed
qed

text \<open>C40: Whatever is stored, an item of a report response is small: every text in it has at most 2048 characters, every
  list at most 240 entries and nothing is nested deeper than five levels.\<close>

theorem report_item_bounded:
  assumes "distinct (map fst (ir_known_fields i))"
  shows "json_within 2048 32 240 5 (serialize_item i provenance citations claims)"
  using item_entries_within [OF assms] item_entries_few [of i provenance citations claims]
  by (simp add: serialize_item_entries ITEM_TEXT_LIMIT_def)

theorem report_item_bounded_witness:
  "\<exists>i. ir_known_fields i = [(u ''region'', u ''x'')] \<and>
     (\<forall>provenance citations claims. json_within 2048 32 240 5 (serialize_item i provenance citations claims))"
proof -
  let ?i = "\<lparr>ir_id = 1, ir_report_id = 1, ir_rank = 0, ir_notice_version_id = u ''v'', ir_title = u ''t'',
    ir_known_fields = [(u ''region'', u ''x'')], ir_unknown_fields = [], ir_relevance_reason = None, ir_risk_note = None\<rparr>"
  have "distinct (map fst (ir_known_fields ?i))" by simp
  from report_item_bounded [OF this] show ?thesis by (intro exI [of _ ?i]) simp
qed

end
