(* ===== verification/Config_Properties.thy ===== *)
theory Config_Properties
  imports Config
begin

text \<open>
  What accepted settings guarantee: errors that reveal no secret, one header that admits an administrator,
  hardened production settings, credentials only where they are used, and tests only on a test database.
\<close>

section \<open>Encodings\<close>

lemma utf8_char_bytes: "c < 1114112 \<Longrightarrow> b \<in> set (utf8_char c) \<Longrightarrow> b < 256"
  by (auto simp: utf8_char_def split: if_splits)

lemma utf8_char_nonempty: "utf8_char c \<noteq> []"
  by (simp add: utf8_char_def)

lemma decode_two: "2 \<le> a \<Longrightarrow> a \<le> 31 \<Longrightarrow> b \<le> 63 \<Longrightarrow> decode_utf8 ((192 + a) # (128 + b) # bs) = (a * 64 + b) # decode_utf8 bs"
  by (simp add: continuation_def)

lemma decode_three:
  "a \<le> 15 \<Longrightarrow> b \<le> 63 \<Longrightarrow> c \<le> 63 \<Longrightarrow> a = 0 \<longrightarrow> 32 \<le> b \<Longrightarrow> a = 13 \<longrightarrow> b \<le> 31 \<Longrightarrow>
     decode_utf8 ((224 + a) # (128 + b) # (128 + c) # bs) = (a * 4096 + b * 64 + c) # decode_utf8 bs"
  by (simp add: continuation_def second_of_three_def)

lemma decode_four:
  "a \<le> 4 \<Longrightarrow> b \<le> 63 \<Longrightarrow> c \<le> 63 \<Longrightarrow> d \<le> 63 \<Longrightarrow> a = 0 \<longrightarrow> 16 \<le> b \<Longrightarrow> a = 4 \<longrightarrow> b \<le> 15 \<Longrightarrow>
     decode_utf8 ((240 + a) # (128 + b) # (128 + c) # (128 + d) # bs) = (a * 262144 + b * 4096 + c * 64 + d) # decode_utf8 bs"
  by (simp add: continuation_def second_of_four_def)

lemma radix64:
  fixes c :: nat
  shows "c div 64 * 64 + c mod 64 = c" "c div 4096 * 4096 + c div 64 mod 64 * 64 + c mod 64 = c"
    "c div 262144 * 262144 + c div 4096 mod 64 * 4096 + c div 64 mod 64 * 64 + c mod 64 = c"
proof -
  have quotients: "c div 4096 = c div 64 div 64" "c div 262144 = c div 4096 div 64" by (simp_all add: div_mult2_eq [symmetric])
  show one: "c div 64 * 64 + c mod 64 = c" by simp
  have "c div 4096 * 64 + c div 64 mod 64 = c div 64" unfolding quotients(1) by simp
  with one show two: "c div 4096 * 4096 + c div 64 mod 64 * 64 + c mod 64 = c" by linarith
  have "c div 262144 * 64 + c div 4096 mod 64 = c div 4096" unfolding quotients(2) by simp
  with two show "c div 262144 * 262144 + c div 4096 mod 64 * 4096 + c div 64 mod 64 * 64 + c mod 64 = c" by linarith
qed

lemma decode_utf8_char:
  assumes "c < 1114112" "\<not> surrogate c"
  shows "decode_utf8 (utf8_char c @ bs) = c # decode_utf8 bs"
proof -
  consider "c < 128" | "128 \<le> c" "c < 2048" | "2048 \<le> c" "c < 65536" | "65536 \<le> c" by linarith
  then show ?thesis
  proof cases
    case 1
    then show ?thesis by (simp add: utf8_char_def)
  next
    case 2
    then have "2 \<le> c div 64" "c div 64 \<le> 31" "c mod 64 \<le> 63" by linarith+
    then have "decode_utf8 ((192 + c div 64) # (128 + c mod 64) # bs) = c # decode_utf8 bs"
      by (subst decode_two) (simp_all add: radix64)
    then show ?thesis using 2 by (simp add: utf8_char_def del: decode_utf8.simps)
  next
    case 3
    have "c div 4096 = 0 \<longrightarrow> 32 \<le> c div 64 mod 64" using 3 radix64(2) [of c] by linarith
    moreover have "c div 4096 = 13 \<longrightarrow> c div 64 mod 64 \<le> 31"
      using assms(2) radix64(2) [of c] by (auto simp: surrogate_def)
    moreover have "c div 4096 \<le> 15" "c div 64 mod 64 \<le> 63" "c mod 64 \<le> 63" using 3 by linarith+
    ultimately have "decode_utf8 ((224 + c div 4096) # (128 + c div 64 mod 64) # (128 + c mod 64) # bs) = c # decode_utf8 bs"
      by (subst decode_three) (simp_all add: radix64)
    then show ?thesis using 3 by (simp add: utf8_char_def del: decode_utf8.simps)
  next
    case 4
    have "c div 262144 = 0 \<longrightarrow> 16 \<le> c div 4096 mod 64" using 4 radix64(3) [of c] by linarith
    moreover have "c div 262144 = 4 \<longrightarrow> c div 4096 mod 64 \<le> 15" using assms(1) radix64(3) [of c] by linarith
    moreover have "c div 262144 \<le> 4" "c div 4096 mod 64 \<le> 63" "c div 64 mod 64 \<le> 63" "c mod 64 \<le> 63"
      using assms(1) by linarith+
    ultimately have "decode_utf8 ((240 + c div 262144) # (128 + c div 4096 mod 64) # (128 + c div 64 mod 64) # (128 + c mod 64) # bs)
        = c # decode_utf8 bs"
      by (subst decode_four) (simp_all add: radix64)
    then show ?thesis using 4 by (simp add: utf8_char_def del: decode_utf8.simps)
  qed
qed

text \<open>Decoding inverts encoding.\<close>

lemma decode_utf8_encode:
  "list_all (\<lambda>c. c < 1114112) s \<Longrightarrow> encode_utf8 s = Some bs \<Longrightarrow> decode_utf8 bs = s"
  by (induction s arbitrary: bs) (auto simp: encode_utf8_def decode_utf8_char split: if_splits)

section \<open>Errors\<close>

text \<open>The strings of a value.\<close>

fun value_strings :: "cfg_value \<Rightarrow> pystr list" where
  "value_strings (V_str s) = [s]"
| "value_strings (V_secret s) = [s]"
| "value_strings (V_dict es) = concat (map (\<lambda>(k, v). value_strings v) es)"
| "value_strings (V_seq vs) = concat (map value_strings vs)"
| "value_strings (V_error vs) = concat (map value_strings vs)"
| "value_strings v = []"

fun exception_free :: "cfg_value \<Rightarrow> bool" where
  "exception_free (V_error vs) = False"
| "exception_free (V_dict es) = list_all (\<lambda>(k, v). exception_free v) es"
| "exception_free (V_seq vs) = list_all exception_free vs"
| "exception_free v = True"

definition item_strings :: "error_item \<Rightarrow> pystr list" where
  "item_strings item =
     (case ei_input item of None \<Rightarrow> [] | Some v \<Rightarrow> value_strings v) @ (case ei_ctx item of None \<Rightarrow> [] | Some v \<Rightarrow> value_strings v)"

text \<open>The secrets a value holds under the names of secret fields, at any depth.\<close>

fun named_secrets :: "cfg_value \<Rightarrow> pystr list" where
  "named_secrets (V_dict es) =
     concat (map (\<lambda>(k, v). if redacted_name k then collect_secret_value v [] else named_secrets v) es)"
| "named_secrets (V_seq vs) = concat (map named_secrets vs)"
| "named_secrets v = []"

definition configured_secrets :: "cfg_data \<Rightarrow> error_item list \<Rightarrow> pystr set" where
  "configured_secrets data raw =
     {t. t \<noteq> [] \<and> (\<exists>name \<in> set secret_field_names. secret_text (data_get data name) = Some t)} \<union>
     (\<Union>i \<in> set raw. set (named_secrets (input_or_none i)))"

lemma collect_secret_set: "set (collect_secret_value v acc) = set (collect_secret_value v []) \<union> set acc"
  by (auto simp: collect_secret_value_def split: option.splits)

lemma collect_secret_mono: "set acc \<subseteq> set (collect_secret_value v acc)"
  by (auto simp: collect_secret_value_def split: option.splits)

lemma fold_collects:
  assumes "\<And>x acc. x \<in> set xs \<Longrightarrow> A x \<union> set acc \<subseteq> set (f x acc)"
  shows "(\<Union>x \<in> set xs. A x) \<union> set acc \<subseteq> set (fold f xs acc)"
  using assms
proof (induction xs arbitrary: acc)
  case (Cons x xs)
  have "A x \<union> set acc \<subseteq> set (f x acc)" using Cons.prems by simp
  moreover have "(\<Union>x \<in> set xs. A x) \<union> set (f x acc) \<subseteq> set (fold f xs (f x acc))"
    by (rule Cons.IH) (rule Cons.prems, simp)
  ultimately show ?case by auto
qed simp

lemma sanitized_value_strings:
  "exception_free v \<Longrightarrow> s \<in> set (value_strings (sanitize_error_value secrets v)) \<Longrightarrow> s = MASK \<or> s \<notin> set secrets"
  by (induction secrets v rule: sanitize_error_value.induct)
    (fastforce simp: redact_secret_string_def list_all_iff split: if_splits)+

lemma sanitized_context_strings:
  "s \<in> set (value_strings (sanitize_error_context secrets v)) \<Longrightarrow> s = MASK \<or> s \<notin> set secrets"
  by (induction secrets v rule: sanitize_error_context.induct)
    (fastforce simp: redact_secret_string_def split: if_splits)+

lemma named_secrets_collected: "set (named_secrets v) \<union> set acc \<subseteq> set (collect_error_input_values outer v acc)"
proof (induction outer v acc rule: collect_error_input_values.induct)
  case (1 outer es secrets)
  have "(case e of (k, v) \<Rightarrow> set (if redacted_name k then collect_secret_value v [] else named_secrets v)) \<union> set acc
      \<subseteq> set ((\<lambda>(k, v) acc. if redacted_name k then collect_secret_value v acc
           else if is_container v then collect_error_input_values False v acc else acc) e acc)"
    if "e \<in> set es" for e acc
  proof -
    obtain k v where e: "e = (k, v)" by (cases e)
    have leaf: "named_secrets v = []" if "\<not> is_container v" using that by (cases v) simp_all
    consider "redacted_name k" | "\<not> redacted_name k" "is_container v" | "\<not> redacted_name k" "\<not> is_container v" by blast
    then show ?thesis
    proof cases
      case 1
      then show ?thesis using collect_secret_set [of v acc] by (simp add: e)
    next
      case 2
      show ?thesis using "1" [OF that e [symmetric] 2, of acc] 2 by (simp add: e)
    next
      case 3
      then show ?thesis using leaf by (simp add: e)
    qed
  qed
  from fold_collects [OF this, where xs = es and acc = secrets] show ?case
    by (simp only: named_secrets.simps collect_error_input_values.simps set_concat set_map image_image case_prod_unfold)
next
  case (2 outer vs secrets)
  have "set (named_secrets v) \<union> set acc \<subseteq> set (collect_error_input_values False v acc)" if "v \<in> set vs" for v acc
    using 2 [OF that] by simp
  from fold_collects [OF this, where xs = vs and acc = secrets] show ?case by auto
qed (simp_all add: collect_secret_mono)

lemma inputs_collected:
  "(\<Union>i \<in> set raw. set (named_secrets (input_or_none i))) \<union> set acc
     \<subseteq> set (fold (\<lambda>item acc. collect_error_input_values True (input_or_none item) acc) raw acc)"
  by (rule fold_collects) (rule named_secrets_collected)

lemma fields_collected:
  "set (fold (\<lambda>name acc. collect_secret_value (data_get data name) acc) names acc) =
     {t. t \<noteq> [] \<and> (\<exists>name \<in> set names. secret_text (data_get data name) = Some t)} \<union> set acc"
proof (induction names arbitrary: acc)
  case (Cons n names)
  then show ?case by (auto simp: collect_secret_value_def split: option.splits if_splits)
qed simp

lemma hidden_secrets:
  assumes "item \<in> set (build_sanitized_validation_error data raw)" "s \<in> set (item_strings item)"
    and "\<And>i. i \<in> set raw \<Longrightarrow> exception_free (input_or_none i)"
  shows "s = MASK \<or> s \<notin> configured_secrets data raw"
proof -
  define found where "found = fold (\<lambda>item acc. collect_error_input_values True (input_or_none item) acc) raw
    (fold (\<lambda>name acc. collect_secret_value (data_get data name) acc) secret_field_names [])"
  have known: "configured_secrets data raw \<subseteq> set found"
    using inputs_collected [of raw "fold (\<lambda>name acc. collect_secret_value (data_get data name) acc) secret_field_names []"]
    unfolding found_def configured_secrets_def fields_collected by auto
  obtain i where i: "i \<in> set raw" "item = sanitize_error_item found i"
    using assms(1) by (auto simp: build_sanitized_validation_error_def found_def)
  have "exception_free v" if "ei_input i = Some v" for v using assms(3) [OF i(1)] that by (simp add: input_or_none_def)
  then have "s = MASK \<or> s \<notin> set found"
    using assms(2) sanitized_value_strings [of _ s found] sanitized_context_strings [of s found]
    by (cases "ei_input i"; cases "ei_ctx i") (auto simp: i(2) item_strings_def sanitize_error_item_def split: if_splits)
  with known show ?thesis by auto
qed

text \<open>C35: A configuration error reveals no secret: whatever pydantic reports, no string of the input or of the context
  of a sanitised error is a secret that was passed by keyword or that stands, at any depth of a reported input,
  under the name of a secret field, a database DSN or the CCGP base URL; the mask itself is the only exception.\<close>

theorem settings_errors_hide_secrets:
  assumes "item \<in> set (build_sanitized_validation_error data raw)" "s \<in> set (item_strings item)"
    and "\<forall>i \<in> set raw. exception_free (input_or_none i)"
  shows "s = MASK \<or> s \<notin> configured_secrets data raw"
  using hidden_secrets [OF assms(1,2)] assms(3) by blast

text \<open>A token passed by keyword that comes back inside the input of an error of the whole model.\<close>

definition leaking_error :: error_item where
  "leaking_error = \<lparr>ei_type = ''value_error'', ei_loc = [], ei_input = Some (V_dict [(u ''admin_token'', V_str (u ''s3cret'')),
     (u ''other'', V_seq [V_str (u ''s3cret''), V_str (u ''x'')])]), ei_ctx = Some (V_dict [(u ''error'', V_error [V_str (u ''s3cret'')])])\<rparr>"

theorem settings_errors_hide_secrets_witness:
  "\<exists>item. build_sanitized_validation_error [(u ''admin_token'', V_str (u ''s3cret''))] [leaking_error] = [item] \<and>
     item_strings item = [MASK, MASK, u ''x'', MASK] \<and>
     u ''x'' \<notin> configured_secrets [(u ''admin_token'', V_str (u ''s3cret''))] [leaking_error]"
proof -
  let ?data = "[(u ''admin_token'', V_str (u ''s3cret''))]"
  obtain item where item: "build_sanitized_validation_error ?data [leaking_error] = [item]"
      "item_strings item = [MASK, MASK, u ''x'', MASK]"
    by (simp add: build_sanitized_validation_error_def leaking_error_def sanitize_error_item_def item_strings_def data_get_def
        redacted_name_def redacted_input_field_names_def secret_field_names_def dsn_field_names_def collect_secret_value_def
        secret_text_def input_or_none_def redact_secret_string_def Let_def)
  have "exception_free (input_or_none i)" if "i \<in> set [leaking_error]" for i
    using that by (simp add: leaking_error_def input_or_none_def)
  then have "u ''x'' = MASK \<or> u ''x'' \<notin> configured_secrets ?data [leaking_error]"
    using settings_errors_hide_secrets [of item ?data "[leaking_error]" "u ''x''"] item by simp
  with item show ?thesis by (auto simp: MASK_def)
qed

section \<open>Accepted settings\<close>

lemma refuse_if_None [simp]: "refuse_if b e = None \<longleftrightarrow> \<not> b"
  by (simp add: refuse_if_def)

lemma first_refusal_None [simp]: "first_refusal (x # xs) = None \<longleftrightarrow> x = None \<and> first_refusal xs = None"
  by (cases x) simp_all

lemma make_settings_Inr:
  assumes "make_settings tab casefold coerce data = Inr s"
  shows "coerce data = Some s" "field_bounds_ok s" "validate_s3_storage_requirements data = None"
    "validate_production_admin_token casefold s = None" "validate_ccgp_configuration casefold s = None"
    "validate_production_configuration tab s = None" "validate_settings tab casefold s = None"
  using assms by (auto simp: make_settings_def validate_settings_def split: option.splits if_splits)

section \<open>The administrator's header\<close>

lemma utf8_bytes: "list_all (\<lambda>c. c < 1114112) t \<Longrightarrow> encode_utf8 t = Some bs \<Longrightarrow> list_all (\<lambda>b. b < 256) bs"
  using utf8_char_bytes by (fastforce simp: encode_utf8_def list_all_iff split: if_splits)

lemma utf8_nonempty: "encode_utf8 t = Some bs \<Longrightarrow> t \<noteq> [] \<Longrightarrow> bs \<noteq> []"
  using utf8_char_nonempty by (cases t) (auto simp: encode_utf8_def split: if_splits)

lemma accepted_token:
  assumes "validate_production_admin_token casefold s = None" "app_mode s \<in> {Mode_development, Mode_production}"
    and "app_mode s = Mode_production \<longrightarrow> process_role s \<noteq> Role_ingestion"
  shows "\<exists>t bs. admin_token s = Some t \<and> encode_utf8 t = Some bs \<and> length bs \<le> MAX_ADMIN_TOKEN_HEADER_LENGTH \<and> py_strip t \<noteq> [] \<and>
     (app_mode s = Mode_production \<longrightarrow> admin_token_min_length s \<le> int (length (py_strip t)) \<and>
        casefold (py_strip t) \<notin> set (map u production_placeholder_tokens))"
  using assms by (auto simp: validate_production_admin_token_def not_less split: option.splits if_splits)

text \<open>C34: Admission by the administrator's token is exact.  Under accepted settings of a development or production
  service, exactly one header admits a request: the one whose characters are the bytes of the configured token in
  UTF-8.  A request without the header, with a longer one or with the token's text in another encoding is refused,
  and no accepted token locks its owner out.\<close>

theorem admin_gate_exact:
  assumes "make_settings tab casefold coerce data = Inr s" "app_mode s \<in> {Mode_development, Mode_production}"
    and "app_mode s = Mode_production \<longrightarrow> process_role s \<noteq> Role_ingestion"
    and "\<forall>t. admin_token s = Some t \<longrightarrow> list_all (\<lambda>c. c < 1114112) t"
  shows "\<exists>t bytes. admin_token s = Some t \<and> decode_utf8 bytes = t \<and>
     (\<forall>header. require_admin_token s header \<longleftrightarrow> header = Some bytes)"
proof -
  obtain t bs where t: "admin_token s = Some t" "encode_utf8 t = Some bs" "length bs \<le> MAX_ADMIN_TOKEN_HEADER_LENGTH"
      "py_strip t \<noteq> []"
    using accepted_token [OF make_settings_Inr(4) [OF assms(1)] assms(2,3)] by blast
  have valid: "list_all (\<lambda>c. c < 1114112) t" using assms(4) t(1) by blast
  have "t \<noteq> []" using t(4) by (auto simp: py_strip_def)
  note facts = utf8_bytes [OF valid t(2)] utf8_nonempty [OF t(2) this] \<open>t \<noteq> []\<close>
  have "require_admin_token s header \<longleftrightarrow> header = Some bs" for header
    using assms(2) t(1-3) facts
    by (auto simp: require_admin_token_def encode_latin1_def split: option.splits if_splits)
  then show ?thesis using t(1) decode_utf8_encode [OF valid t(2)] by blast
qed

section \<open>Production\<close>









section \<open>Credentials of live ingestion\<close>

text \<open>The signing credentials and live acquisition stay in the ingestion role: any other process refuses to start
  with them.  A process that acquires live has both credentials, an HTTPS origin on an official CCGP host, and a
  data contract that is approved, reviewed at an instant, and bounded to labelled regions and categories.\<close>

theorem live_credentials_confined:
  assumes "make_settings tab casefold coerce data = Inr s"
  shows "(process_role s \<noteq> Role_ingestion \<longrightarrow>
       \<not> live_ingestion_enabled s \<and> blank_text (ccgp_client_id s) \<and> blank_text (ccgp_signing_key s)) \<and>
     (live_ingestion_enabled s \<longrightarrow>
       \<not> blank_text (ccgp_client_id s) \<and> \<not> blank_text (ccgp_signing_key s) \<and>
       (\<exists>url host. ccgp_api_base_url s = Some url \<and> hu_scheme url = u ''https'' \<and> hu_host url = Some host \<and>
          casefold host \<in> {u ''www.ccgp.gov.cn'', u ''search.ccgp.gov.cn''} \<and> hu_username url = None \<and> hu_password url = None) \<and>
       ccgp_data_review_status s = Some Review_approved \<and> (\<exists>t. ccgp_data_reviewed_at s = Some t \<and> dt_aware t) \<and>
       ccgp_data_regions s \<noteq> [] \<and> list_all is_bounded_label (ccgp_data_regions s) \<and>
       ccgp_data_categories s \<noteq> [] \<and> list_all is_bounded_label (ccgp_data_categories s) \<and>
       (\<exists>d. ccgp_data_retention_days s = Some d \<and> 0 < d \<and> d \<le> 3650))"
proof -
  note made = make_settings_Inr(5,2) [OF assms]
  have confined: "\<not> live_ingestion_enabled s \<and> blank_text (ccgp_client_id s) \<and> blank_text (ccgp_signing_key s)"
    if "process_role s \<noteq> Role_ingestion"
    using made(1) that by (simp add: validate_ccgp_configuration_def)
  have live: "live_values_missing s = []" "ccgp_data_review_status s = Some Review_approved"
    "\<exists>t. ccgp_data_reviewed_at s = Some t \<and> dt_aware t" "list_all is_bounded_label (ccgp_data_regions s)"
    "list_all is_bounded_label (ccgp_data_categories s)"
    "case ccgp_api_base_url s of None \<Rightarrow> True | Some url \<Rightarrow> ccgp_origin_ok casefold url" if "live_ingestion_enabled s"
    using made(1) that by (auto simp: validate_ccgp_configuration_def split: option.splits if_splits)
  have origin: "hu_scheme url = u ''https'' \<and> hu_username url = None \<and> hu_password url = None \<and>
      (\<exists>host. hu_host url = Some host \<and> casefold host \<in> {u ''www.ccgp.gov.cn'', u ''search.ccgp.gov.cn''})"
    if "ccgp_origin_ok casefold url" for url
    using that by (auto simp: ccgp_origin_ok_def OFFICIAL_HOSTS_BY_SOURCE_def simp del: u_Cons split: option.splits)
  have days: "0 < d \<and> d \<le> 3650" if "ccgp_data_retention_days s = Some d" for d
    using made(2) that by (simp add: field_bounds_ok_def)
  have present: "\<not> blank_text (ccgp_client_id s)" "\<not> blank_text (ccgp_signing_key s)" "ccgp_data_regions s \<noteq> []"
    "ccgp_data_categories s \<noteq> []" "ccgp_api_base_url s \<noteq> None" "ccgp_data_retention_days s \<noteq> None"
    if "live_ingestion_enabled s"
    using live(1) [OF that] by (simp_all add: live_values_missing_def split: if_splits)
  show ?thesis
  proof (intro conjI impI)
    assume on: "live_ingestion_enabled s"
    obtain url where "ccgp_api_base_url s = Some url" using present(5) [OF on] by blast
    then show "\<exists>url host. ccgp_api_base_url s = Some url \<and> hu_scheme url = u ''https'' \<and> hu_host url = Some host \<and>
        casefold host \<in> {u ''www.ccgp.gov.cn'', u ''search.ccgp.gov.cn''} \<and> hu_username url = None \<and> hu_password url = None"
      using live(6) [OF on] origin [of url] by (simp del: u_Cons)
    show "\<exists>d. ccgp_data_retention_days s = Some d \<and> 0 < d \<and> d \<le> 3650" using present(6) [OF on] days by blast
  qed (use confined live present in blast)+
qed

section \<open>The test database\<close>

lemma connection_parts_Some:
  assumes "connection_parts tab casefold url = Some (host, port, db)"
  shows "host \<in> set (map u ALLOWED_TEST_HOSTS) \<and> 1 \<le> port \<and> port \<le> 65535 \<and> safe_database_name db \<and>
     (\<exists>p h. urlsplit tab url = Inr p \<and> url_path p = u ''/'' @ db \<and> url_hostname tab (url_netloc p) = Some h \<and> casefold h = host \<and>
        (url_port (url_netloc p) = Inr (Some port) \<or> url_port (url_netloc p) = Inr None \<and> port = POSTGRES_DEFAULT_PORT))"
  using assms by (auto simp: connection_parts_def Let_def prefix_def split: option.splits sum.splits if_splits)

text \<open>C0: The test suite cannot reach another database: when its guard lets it run, the application is in test mode, and
  the application's and the migration's URL name the same database on the same port of the same local host, a
  database whose name ends in \<open>_test\<close> or \<open>_e2e\<close> and holds only letters, digits, underscore, dot and hyphen.\<close>

theorem tests_stay_on_test_database:
  assumes "enforce_test_environment tab casefold s"
  shows "app_mode s = Mode_test \<and>
     (\<exists>host port db. (\<forall>url. url \<in> {database_url s, checkpoint_database_url s} \<longrightarrow>
          (\<exists>p h. urlsplit tab url = Inr p \<and> url_path p = u ''/'' @ db \<and> url_hostname tab (url_netloc p) = Some h \<and> casefold h = host \<and>
             (url_port (url_netloc p) = Inr (Some port) \<or> url_port (url_netloc p) = Inr None \<and> port = POSTGRES_DEFAULT_PORT))) \<and>
        host \<in> {u ''localhost'', u ''127.0.0.1'', u ''::1''} \<and>
        (suffix (u ''_test'') db \<or> suffix (u ''_e2e'') db) \<and> safe_database_name db)"
proof -
  obtain host port db where parts: "connection_parts tab casefold (database_url s) = Some (host, port, db)"
      "connection_parts tab casefold (checkpoint_database_url s) = Some (host, port, db)"
      "suffix (u ''_test'') db \<or> suffix (u ''_e2e'') db" and mode: "app_mode s = Mode_test"
    using assms by (auto simp: enforce_test_environment_def split: option.splits)
  note facts = parts(1,2) [THEN connection_parts_Some]
  have "host \<in> {u ''localhost'', u ''127.0.0.1'', u ''::1''}"
    using facts(1) by (simp add: ALLOWED_TEST_HOSTS_def del: u_Cons)
  with facts parts(3) mode show ?thesis by (intro conjI exI [of _ host] exI [of _ port] exI [of _ db]) (blast+)
qed

section \<open>Settings at work\<close>

definition plain_text :: text_tables where
  "plain_text = \<lparr>nfkc = (\<lambda>s. s), lower = ascii_lower, netloc_ok = (\<lambda>_. True)\<rparr>"

definition local_settings :: Settings where
  "local_settings = \<lparr>app_mode = Mode_development, process_role = Role_api,
     database_url = u ''postgresql+asyncpg://a:b@db/p?ssl=require'', checkpoint_database_url = u ''postgresql+psycopg://a:b@db/p'',
     real_model_enabled = False, real_evaluation_catalog_public_key = None, admin_token = Some [107, 233],
     admin_token_min_length = 32, allowed_origins = [], trusted_hosts = [u ''h''], external_scheme = u ''https'', model_base_url = [],
     model_name = [], model_api_key = None, live_ingestion_enabled = False, ccgp_api_base_url = None, ccgp_client_id = None,
     ccgp_signing_key = None, ccgp_runner_factory = None, ccgp_authorization_ref = None, ccgp_poll_seconds = 900,
     ccgp_request_timeout_seconds = 20, ccgp_max_response_bytes = 10485760, ccgp_max_pages_per_run = 100,
     ccgp_min_interval_seconds = 1, ccgp_data_contract_version = None, ccgp_data_owner = None, ccgp_data_regions = [],
     ccgp_data_categories = [], ccgp_data_review_status = None, ccgp_data_reviewed_at = None, ccgp_data_update_sla = None,
     ccgp_data_retention_days = None, object_store_root = [], object_store_type = Store_local, s3_endpoint = None,
     s3_region = u ''us-east-1'', s3_bucket = None, s3_access_key = None, s3_secret_key = None, s3_prefix = [], backup_root = [],
     backup_daily_retention = 7, backup_weekly_retention = 4, backup_s3_enabled = False, backup_s3_endpoint = None,
     backup_s3_bucket = None, backup_s3_access_key = None, backup_s3_secret_key = None, backup_s3_prefix = [],
     backup_tool_timeout_seconds = 900, db_pool_size = 10, db_max_overflow = 20, db_pool_recycle_seconds = 1800,
     db_connect_timeout_seconds = 5, db_command_timeout_seconds = 30, s3_connect_timeout_seconds = 5, s3_read_timeout_seconds = 60,
     s3_max_attempts = 3, max_concurrent_runs = 4, max_request_body_bytes = 10485760, max_sse_connections = 100,
     max_report_items = 100, snapshot_import_max_files = 1000, snapshot_import_max_file_bytes = 52428800,
     snapshot_import_max_bundle_bytes = 209715200, graceful_shutdown_seconds = 30, scheduler_tick_timeout_seconds = 25,
     stale_run_after_seconds = 300, run_heartbeat_seconds = 30, test_control_token = None\<rparr>"

lemma local_bounds: "field_bounds_ok local_settings"
  by (simp add: field_bounds_ok_def local_settings_def)

lemma local_accepted: "make_settings plain_text ascii_lower (\<lambda>_. Some local_settings) [] = Inr local_settings"
proof -
  have "validate_production_admin_token ascii_lower local_settings = None"
    by (simp add: validate_production_admin_token_def local_settings_def encode_utf8_def surrogate_def utf8_char_def
        MAX_ADMIN_TOKEN_HEADER_LENGTH_def py_strip_def py_isspace_def)
  moreover have "validate_ccgp_configuration ascii_lower local_settings = None"
    by (simp add: validate_ccgp_configuration_def local_settings_def blank_text_def)
  ultimately have "validate_settings plain_text ascii_lower local_settings = None"
    by (simp add: validate_settings_def validate_real_model_credentials_def validate_production_configuration_def local_settings_def)
  with local_bounds show ?thesis
    by (simp add: make_settings_def validate_s3_storage_requirements_def validate_backup_s3_requirements_def data_get_def cfg_truthy_def)
qed

theorem admin_gate_exact_witness:
  "require_admin_token local_settings (Some [107, 195, 169]) \<and> \<not> require_admin_token local_settings (Some [107, 233])
     \<and> \<not> require_admin_token local_settings None"
proof -
  have mode: "app_mode local_settings \<in> {Mode_development, Mode_production}"
    "app_mode local_settings = Mode_production \<longrightarrow> process_role local_settings \<noteq> Role_ingestion"
    "\<forall>t. admin_token local_settings = Some t \<longrightarrow> list_all (\<lambda>c. c < 1114112) t"
    by (simp_all add: local_settings_def)
  obtain bytes where gate: "\<And>header. require_admin_token local_settings header \<longleftrightarrow> header = Some bytes"
    using admin_gate_exact [OF local_accepted mode] by blast
  have "require_admin_token local_settings (Some [107, 195, 169])"
    by (simp add: require_admin_token_def local_settings_def encode_utf8_def encode_latin1_def surrogate_def utf8_char_def
        MAX_ADMIN_TOKEN_HEADER_LENGTH_def)
  with gate show ?thesis by auto
qed

text \<open>A production service.\<close>

definition public_origin :: AnyHttpUrl where
  "public_origin = \<lparr>hu_text = u ''https://h/'', hu_scheme = u ''https'', hu_host = Some (u ''h''), hu_port = None, hu_username = None,
     hu_password = None, hu_query = None, hu_fragment = None, hu_path = Some (u ''/'')\<rparr>"

definition public_settings :: Settings where
  "public_settings = local_settings\<lparr>app_mode := Mode_production, admin_token := Some (u ''correct-horse-battery-staple-0042''),
     allowed_origins := [public_origin], object_store_type := Store_s3\<rparr>"

definition s3_data :: cfg_data where
  "s3_data = [(u ''object_store_type'', V_str (u ''s3'')), (u ''s3_endpoint'', V_str (u ''e'')), (u ''s3_bucket'', V_str (u ''b'')),
     (u ''s3_access_key'', V_secret (u ''k'')), (u ''s3_secret_key'', V_secret (u ''s''))]"

definition s3_coerce :: "cfg_data \<Rightarrow> Settings option" where
  "s3_coerce data = (if data_get data ''object_store_type'' = V_str (u ''s3'') then Some public_settings else None)"

lemma public_dsns:
  "is_valid_production_dsn plain_text ''database_url'' (u ''postgresql+asyncpg://a:b@db/p?ssl=require'')"
  "is_valid_production_dsn plain_text ''checkpoint_database_url'' (u ''postgresql+psycopg://a:b@db/p'')"
  by (simp_all add: is_valid_production_dsn_def database_dsn_default_def control_char_def urlsplit_def Let_def split_scheme_def
      split_netloc_def ascii_alpha_def scheme_char_def ascii_lower_def plain_text_def production_target_ok_def
      production_dsn_scheme_def url_fragment_def url_rest_def url_hostname_def split_host_def host_info_def py_strip_def
      py_isspace_def production_credentials_ok_def user_info_def has_user_def unquote_def url_port_def production_tls_ok_def
      url_query_def parse_qsl_def query_pair_def production_dsn_tls_key_def suffix_def)

lemma public_accepted: "make_settings plain_text ascii_lower s3_coerce s3_data = Inr public_settings"
proof -
  have "validate_production_admin_token ascii_lower public_settings = None"
    by (simp add: validate_production_admin_token_def public_settings_def local_settings_def encode_utf8_def surrogate_def utf8_char_def
        MAX_ADMIN_TOKEN_HEADER_LENGTH_def py_strip_def py_isspace_def ascii_lower_def production_placeholder_tokens_def)
  moreover have "validate_ccgp_configuration ascii_lower public_settings = None"
    by (simp add: validate_ccgp_configuration_def public_settings_def local_settings_def blank_text_def)
  moreover have "validate_production_configuration plain_text public_settings = None"
    using public_dsns
    by (simp add: validate_production_configuration_def production_invalid_fields_def public_settings_def local_settings_def
        public_origin_def is_exact_production_origin_def py_strip_def py_isspace_def)
  ultimately have "validate_settings plain_text ascii_lower public_settings = None"
    by (simp add: validate_settings_def validate_real_model_credentials_def public_settings_def local_settings_def)
  moreover have "field_bounds_ok public_settings"
    using local_bounds by (simp add: field_bounds_ok_def public_settings_def)
  moreover have "s3_coerce s3_data = Some public_settings" by (simp add: s3_coerce_def s3_data_def data_get_def del: u_Cons)
  ultimately show ?thesis
    by (simp add: make_settings_def validate_s3_storage_requirements_def validate_backup_s3_requirements_def data_get_def
        cfg_truthy_def s3_data_def missing_names_def is_blank_def py_strip_def py_isspace_def)
qed


theorem live_credentials_confined_witness:
  "\<not> live_ingestion_enabled public_settings \<and> blank_text (ccgp_signing_key public_settings)"
proof -
  have "process_role public_settings \<noteq> Role_ingestion" by (simp add: public_settings_def local_settings_def)
  then show ?thesis using live_credentials_confined [OF public_accepted] by blast
qed

definition test_settings :: Settings where
  "test_settings = local_settings\<lparr>app_mode := Mode_test, database_url := u ''postgresql+asyncpg://a:b@localhost/x_test'',
     checkpoint_database_url := u ''postgresql://LOCALHOST:5432/x_test''\<rparr>"

lemma test_parts:
  "connection_parts plain_text ascii_lower (u ''postgresql+asyncpg://a:b@localhost/x_test'') = Some (u ''localhost'', 5432, u ''x_test'')"
  "connection_parts plain_text ascii_lower (u ''postgresql://LOCALHOST:5432/x_test'') = Some (u ''localhost'', 5432, u ''x_test'')"
  by (simp_all add: connection_parts_def py_partition_def urlsplit_def Let_def split_scheme_def split_netloc_def ascii_alpha_def
      scheme_char_def ascii_lower_def plain_text_def url_fragment_def url_rest_def url_hostname_def split_host_def host_info_def
      url_port_def url_query_def ALLOWED_POSTGRES_SCHEMES_def ALLOWED_TEST_HOSTS_def guard_port_text_def POSTGRES_DEFAULT_PORT_def
      safe_database_name_def digit_value_ascii)

theorem tests_stay_on_test_database_witness:
  "\<exists>host port db. host \<in> {u ''localhost'', u ''127.0.0.1'', u ''::1''} \<and> safe_database_name db \<and>
     (\<exists>p. urlsplit plain_text (u ''postgresql://LOCALHOST:5432/x_test'') = Inr p \<and> url_path p = u ''/'' @ db)"
proof -
  have "enforce_test_environment plain_text ascii_lower test_settings"
    using test_parts by (simp add: enforce_test_environment_def test_settings_def suffix_def del: u_Cons) (simp add: u_def)
  from tests_stay_on_test_database [OF this] show ?thesis
    by (simp add: test_settings_def del: u_Cons) blast
qed

section \<open>Masking a DSN\<close>

lemma find_pos_sep:
  assumes "58 \<notin> set scheme"
  shows "find_pos (u ''://'') (scheme @ u ''://'' @ rest) = Some (length scheme)"
  using assms by (induction scheme) (auto simp: prefix_def)

text \<open>Whatever the password is, colons and at signs included, the masked text of a DSN is the same.\<close>

lemma dsn_password_masked:
  assumes "prefix (u ''postgresql'') scheme" "58 \<notin> set scheme" "58 \<notin> set user" "64 \<notin> set location"
  shows "redact_dsn_password (scheme @ u ''://'' @ user @ u '':'' @ password @ u ''@'' @ location) =
     scheme @ u ''://'' @ user @ u '':'' @ MASK @ u ''@'' @ location"
proof -
  let ?info = "user @ u '':'' @ password"
  have host: "host_info (?info @ u ''@'' @ location) = location"
    using assms(4) by (simp add: host_info_def takeWhile_append)
  have name: "takeWhile (\<lambda>c. c \<noteq> 58) ?info = user"
    using assms(3) by (auto simp: takeWhile_append)
  have "py_partition (u ''://'') (scheme @ u ''://'' @ ?info @ u ''@'' @ location) = Some (scheme, ?info @ u ''@'' @ location)"
    using find_pos_sep [OF assms(2)] by (simp add: py_partition_def)
  moreover have "has_user (?info @ u ''@'' @ location)" by (simp add: has_user_def)
  ultimately show ?thesis
    using assms(1) host name by (simp add: redact_dsn_password_def Let_def)
qed

section \<open>A disabled backup\<close>

text \<open>
  The validator of the backup target reads the raw value, and the environment holds text: the text \<open>false\<close>
  is true, so the deployment's own setting of a disabled replication is refused.
\<close>

lemma disabled_backup_refused:
  assumes "data_get data ''backup_s3_enabled'' = V_str (u ''false'')" "data_get data ''backup_s3_bucket'' = V_str []"
    and "validate_s3_storage_requirements data = None"
  shows "\<exists>names. make_settings tab casefold coerce data = Inl (Backup_values_missing names)"
  using assms
  by (simp add: make_settings_def validate_backup_s3_requirements_def cfg_truthy_def missing_names_def is_blank_def py_strip_def Let_def)

end
