(* ===== verification/Spec2Isabelle.thy ===== *)
theory Spec2Isabelle
  imports Run_Properties Subscription_Properties Composition Materializer_Properties Intent_Properties
    Metrics_Properties Report_View_Properties Config_Properties
begin

text \<open>
  BidScope turns tender notices into cited reports.  Authorized source pages become immutable bundles,
  bundles are imported as notice versions with evidence spans, a query is answered by a workflow that
  retrieves versions, binds their evidence and drafts a report whose every claim is cited, and the report is
  persisted, exported and diffed by subscriptions.  This development models that production path in
  \<open>src/backend/src/bidscope\<close>; all paths below are relative to it.

  Theories and code.
  \<^item> \<open>Prelude\<close>, \<open>PyTime\<close>, \<open>Utc\<close>, \<open>Digest\<close>: Python strings as code points, dictionaries in insertion order,
    the error sum, \<open>datetime\<close> with \<open>isoformat\<close>, \<open>fromisoformat\<close> (on the format \<open>isoformat\<close> prints) and
    \<open>astimezone(UTC)\<close>, and SHA-256 over UTF-8 on 32-bit words.
  \<^item> \<open>Domain\<close>: \<open>domain/enums.py\<close>, \<open>types.py\<close>, \<open>intents.py\<close>, \<open>notices.py\<close>, \<open>reports.py\<close>, \<open>runs.py\<close>, \<open>provenance.py\<close>.
    A validator is a function into an error sum.
  \<^item> \<open>Bundles\<close>: \<open>domain/snapshots.py\<close> (the manifest contract) and \<open>snapshots/adapters.py\<close> (\<open>inspect_bundle\<close> over a
    directory as a map from paths to entries).
  \<^item> \<open>Floats\<close>, \<open>Parsers\<close>: binary floats as exact rationals with correct rounding; \<open>snapshots/_parse.py\<close> and the
    adapters \<open>ccgp.py\<close>, \<open>ggzy.py\<close>, \<open>demo.py\<close>.
  \<^item> \<open>Importer\<close>: \<open>snapshots/importer.py\<close> and \<open>SnapshotRepository\<close>; \<open>Notice_Tables\<close>: the notice tables of
    \<open>persistence/models.py\<close> and the views that \<open>api/dependencies.py\<close> and \<open>subscriptions/service.py\<close> build from them.
  \<^item> \<open>Acquisition\<close>: \<open>ingestion/ccgp.py\<close> (responses and their errors), \<open>ingestion/service.py\<close> (\<open>run_once\<close>),
    \<open>ingestion/scheduler.py\<close> (delays) and \<open>SourceAcquisitionRepository\<close> (cursor and run rows); \<open>Materializer\<close>:
    \<open>ingestion/materializer.py\<close> over a staging directory.
  \<^item> \<open>Retrieval\<close>, \<open>Deduplication\<close>: \<open>retrieval/search.py\<close> and \<open>retrieval/deduplication.py\<close>.
  \<^item> \<open>Evidence\<close>, \<open>Semantic\<close>: \<open>evidence/extractor.py\<close>, \<open>validator.py\<close>, \<open>semantic_verifier.py\<close>, \<open>fake_verifier.py\<close>,
    \<open>deepseek_verifier.py\<close> (the sanitising of an answer).
  \<^item> \<open>Graph_Nodes\<close>, \<open>Graph\<close>, \<open>Models\<close>: \<open>graph/state.py\<close>, \<open>graph/nodes.py\<close>, \<open>graph/builder.py\<close> and the offline ports
    of \<open>llm/fake.py\<close>.  A node is a function from the state to an update or an exception; the workflow is the
    step relation \<open>graph_step\<close> and the functions \<open>run_workflow\<close> and \<open>resume_workflow\<close>.
  \<^item> \<open>Executor\<close>, \<open>Run_Service\<close>: \<open>graph/executor.py\<close> and the \<open>RunService\<close> of \<open>api/dependencies.py\<close> over the run and
    event tables, with ownership tokens.
  \<^item> \<open>Objects\<close>, \<open>Delivery\<close>: \<open>delivery/objects.py\<close>, \<open>delivery/reports.py\<close>, \<open>delivery/docx.py\<close>.
  \<^item> \<open>Report_Views\<close>: \<open>api/routes/reports.py\<close>, the joins of \<open>_fetch_report\<close>, the bounded payload and the DOCX routes.
  \<^item> \<open>Cron\<close>, \<open>Subscriptions\<close>: \<open>subscriptions/service.py\<close> and \<open>subscriptions/scheduler.py\<close>.
  \<^item> \<open>Intent\<close>: the keyword parser of \<open>llm/fake.py\<close>, from the query text to an intent.
  \<^item> \<open>Redaction\<close>, \<open>Metrics\<close>: \<open>observability.py\<close> (what a log record may carry; the registry and its text format;
    request ids) and \<open>audit.py\<close> (contexts, redaction and the audit row).
  \<^item> \<open>Config\<close>: \<open>config.py\<close> (validators, field bounds, sanitised errors), \<open>api/auth.py\<close> and \<open>testing/env_guard.py\<close>.
  \<^item> \<open>Composition\<close>: the loader of \<open>api/dependencies.py\<close> between the notice tables and the workflow.

  Interfaces.  Locales state what one part relies on in another: \<open>object_store\<close> and its extension
  \<open>payload_store\<close> (interpreted on the local and the S3 store), \<open>quoting_model\<close> (a report model that quotes only the
  evidence it was given; the offline model), \<open>semantic_verifier\<close> (the offline and the model-backed verifier),
  \<open>keyed_runs\<close> (run creation under an idempotency key, as subscriptions use it; the executor) and \<open>ordered_dict\<close>
  (Python dictionaries; association lists).

  What is proved.  The workflow delivers at most one report and only with claims whose citations resolve to
  intact spans of the item's own version (\<open>Graph_Properties\<close>); over imported tables every such citation resolves
  at persistence, and such a report is always persisted (\<open>Composition\<close>); a persisted report is read back as it
  was written (\<open>Delivery_Properties\<close>).  Runs have one owner, lost ownership writes nothing, the stored events
  mirror the checkpoint (\<open>Executor_Properties\<close>, \<open>Run_Properties\<close>).  Inspection accepts exactly the bundles whose
  declared files are intact and complete, admitted contracts are approved (\<open>Bundles\<close>), imports are idempotent and
  keep faithful versions and readable payloads (\<open>Import_Properties\<close>).  Acquisition bounds its requests, settles
  every run and moves the cursor only on success (\<open>Acquisition_Properties\<close>); a fetched page is staged as a
  bundle that passes inspection and is parsed back into its items (\<open>Materializer_Properties\<close>), and parsing keeps
  provenance and converts amounts exactly (\<open>Parser_Properties\<close>).  Subscriptions consume an
  occurrence once and announce nothing when nothing changed (\<open>Subscription_Properties\<close>).  A report that is
  fetched shows in its main list no claim whose verdict is open (\<open>Report_View_Properties\<close>); a logged record holds no
  trace of a masked secret (\<open>Redaction_Properties\<close>); the registry keeps at most 59 series (\<open>Metrics_Properties\<close>); the
  offline parser always asks for confirmation of a schedule (\<open>Intent_Properties\<close>); settings that are accepted harden a
  production service, admit exactly one administrator's header and keep tests off other databases, and refused ones
  reveal no secret (\<open>Config_Properties\<close>).  The other theories hold the
  functional facts these rest on, and the defects that modelling showed.

  Bounds and fuel.  An invocation of the workflow takes at most 16 supersteps (\<open>RECURSION_LIMIT\<close>); that this
  suffices is proved by the measure \<open>run_rank\<close>.  Listing the keys of a bucket is bounded by the number of its
  pages.  An acquisition run sends at most 300 requests (100 pages, two retries each).

  Parameters.  Third-party code and services appear as arguments: the model calls, the embedding and the orders
  of trigram and vector recall, the compiled graph's event stream and checkpoint store, the cron trigger, the DOCX
  renderer, the HTTP transport, pydantic's coercion of JSON to typed fields, the JSON decoder, canonical JSON text,
  pydantic's coercion of settings, Unicode tables (NFKC, lower, casefold), the keys a database draws (\<open>fresh\<close>, \<open>key_text\<close>), what PostgreSQL keeps
  of a JSON document or a timestamp, and one reading of the clock per position.

  Modelling notes.  A database transaction is a function on the tables; one that raises leaves them unchanged.
  Cancellation of a coroutine and heartbeats appear through their effects on the tables.  Floats of scores
  and confidences are exact rationals, those of money are rounded as IEEE doubles.  The messages of exceptions
  are constructors, except where code reads them.  One import runs at a time.  The local object store holds no symbolic links.

  Not modelled.  Request plumbing of the other HTTP routes, command line, backup, the calls that count
  metrics and write audit rows inside the other services, the evaluation harness, the live model's prompts, the
  HTML tree, and process start-up: mostly input and output around the modelled services.
\<close>

end
